(* ===== verification/Prelude.thy ===== *)
theory Prelude
  imports Main "HOL-Library.Word" "HOL-Library.Product_Lexorder"
begin

text \<open>
  Shared vocabulary of the development.

  \<^item> Value types: a UUID is a 128-bit word (PostgreSQL compares UUIDs as unsigned big-endian
    byte strings, which is the order of \<^typ>\<open>128 word\<close>); an instant is the number of
    microseconds since the epoch, in UTC (the resolution of Python's \<open>datetime\<close>); a duration is
    a number of microseconds.
  \<^item> Python values that reach dynamic checks (\<open>isinstance\<close>) are \<open>pyval\<close>s.
  \<^item> Failing computations return \<open>'e + 'a\<close>, \<open>Inl\<close> carrying the exception; \<open>bind_r\<close> sequences
    them.
  \<^item> A database table is the list of its rows. \<open>get_row\<close> is a primary-key lookup,
    \<open>select_rows\<close> is \<open>SELECT ... WHERE ... ORDER BY ... LIMIT\<close>, \<open>update_where\<close> is
    \<open>UPDATE ... WHERE\<close>, \<open>update_ids\<close> is the loop that mutates the ORM objects a select
    returned.
  \<^item> Generic facts on these operations, collected in \<open>table_simps\<close> and \<open>result_simps\<close>, carry
    the proofs of the components.
\<close>

named_theorems result_simps \<open>sequencing of computations that may raise\<close>
named_theorems table_simps \<open>lookups and updates of tables\<close>

section \<open>Value types\<close>

type_synonym uuid = "128 word"
type_synonym instant = int
type_synonym duration = int

definition secs :: "int \<Rightarrow> duration" where
  "secs n = n * 1000000"

definition millis :: "int \<Rightarrow> duration" where
  "millis n = n * 1000"

text \<open>A float is a dyadic rational (mantissa, exponent) or one of the non-finite values.\<close>

datatype pyfloat = Finite int int | Infinite bool | NaN

text \<open>
  A \<open>datetime\<close>: naive, or aware with the instant it denotes and its offset from UTC. The
  instant of an aware value does not depend on the offset it is written with.
\<close>

datatype py_datetime = Naive int | Aware instant duration

datatype pyval =
    VNone
  | VBool bool
  | VInt int
  | VFloat pyfloat
  | VStr string
  | VUuid uuid
  | VDatetime py_datetime
  | VTimedelta duration
  | VList "pyval list"
  | VTuple "pyval list"
  | VDict "(pyval \<times> pyval) list"
  | VOther

section \<open>Computations that may raise\<close>

definition bind_r :: "'e + 'a \<Rightarrow> ('a \<Rightarrow> 'e + 'b) \<Rightarrow> 'e + 'b" where
  "bind_r r f = (case r of Inl e \<Rightarrow> Inl e | Inr x \<Rightarrow> f x)"

text \<open>\<open>require b e\<close>: raise \<open>e\<close> unless \<open>b\<close> holds.\<close>

definition require :: "bool \<Rightarrow> 'e \<Rightarrow> 'e + unit" where
  "require b e = (if b then Inr () else Inl e)"

section \<open>Tables\<close>

definition get_row :: "('r \<Rightarrow> 'k) \<Rightarrow> 'r list \<Rightarrow> 'k \<Rightarrow> 'r option" where
  "get_row key tbl k = find (\<lambda>r. key r = k) tbl"

definition select_rows :: "('r \<Rightarrow> bool) \<Rightarrow> ('r \<Rightarrow> 'k::linorder) \<Rightarrow> nat \<Rightarrow> 'r list \<Rightarrow> 'r list" where
  "select_rows P key n tbl = take n (sort_key key (filter P tbl))"

definition update_where :: "('r \<Rightarrow> bool) \<Rightarrow> ('r \<Rightarrow> 'r) \<Rightarrow> 'r list \<Rightarrow> 'r list" where
  "update_where P f tbl = map (\<lambda>r. if P r then f r else r) tbl"

definition update_ids :: "('r \<Rightarrow> 'k) \<Rightarrow> 'k list \<Rightarrow> ('r \<Rightarrow> 'r) \<Rightarrow> 'r list \<Rightarrow> 'r list" where
  "update_ids key ks f tbl = update_where (\<lambda>r. key r \<in> set ks) f tbl"

definition count_where :: "('r \<Rightarrow> bool) \<Rightarrow> 'r list \<Rightarrow> nat" where
  "count_where P tbl = length (filter P tbl)"

definition delete_where :: "('r \<Rightarrow> bool) \<Rightarrow> 'r list \<Rightarrow> 'r list" where
  "delete_where P tbl = filter (\<lambda>r. \<not> P r) tbl"

text \<open>Every primary or unique key occurs once.\<close>

definition unique_key :: "('r \<Rightarrow> 'k) \<Rightarrow> 'r list \<Rightarrow> bool" where
  "unique_key key tbl \<longleftrightarrow> distinct (map key tbl)"

section \<open>Facts\<close>

lemma bind_r_Inl [simp, result_simps]: "bind_r (Inl e) f = Inl e"
  by (simp add: bind_r_def)

lemma bind_r_Inr [simp, result_simps]: "bind_r (Inr x) f = f x"
  by (simp add: bind_r_def)

lemma bind_r_eq_Inr [result_simps]: "bind_r r f = Inr y \<longleftrightarrow> (\<exists>x. r = Inr x \<and> f x = Inr y)"
  by (cases r) simp_all

lemma bind_r_eq_Inl [result_simps]:
  "bind_r r f = Inl e \<longleftrightarrow> r = Inl e \<or> (\<exists>x. r = Inr x \<and> f x = Inl e)"
  by (cases r) simp_all

lemma require_eq_Inr [simp, result_simps]: "require b e = Inr u \<longleftrightarrow> b"
  by (simp add: require_def)

lemma require_eq_Inl [simp, result_simps]: "require b e = Inl e' \<longleftrightarrow> \<not> b \<and> e' = e"
  by (auto simp add: require_def)

lemma require_True [simp]: "require True e = Inr ()"
  by (simp add: require_def)

lemma require_False [simp]: "require False e = Inl e"
  by (simp add: require_def)

lemma secs_add: "secs (a + b) = secs a + secs b"
  by (simp add: secs_def algebra_simps)

lemma secs_less_iff [simp]: "secs a < secs b \<longleftrightarrow> a < b"
  by (simp add: secs_def)

lemma secs_le_iff [simp]: "secs a \<le> secs b \<longleftrightarrow> a \<le> b"
  by (simp add: secs_def)

lemma secs_pos_iff [simp]: "0 < secs a \<longleftrightarrow> 0 < a"
  by (simp add: secs_def)

lemma get_row_SomeD: "get_row key tbl k = Some r \<Longrightarrow> r \<in> set tbl \<and> key r = k"
  by (auto simp: get_row_def find_Some_iff)

lemma get_row_None_iff [table_simps]: "get_row key tbl k = None \<longleftrightarrow> k \<notin> key ` set tbl"
  by (auto simp: get_row_def find_None_iff)

lemma get_row_unique:
  "unique_key key tbl \<Longrightarrow> r \<in> set tbl \<Longrightarrow> get_row key tbl (key r) = Some r"
proof (induction tbl)
  case Nil
  then show ?case by simp
next
  case (Cons a tbl)
  then show ?case
    by (auto simp: unique_key_def get_row_def)
qed

lemma get_row_unique_iff:
  "unique_key key tbl \<Longrightarrow> get_row key tbl k = Some r \<longleftrightarrow> r \<in> set tbl \<and> key r = k"
  using get_row_SomeD get_row_unique by fastforce

lemma unique_keyD:
  "unique_key key tbl \<Longrightarrow> r \<in> set tbl \<Longrightarrow> s \<in> set tbl \<Longrightarrow> key r = key s \<Longrightarrow> r = s"
  by (auto simp: unique_key_def distinct_map dest: inj_onD)

lemma set_update_where [table_simps]:
  "set (update_where P f tbl) = f ` {r \<in> set tbl. P r} \<union> {r \<in> set tbl. \<not> P r}"
  by (auto simp: update_where_def image_iff)

lemma length_update_where [simp, table_simps]: "length (update_where P f tbl) = length tbl"
  by (simp add: update_where_def)

lemma map_key_update_where:
  "(\<And>r. key (f r) = key r) \<Longrightarrow> map key (update_where P f tbl) = map key tbl"
  by (simp add: update_where_def comp_def if_distrib cong: if_cong)

lemma unique_key_update_where [table_simps]:
  "(\<And>r. key (f r) = key r) \<Longrightarrow> unique_key key (update_where P f tbl) = unique_key key tbl"
  by (simp only: unique_key_def map_key_update_where)

lemma map_key_update_ids:
  "(\<And>r. key (f r) = key r) \<Longrightarrow> map key (update_ids idf ks f tbl) = map key tbl"
  by (simp add: update_ids_def map_key_update_where)

lemma unique_key_update_ids [table_simps]:
  "(\<And>r. key (f r) = key r) \<Longrightarrow> unique_key key (update_ids idf ks f tbl) = unique_key key tbl"
  by (simp add: update_ids_def unique_key_update_where)

lemma get_row_update_where:
  assumes "\<And>r. key (f r) = key r"
  shows "get_row key (update_where P f tbl) k =
    map_option (\<lambda>r. if P r then f r else r) (get_row key tbl k)"
  using assms by (induction tbl) (auto simp: get_row_def update_where_def)

lemma get_row_update_ids:
  assumes "\<And>r. key (f r) = key r"
  shows "get_row key (update_ids key ks f tbl) k =
    (if k \<in> set ks then map_option f (get_row key tbl k) else get_row key tbl k)"
proof -
  have "get_row key (update_ids key ks f tbl) k =
      map_option (\<lambda>r. if key r \<in> set ks then f r else r) (get_row key tbl k)"
    unfolding update_ids_def by (rule get_row_update_where) (rule assms)
  then show ?thesis
    by (cases "get_row key tbl k") (auto dest: get_row_SomeD)
qed

lemma update_where_none: "(\<And>r. r \<in> set tbl \<Longrightarrow> \<not> P r) \<Longrightarrow> update_where P f tbl = tbl"
  by (induction tbl) (auto simp: update_where_def)

lemma ball_update_whereI:
  assumes "\<And>r. r \<in> set tbl \<Longrightarrow> P r \<Longrightarrow> Q (f r)"
    and "\<And>r. r \<in> set tbl \<Longrightarrow> \<not> P r \<Longrightarrow> Q r"
  shows "\<forall>r \<in> set (update_where P f tbl). Q r"
  using assms by (auto simp: set_update_where)

lemma set_select_rows_subset: "r \<in> set (select_rows P key n tbl) \<Longrightarrow> r \<in> set tbl \<and> P r"
  by (auto simp: select_rows_def dest: in_set_takeD)

lemma length_select_rows_le: "length (select_rows P key n tbl) \<le> n"
  by (simp add: select_rows_def)

lemma sorted_select_rows: "sorted (map key (select_rows P key n tbl))"
proof -
  have "sorted (take n (map key (sort_key key (filter P tbl))))"
    by (intro sorted_wrt_take) simp
  then show ?thesis by (simp add: select_rows_def take_map)
qed

text \<open>A row that satisfies the filter and is left out sorts after every selected row.\<close>

lemma select_rows_least:
  assumes "r \<in> set tbl" "P r" "r \<notin> set (select_rows P key n tbl)"
    and "s \<in> set (select_rows P key n tbl)"
  shows "key s \<le> key r"
proof -
  let ?xs = "sort_key key (filter P tbl)"
  have split: "?xs = take n ?xs @ drop n ?xs" by simp
  have "r \<in> set ?xs" using assms(1,2) by simp
  with assms(3) split have r: "r \<in> set (drop n ?xs)"
    by (metis Un_iff select_rows_def set_append)
  have s: "s \<in> set (take n ?xs)" using assms(4) by (simp add: select_rows_def)
  have "sorted (map key (take n ?xs @ drop n ?xs))" by (subst split [symmetric]) simp
  then have "\<forall>x \<in> set (take n ?xs). \<forall>y \<in> set (drop n ?xs). key x \<le> key y"
    unfolding map_append sorted_append by simp
  then show ?thesis using r s by blast
qed

text \<open>When the limit is not reached, nothing that satisfies the filter is left out.\<close>

lemma select_rows_all:
  assumes "length (select_rows P key n tbl) < n" "r \<in> set tbl" "P r"
  shows "r \<in> set (select_rows P key n tbl)"
proof -
  let ?xs = "sort_key key (filter P tbl)"
  have "length ?xs \<le> n" using assms(1) by (simp add: select_rows_def)
  then have "select_rows P key n tbl = ?xs" by (simp add: select_rows_def)
  then show ?thesis using assms(2,3) by simp
qed

lemma distinct_select_rows:
  assumes "unique_key key tbl"
  shows "distinct (map key (select_rows P ord n tbl))"
proof -
  let ?xs = "sort_key ord (filter P tbl)"
  have d: "distinct tbl" and i: "inj_on key (set tbl)"
    using assms by (simp_all add: unique_key_def distinct_map)
  have "distinct ?xs" using d by (simp add: distinct_filter)
  then have "distinct (take n ?xs)" by simp
  moreover have "inj_on key (set (take n ?xs))"
    by (rule inj_on_subset [OF i]) (auto dest: in_set_takeD)
  ultimately show ?thesis by (simp add: select_rows_def distinct_map)
qed

lemma update_where_cong:
  "(\<And>r. r \<in> set tbl \<Longrightarrow> P r = Q r) \<Longrightarrow> update_where P f tbl = update_where Q f tbl"
  by (auto simp: update_where_def)

text \<open>The rows a select returned, found again by their keys.\<close>

lemma selected_row:
  assumes "unique_key key tbl" "r \<in> set tbl" "key r \<in> key ` set (select_rows P ord n tbl)"
  shows "r \<in> set (select_rows P ord n tbl) \<and> P r"
proof -
  from assms(3) obtain s where s: "s \<in> set (select_rows P ord n tbl)" "key s = key r" by auto
  then have "s = r" using assms(1,2) set_select_rows_subset unique_keyD by metis
  with s show ?thesis by (auto dest: set_select_rows_subset)
qed

lemma update_ids_selected:
  assumes "unique_key key tbl"
  shows "update_ids key (map key (select_rows P ord n tbl)) f tbl =
    update_where (\<lambda>r. P r \<and> key r \<in> key ` set (select_rows P ord n tbl)) f tbl"
  unfolding update_ids_def by (rule update_where_cong) (auto dest: selected_row [OF assms])

lemma count_where_pos_iff [table_simps]: "0 < count_where P tbl \<longleftrightarrow> (\<exists>r \<in> set tbl. P r)"
  by (auto simp: count_where_def filter_empty_conv)

lemma count_where_zero_iff [table_simps]: "count_where P tbl = 0 \<longleftrightarrow> (\<forall>r \<in> set tbl. \<not> P r)"
  by (auto simp: count_where_def filter_empty_conv)

lemma set_delete_where [simp, table_simps]:
  "set (delete_where P tbl) = {r \<in> set tbl. \<not> P r}"
  by (auto simp: delete_where_def)

lemma unique_key_delete_where: "unique_key key tbl \<Longrightarrow> unique_key key (delete_where P tbl)"
  by (simp add: unique_key_def delete_where_def distinct_map_filter)

lemma unique_key_append_row:
  "unique_key key (tbl @ [r]) \<longleftrightarrow> unique_key key tbl \<and> key r \<notin> key ` set tbl"
  by (auto simp: unique_key_def)

lemma get_row_append:
  "get_row key (xs @ ys) k = (case get_row key xs k of Some r \<Rightarrow> Some r | None \<Rightarrow> get_row key ys k)"
  by (induction xs) (simp_all add: get_row_def)

lemma get_row_single: "get_row key [r] k = (if key r = k then Some r else None)"
  by (simp add: get_row_def)

lemma update_where_append: "update_where P f (xs @ ys) = update_where P f xs @ update_where P f ys"
  by (simp add: update_where_def)

lemma update_where_single [simp]: "update_where P f [r] = [if P r then f r else r]"
  by (simp add: update_where_def)

end
