(* ===== verification/Regex.thy ===== *)
theory Regex
  imports Prelude
begin

text \<open>
  The part of Python's \<open>re\<close> module that the sources use: \<open>re.fullmatch\<close> on patterns built from
  character classes, bounded repetition of a class, sequence, alternative and star. Patterns of the
  sources are transcribed as values of type \<open>regex\<close>; matching is by derivatives and is executable.
  \<open>fullmatch_iff_lang\<close> shows that it decides membership in the language of the pattern. The anchors
  \<open>^\<close> and \<open>$\<close> of the sources' patterns are no constraint under \<open>fullmatch\<close>.
\<close>

type_synonym char_class = "(char \<times> char) list"

definition in_class :: "char_class \<Rightarrow> char \<Rightarrow> bool" where
  "in_class cs c = list_ex (\<lambda>(a, b). (of_char a :: nat) \<le> of_char c \<and> (of_char c :: nat) \<le> of_char b) cs"

datatype regex =
    Zero
  | One
  | Cls char_class
  | ClsRep char_class nat nat
  | Seq regex regex
  | Alt regex regex
  | Star regex

abbreviation chr_re :: "char \<Rightarrow> regex" where
  "chr_re c \<equiv> Cls [(c, c)]"

abbreviation plus_re :: "regex \<Rightarrow> regex" where
  "plus_re r \<equiv> Seq r (Star r)"

abbreviation opt_re :: "regex \<Rightarrow> regex" where
  "opt_re r \<equiv> Alt One r"

fun nullable :: "regex \<Rightarrow> bool" where
  "nullable Zero = False"
| "nullable One = True"
| "nullable (Cls cs) = False"
| "nullable (ClsRep cs m n) = (m = 0)"
| "nullable (Seq r s) = (nullable r \<and> nullable s)"
| "nullable (Alt r s) = (nullable r \<or> nullable s)"
| "nullable (Star r) = True"

definition mk_seq :: "regex \<Rightarrow> regex \<Rightarrow> regex" where
  "mk_seq r s = (if r = Zero then Zero else if r = One then s else Seq r s)"

definition mk_alt :: "regex \<Rightarrow> regex \<Rightarrow> regex" where
  "mk_alt r s = (if r = Zero then s else if s = Zero then r else Alt r s)"

fun deriv_re :: "char \<Rightarrow> regex \<Rightarrow> regex" where
  "deriv_re c Zero = Zero"
| "deriv_re c One = Zero"
| "deriv_re c (Cls cs) = (if in_class cs c then One else Zero)"
| "deriv_re c (ClsRep cs m n) =
     (if m \<le> n \<and> 0 < n \<and> in_class cs c then ClsRep cs (m - 1) (n - 1) else Zero)"
| "deriv_re c (Seq r s) =
     (if nullable r then mk_alt (mk_seq (deriv_re c r) s) (deriv_re c s)
      else mk_seq (deriv_re c r) s)"
| "deriv_re c (Alt r s) = mk_alt (deriv_re c r) (deriv_re c s)"
| "deriv_re c (Star r) = mk_seq (deriv_re c r) (Star r)"

fun fullmatch :: "regex \<Rightarrow> string \<Rightarrow> bool" where
  "fullmatch r [] = nullable r"
| "fullmatch r (c # s) = fullmatch (deriv_re c r) s"

section \<open>Character classes and patterns shared by several modules\<close>

definition lower :: char_class where "lower = [(CHR ''a'', CHR ''z'')]"
definition lower_digit :: char_class where
  "lower_digit = [(CHR ''a'', CHR ''z''), (CHR ''0'', CHR ''9'')]"
definition alnum :: char_class where
  "alnum = [(CHR ''A'', CHR ''Z''), (CHR ''a'', CHR ''z''), (CHR ''0'', CHR ''9'')]"
definition alnum_key :: char_class where
  "alnum_key = alnum @ [(CHR ''.'', CHR ''.''), (CHR ''_'', CHR ''_''), (CHR '':'', CHR '':''),
     (CHR ''-'', CHR ''-'')]"

text \<open>\<open>[a-z][a-z0-9]*(?:_[a-z0-9]+)*\<close>: lowercase snake case.\<close>

definition snake_re :: regex where
  "snake_re = Seq (Cls lower) (Seq (Star (Cls lower_digit))
     (Star (Seq (chr_re (CHR ''_'')) (plus_re (Cls lower_digit)))))"

text \<open>\<open>[A-Za-z0-9][A-Za-z0-9._:-]{0,n}\<close>: keys, worker names and correlation identifiers.\<close>

definition key_re :: "nat \<Rightarrow> regex" where
  "key_re n = Seq (Cls alnum) (ClsRep alnum_key 0 n)"

text \<open>Evaluation of the matcher on a concrete string by the simplifier.\<close>

lemmas regex_eval = in_class_def lower_def lower_digit_def alnum_def alnum_key_def snake_re_def
  key_re_def mk_seq_def mk_alt_def

section \<open>Languages\<close>

definition conc_lang :: "string set \<Rightarrow> string set \<Rightarrow> string set" where
  "conc_lang A B = {u @ v | u v. u \<in> A \<and> v \<in> B}"

inductive_set star_lang :: "string set \<Rightarrow> string set" for A where
  star_nil: "[] \<in> star_lang A"
| star_app: "u \<in> A \<Longrightarrow> v \<in> star_lang A \<Longrightarrow> u @ v \<in> star_lang A"

fun lang :: "regex \<Rightarrow> string set" where
  "lang Zero = {}"
| "lang One = {[]}"
| "lang (Cls cs) = {[c] | c. in_class cs c}"
| "lang (ClsRep cs m n) = {s. m \<le> length s \<and> length s \<le> n \<and> list_all (in_class cs) s}"
| "lang (Seq r s) = conc_lang (lang r) (lang s)"
| "lang (Alt r s) = lang r \<union> lang s"
| "lang (Star r) = star_lang (lang r)"

lemma lang_mk_seq [simp]: "lang (mk_seq r s) = lang (Seq r s)"
  by (auto simp: mk_seq_def conc_lang_def)

lemma lang_mk_alt [simp]: "lang (mk_alt r s) = lang (Alt r s)"
  by (auto simp: mk_alt_def)

lemma nullable_iff: "nullable r \<longleftrightarrow> [] \<in> lang r"
  by (induction r) (auto simp: conc_lang_def intro: star_lang.star_nil)

lemma Cons_in_conc:
  "c # s \<in> conc_lang A B \<longleftrightarrow>
    (\<exists>u v. s = u @ v \<and> c # u \<in> A \<and> v \<in> B) \<or> ([] \<in> A \<and> c # s \<in> B)"
  by (auto simp: conc_lang_def Cons_eq_append_conv)

lemma Cons_in_starD:
  assumes "w \<in> star_lang A" "w = c # s"
  shows "\<exists>u v. s = u @ v \<and> c # u \<in> A \<and> v \<in> star_lang A"
  using assms
proof (induction arbitrary: s rule: star_lang.induct)
  case star_nil
  then show ?case by simp
next
  case (star_app u v)
  show ?case
  proof (cases u)
    case Nil
    with star_app show ?thesis by auto
  next
    case (Cons d u')
    with star_app show ?thesis by auto
  qed
qed

lemma Cons_in_star: "c # s \<in> star_lang A \<longleftrightarrow> (\<exists>u v. s = u @ v \<and> c # u \<in> A \<and> v \<in> star_lang A)"
  using Cons_in_starD star_lang.star_app by fastforce

lemma lang_deriv: "s \<in> lang (deriv_re c r) \<longleftrightarrow> c # s \<in> lang r"
proof (induction r arbitrary: s)
  case (ClsRep cs m n)
  then show ?case by (cases m; cases n) auto
next
  case (Seq r1 r2)
  then show ?case
    by (auto simp: Cons_in_conc nullable_iff) (auto simp: conc_lang_def)
next
  case (Star r)
  then show ?case
    by (auto simp: Cons_in_star) (auto simp: conc_lang_def)
qed auto

theorem fullmatch_iff_lang: "fullmatch r s \<longleftrightarrow> s \<in> lang r"
  by (induction s arbitrary: r) (simp_all add: nullable_iff lang_deriv)

section \<open>Consequences for the shared patterns\<close>

lemma star_lang_all:
  assumes "w \<in> star_lang A" "\<And>u. u \<in> A \<Longrightarrow> list_all P u"
  shows "list_all P w"
  using assms(1) by induction (auto simp: assms(2))

lemma in_class_append [simp]: "in_class (as @ bs) c \<longleftrightarrow> in_class as c \<or> in_class bs c"
  by (simp add: in_class_def)

definition snake_char :: "char \<Rightarrow> bool" where
  "snake_char c \<longleftrightarrow> in_class lower_digit c \<or> c = CHR ''_''"

lemma in_class_single [simp]: "in_class [(c, c)] d \<longleftrightarrow> d = c"
  by (auto simp: in_class_def)

lemma lower_sub: "in_class lower c \<Longrightarrow> in_class lower_digit c"
  by (auto simp: in_class_def lower_def lower_digit_def)

lemma snake_chars:
  assumes "fullmatch snake_re s"
  shows "list_all snake_char s" and "s \<noteq> []"
proof -
  have "s \<in> lang snake_re" using assms by (simp add: fullmatch_iff_lang)
  then obtain c u v where s: "s = c # u @ v" and c: "in_class lower c"
    and u: "u \<in> star_lang (lang (Cls lower_digit))"
    and v: "v \<in> star_lang (lang (Seq (chr_re (CHR ''_'')) (plus_re (Cls lower_digit))))"
    by (auto simp: snake_re_def conc_lang_def)
  have "list_all snake_char u"
    using u by (rule star_lang_all) (auto simp: snake_char_def)
  moreover have "list_all snake_char v"
    using v
  proof (rule star_lang_all)
    fix w assume "w \<in> lang (Seq (chr_re (CHR ''_'')) (plus_re (Cls lower_digit)))"
    then obtain d x where "w = CHR ''_'' # d # x" "in_class lower_digit d"
      and x: "x \<in> star_lang (lang (Cls lower_digit))"
      by (auto simp: conc_lang_def)
    moreover have "list_all snake_char x"
      using x by (rule star_lang_all) (auto simp: snake_char_def)
    ultimately show "list_all snake_char w" by (simp add: snake_char_def)
  qed
  ultimately show "list_all snake_char s" using s c lower_sub by (simp add: snake_char_def)
  show "s \<noteq> []" using s by simp
qed

lemma in_Seq_Cls:
  "s \<in> lang (Seq (Cls cs) r) \<longleftrightarrow> (\<exists>c t. s = c # t \<and> in_class cs c \<and> t \<in> lang r)"
  by (cases s) (simp_all add: Cons_in_conc, auto simp: conc_lang_def)

lemma key_re_iff:
  "fullmatch (key_re n) s \<longleftrightarrow>
    (\<exists>c t. s = c # t \<and> in_class alnum c \<and> length t \<le> n \<and> list_all (in_class alnum_key) t)"
  unfolding fullmatch_iff_lang key_re_def in_Seq_Cls by simp

end
