(* ===== verification/Py_Strings.thy ===== *)
theory Py_Strings
  imports Regex
begin

text \<open>
  The methods of Python's \<open>str\<close> that the sources call. A \<open>str\<close> is the list of its code points, and
  the model covers strings over the code points 0 to 255 (one \<^typ>\<open>char\<close> each), so that \<open>len\<close>
  is \<^const>\<open>length\<close>. The case mappings of the ASCII characters are defined; those of the other
  characters come from the interpreter's Unicode tables and are the argument \<open>u\<close>.
\<close>

type_synonym case_map = "char \<Rightarrow> string"

abbreviation ord :: "char \<Rightarrow> nat" where
  "ord c \<equiv> of_char c"

definition is_ascii :: "char \<Rightarrow> bool" where
  "is_ascii c \<longleftrightarrow> ord c < 128"

definition ascii_upper :: "char \<Rightarrow> char" where
  "ascii_upper c = (if 97 \<le> ord c \<and> ord c \<le> 122 then char_of (ord c - 32) else c)"

definition ascii_lower :: "char \<Rightarrow> char" where
  "ascii_lower c = (if 65 \<le> ord c \<and> ord c \<le> 90 then char_of (ord c + 32) else c)"

text \<open>\<open>str.upper\<close>, \<open>str.lower\<close> and \<open>str.casefold\<close>.\<close>

definition py_upper :: "case_map \<Rightarrow> string \<Rightarrow> string" where
  "py_upper u s = concat (map (\<lambda>c. if is_ascii c then [ascii_upper c] else u c) s)"

definition py_casefold :: "case_map \<Rightarrow> string \<Rightarrow> string" where
  "py_casefold u s = concat (map (\<lambda>c. if is_ascii c then [ascii_lower c] else u c) s)"

definition py_isspace :: "char \<Rightarrow> bool" where
  "py_isspace c \<longleftrightarrow> ord c \<in> {9, 10, 11, 12, 13, 28, 29, 30, 31, 32, 133, 160}"

text \<open>\<open>str.strip()\<close>.\<close>

definition py_strip :: "string \<Rightarrow> string" where
  "py_strip s = rev (dropWhile py_isspace (rev (dropWhile py_isspace s)))"

text \<open>\<open>str.startswith\<close>, \<open>str.endswith\<close> and \<open>sub in s\<close>.\<close>

definition py_startswith :: "string \<Rightarrow> string \<Rightarrow> bool" where
  "py_startswith s p \<longleftrightarrow> take (length p) s = p"

definition py_endswith :: "string \<Rightarrow> string \<Rightarrow> bool" where
  "py_endswith s p \<longleftrightarrow> py_startswith (rev s) (rev p)"

fun py_contains :: "string \<Rightarrow> string \<Rightarrow> bool" where
  "py_contains sub [] = (sub = [])"
| "py_contains sub (c # s) = (py_startswith (c # s) sub \<or> py_contains sub s)"

text \<open>\<open>str.replace\<close> of one character by another.\<close>

definition py_replace :: "char \<Rightarrow> char \<Rightarrow> string \<Rightarrow> string" where
  "py_replace a b s = map (\<lambda>c. if c = a then b else c) s"

text \<open>\<open>str.split(sep)\<close> on a one-character separator: never the empty list.\<close>

fun py_split :: "char \<Rightarrow> string \<Rightarrow> string list" where
  "py_split sep [] = [[]]"
| "py_split sep (c # s) =
     (if c = sep then [] # py_split sep s
      else (case py_split sep s of [] \<Rightarrow> [[c]] | w # ws \<Rightarrow> (c # w) # ws))"

text \<open>\<open>sep.join(parts)\<close>.\<close>

fun py_join :: "string \<Rightarrow> string list \<Rightarrow> string" where
  "py_join sep [] = []"
| "py_join sep [x] = x"
| "py_join sep (x # y # xs) = x @ sep @ py_join sep (y # xs)"

text \<open>\<open>s.partition(sep)\<close> on a one-character separator: None for the absent separator.\<close>

definition py_partition :: "char \<Rightarrow> string \<Rightarrow> string \<times> string option" where
  "py_partition sep s = (case dropWhile (\<lambda>c. c \<noteq> sep) s of [] \<Rightarrow> (s, None) | c # v \<Rightarrow> (takeWhile (\<lambda>c. c \<noteq> sep) s, Some v))"

text \<open>\<open>s.removeprefix(p)\<close>.\<close>

definition removeprefix :: "string \<Rightarrow> string \<Rightarrow> string" where
  "removeprefix p s = (if py_startswith s p then drop (length p) s else s)"

text \<open>\<open>str(n)\<close> for an integer.\<close>

fun nat_digits :: "nat \<Rightarrow> string" where
  "nat_digits n = (if n < 10 then [char_of (48 + n)]
     else nat_digits (n div 10) @ [char_of (48 + n mod 10)])"

declare nat_digits.simps [simp del]

definition py_str_int :: "int \<Rightarrow> string" where
  "py_str_int n = (if n < 0 then CHR ''-'' # nat_digits (nat (- n)) else nat_digits (nat n))"

text \<open>\<open>int(s)\<close> for a string of decimal digits.\<close>

definition digits_value :: "string \<Rightarrow> nat" where
  "digits_value s = foldl (\<lambda>n c. 10 * n + (ord c - 48)) 0 s"

text \<open>\<open>str(uuid)\<close>: lowercase hexadecimal, grouped 8-4-4-4-12.\<close>

definition hex_digit :: "nat \<Rightarrow> char" where
  "hex_digit d = (if d < 10 then char_of (48 + d) else char_of (87 + d))"

fun hex_fixed :: "nat \<Rightarrow> nat \<Rightarrow> string" where
  "hex_fixed 0 n = []"
| "hex_fixed (Suc w) n = hex_fixed w (n div 16) @ [hex_digit (n mod 16)]"

definition uuid_str :: "uuid \<Rightarrow> string" where
  "uuid_str x = (let h = hex_fixed 32 (unat x) in
     py_join ''-'' [take 8 h, take 4 (drop 8 h), take 4 (drop 12 h), take 4 (drop 16 h), drop 20 h])"

text \<open>UTF-8, for the Latin-1 characters the model has.\<close>

definition utf8_char :: "char \<Rightarrow> string" where
  "utf8_char c = (if ord c < 128 then [c] else [char_of (192 + ord c div 64), char_of (128 + ord c mod 64)])"

definition utf8_encode :: "string \<Rightarrow> string" where
  "utf8_encode s = concat (map utf8_char s)"

text \<open>\<open>repr(s)\<close>: double quotes only around a string with single and without double quotes.\<close>

definition py_printable :: "char \<Rightarrow> bool" where
  "py_printable c \<longleftrightarrow> 32 \<le> ord c \<and> ord c \<le> 126 \<or> 161 \<le> ord c \<and> ord c \<noteq> 173"

definition repr_char :: "char \<Rightarrow> char \<Rightarrow> string" where
  "repr_char q c =
     (if c = q \<or> ord c = 92 then [char_of (92 :: nat), c]
      else if ord c = 9 then [char_of (92 :: nat), CHR ''t'']
      else if ord c = 10 then [char_of (92 :: nat), CHR ''n'']
      else if ord c = 13 then [char_of (92 :: nat), CHR ''r'']
      else if py_printable c then [c]
      else [char_of (92 :: nat), CHR ''x''] @ hex_fixed 2 (ord c))"

definition py_repr :: "string \<Rightarrow> string" where
  "py_repr s = (let single = char_of (39 :: nat); double = char_of (34 :: nat);
       q = (if single \<in> set s \<and> double \<notin> set s then double else single)
     in [q] @ concat (map (repr_char q) s) @ [q])"

section \<open>Facts\<close>

lemma py_contains_iff: "py_contains sub s \<longleftrightarrow> (\<exists>a b. s = a @ sub @ b)"
proof (induction s)
  case Nil
  then show ?case by auto
next
  case (Cons c s)
  show ?case
  proof
    assume "py_contains sub (c # s)"
    then consider "take (length sub) (c # s) = sub" | "py_contains sub s"
      by (auto simp: py_startswith_def)
    then show "\<exists>a b. c # s = a @ sub @ b"
    proof cases
      case 1
      then have "c # s = [] @ sub @ drop (length sub) (c # s)"
        by (metis append_Nil append_take_drop_id)
      then show ?thesis by blast
    next
      case 2
      with Cons.IH show ?thesis by (metis append_Cons)
    qed
  next
    assume "\<exists>a b. c # s = a @ sub @ b"
    then obtain a b where ab: "c # s = a @ sub @ b" by blast
    show "py_contains sub (c # s)"
    proof (cases a)
      case Nil
      with ab have "py_startswith (c # s) sub" by (simp add: py_startswith_def)
      then show ?thesis by simp
    next
      case (Cons d a')
      with ab have "s = a' @ sub @ b" by simp
      with Cons.IH show ?thesis by auto
    qed
  qed
qed

lemma py_split_not_Nil [simp]: "py_split sep s \<noteq> []"
  by (induction s) (auto split: list.split)

lemma py_join_split: "py_join [sep] (py_split sep s) = s"
proof (induction s)
  case Nil
  then show ?case by simp
next
  case (Cons c s)
  show ?case
  proof (cases "c = sep")
    case True
    then show ?thesis using Cons by (cases "py_split sep s") auto
  next
    case False
    then show ?thesis
      using Cons by (cases "py_split sep s" rule: list.exhaust [where ?'a = string])
        (auto, metis append_Cons list.exhaust py_join.simps(2,3))
  qed
qed

lemma py_split_plain: "sep \<notin> set w \<Longrightarrow> py_split sep w = [w]"
  by (induction w) auto

lemma py_split_append: "sep \<notin> set w \<Longrightarrow> py_split sep (w @ sep # s) = w # py_split sep s"
  by (induction w) auto

lemma py_split_join:
  assumes "ws \<noteq> []" "\<forall>w\<in>set ws. sep \<notin> set w"
  shows "py_split sep (py_join [sep] ws) = ws"
  using assms by (induction "[sep]" ws rule: py_join.induct) (simp_all add: py_split_plain py_split_append)

lemma py_split_parts: "w \<in> set (py_split sep s) \<Longrightarrow> sep \<notin> set w"
proof (induction s arbitrary: w)
  case (Cons c s)
  obtain x xs where x: "py_split sep s = x # xs" by (cases "py_split sep s") auto
  have "sep \<notin> set v" if "v \<in> set (x # xs)" for v using Cons.IH that x by simp
  with Cons.prems x show ?case by (auto split: if_splits)
qed simp

lemma py_partition_Some: "py_partition sep s = (a, Some v) \<longleftrightarrow> s = a @ sep # v \<and> sep \<notin> set a"
proof
  assume "py_partition sep s = (a, Some v)"
  then obtain c where d: "dropWhile (\<lambda>c. c \<noteq> sep) s = c # v" and a: "a = takeWhile (\<lambda>c. c \<noteq> sep) s"
    by (auto simp: py_partition_def split: list.splits)
  from d have "c = sep" by (metis (mono_tags, lifting) hd_dropWhile list.distinct(1) list.sel(1))
  with d a show "s = a @ sep # v \<and> sep \<notin> set a"
    by (metis (mono_tags, lifting) set_takeWhileD takeWhile_dropWhile_id)
next
  assume "s = a @ sep # v \<and> sep \<notin> set a"
  then have s: "s = a @ sep # v" and a: "sep \<notin> set a" by auto
  have "dropWhile (\<lambda>c. c \<noteq> sep) s = sep # v" "takeWhile (\<lambda>c. c \<noteq> sep) s = a"
    unfolding s using a by (induction a) auto
  then show "py_partition sep s = (a, Some v)" by (simp add: py_partition_def)
qed

lemma nat_digits_not_Nil [simp]: "nat_digits n \<noteq> []"
  by (subst nat_digits.simps) simp

text \<open>Decimal numerals can be read back.\<close>

lemma digits_value_snoc: "digits_value (s @ [c]) = 10 * digits_value s + (ord c - 48)"
  by (simp add: digits_value_def)

lemma digits_value_nat_digits [simp]: "digits_value (nat_digits n) = n"
proof (induction n rule: nat_digits.induct)
  case (1 n)
  show ?case
  proof (cases "n < 10")
    case True
    then show ?thesis by (simp add: nat_digits.simps [of n] digits_value_def)
  next
    case False
    then have "digits_value (nat_digits n) = 10 * (n div 10) + n mod 10"
      using 1 by (simp add: nat_digits.simps [of n] digits_value_snoc)
    then show ?thesis by simp
  qed
qed

lemma length_hex_fixed [simp]: "length (hex_fixed w n) = w"
  by (induction w arbitrary: n) simp_all

lemma hex_digit_class:
  assumes "d < 16"
  shows "in_class lower_digit (hex_digit d)"
proof -
  have "d \<in> {0, 1, 2, 3, 4, 5, 6, 7, 8, 9, 10, 11, 12, 13, 14, 15}" using assms by simp arith
  then show ?thesis
    by (auto simp: hex_digit_def in_class_def lower_digit_def)
qed

lemma hex_fixed_class: "list_all (in_class lower_digit) (hex_fixed w n)"
  by (induction w arbitrary: n) (simp_all add: hex_digit_class)

lemma length_uuid_str [simp]: "length (uuid_str x) = 36"
  by (simp add: uuid_str_def Let_def)

lemma list_all_take_drop:
  "list_all P s \<Longrightarrow> list_all P (take n s) \<and> list_all P (drop n s)"
  by (auto simp: list_all_iff dest: in_set_takeD in_set_dropD)

lemma uuid_str_class: "list_all (in_class alnum_key) (uuid_str x)"
proof -
  have sub: "in_class lower_digit c \<Longrightarrow> in_class alnum_key c" for c
    by (auto simp: in_class_def lower_digit_def alnum_key_def alnum_def)
  have h: "list_all (in_class alnum_key) (hex_fixed 32 (unat x))"
    using hex_fixed_class [of 32 "unat x"] sub by (auto simp: list_all_iff)
  have dash: "in_class alnum_key (CHR ''-'')" by (simp add: alnum_key_def in_class_def)
  show ?thesis
    using h dash by (simp add: uuid_str_def Let_def list_all_take_drop)
qed

lemma hex_digit_inj:
  assumes "a < 16" "b < 16" "hex_digit a = hex_digit b"
  shows "a = b"
proof -
  have "of_char (hex_digit a) = (of_char (hex_digit b) :: nat)" using assms(3) by simp
  then show ?thesis using assms(1,2) by (auto simp: hex_digit_def split: if_splits)
qed

lemma hex_fixed_inj: "a < 16 ^ w \<Longrightarrow> b < 16 ^ w \<Longrightarrow> hex_fixed w a = hex_fixed w b \<Longrightarrow> a = b"
proof (induction w arbitrary: a b)
  case (Suc w)
  have "a div 16 = b div 16" using Suc.prems by (intro Suc.IH) (auto simp: less_mult_imp_div_less)
  moreover have "a mod 16 = b mod 16" using Suc.prems(3) by (intro hex_digit_inj) auto
  ultimately show ?case by (metis div_mult_mod_eq)
qed simp

lemma uuid_str_chars: "c \<in> set (uuid_str x) \<Longrightarrow> in_class lower_digit c \<or> c = CHR ''-''"
proof -
  have h: "c \<in> set (hex_fixed 32 (unat x)) \<Longrightarrow> in_class lower_digit c" for c
    using hex_fixed_class [of 32 "unat x"] by (auto simp: list_all_iff)
  show "c \<in> set (uuid_str x) \<Longrightarrow> in_class lower_digit c \<or> c = CHR ''-''"
    by (auto simp: uuid_str_def Let_def dest!: in_set_takeD in_set_dropD h)
qed

lemma uuid_str_inj: "uuid_str x = uuid_str y \<longleftrightarrow> x = y"
proof
  assume e: "uuid_str x = uuid_str y"
  let ?h = "\<lambda>z :: uuid. hex_fixed 32 (unat z)"
  have parts: "h = take 8 h @ take 4 (drop 8 h) @ take 4 (drop 12 h) @ take 4 (drop 16 h) @ drop 20 h" for h :: string
  proof -
    have "drop 8 h = take 4 (drop 8 h) @ drop 12 h" "drop 12 h = take 4 (drop 12 h) @ drop 16 h" "drop 16 h = take 4 (drop 16 h) @ drop 20 h"
      using append_take_drop_id [of 4 "drop 8 h"] append_take_drop_id [of 4 "drop 12 h"] append_take_drop_id [of 4 "drop 16 h"] by simp_all
    then show ?thesis using append_take_drop_id [of 8 h] by metis
  qed
  have "take 8 (?h x) = take 8 (?h y) \<and> take 4 (drop 8 (?h x)) = take 4 (drop 8 (?h y)) \<and>
      take 4 (drop 12 (?h x)) = take 4 (drop 12 (?h y)) \<and> take 4 (drop 16 (?h x)) = take 4 (drop 16 (?h y)) \<and>
      drop 20 (?h x) = drop 20 (?h y)"
    using e by (simp add: uuid_str_def Let_def)
  then have "?h x = ?h y" using parts [of "?h x"] parts [of "?h y"] by argo
  then have "unat x = unat y"
    using unsigned_less [of x, where ?'a = nat] unsigned_less [of y, where ?'a = nat] by (intro hex_fixed_inj [of _ 32]) simp_all
  then show "x = y" using word_eq_iff_unsigned by blast
qed simp

end
