(* ===== verification/Json.thy ===== *)
theory Json
  imports Py_Strings
begin

text \<open>
  Measures of JSON-like values and the contract of a budgeted walk. \<open>core/errors.py\<close> and \<open>events.py\<close>
  both normalise a value by a recursion that bounds the nesting depth, decrements a shared budget at
  every value and validates every mapping key. The locale \<open>budgeted_walk\<close> states what such a recursion
  does in one step and derives, once, what its result satisfies; each module interprets it on its
  own functions.
\<close>

section \<open>Measures\<close>

fun json_nodes :: "pyval \<Rightarrow> nat" where
  "json_nodes (VList xs) = 1 + sum_list (map json_nodes xs)"
| "json_nodes (VTuple xs) = 1 + sum_list (map json_nodes xs)"
| "json_nodes (VDict kvs) = 1 + sum_list (map (\<lambda>(k, v). json_nodes v) kvs)"
| "json_nodes _ = 1"

text \<open>\<open>depth_le n v\<close>: the value nests at most \<open>n\<close> levels of values.\<close>

fun depth_le :: "int \<Rightarrow> pyval \<Rightarrow> bool" where
  "depth_le n (VList xs) = (1 \<le> n \<and> list_all (depth_le (n - 1)) xs)"
| "depth_le n (VTuple xs) = (1 \<le> n \<and> list_all (depth_le (n - 1)) xs)"
| "depth_le n (VDict kvs) = (1 \<le> n \<and> list_all (\<lambda>(k, v). depth_le (n - 1) v) kvs)"
| "depth_le n _ = (1 \<le> n)"

text \<open>\<open>keys_all P v\<close>: every mapping key at any level is a string that satisfies \<open>P\<close>.\<close>

fun keys_all :: "(string \<Rightarrow> bool) \<Rightarrow> pyval \<Rightarrow> bool" where
  "keys_all P (VList xs) = list_all (keys_all P) xs"
| "keys_all P (VTuple xs) = list_all (keys_all P) xs"
| "keys_all P (VDict kvs) =
     list_all (\<lambda>(k, v). (case k of VStr s \<Rightarrow> P s | _ \<Rightarrow> False) \<and> keys_all P v) kvs"
| "keys_all P _ = True"

text \<open>\<open>leaves_all P v\<close>: every value that is no container satisfies \<open>P\<close>.\<close>

fun leaves_all :: "(pyval \<Rightarrow> bool) \<Rightarrow> pyval \<Rightarrow> bool" where
  "leaves_all P (VList xs) = list_all (leaves_all P) xs"
| "leaves_all P (VTuple xs) = list_all (leaves_all P) xs"
| "leaves_all P (VDict kvs) = list_all (\<lambda>(k, v). leaves_all P v) kvs"
| "leaves_all P v = P v"

definition is_container :: "pyval \<Rightarrow> bool" where
  "is_container v = (case v of VList xs \<Rightarrow> True | VTuple xs \<Rightarrow> True | VDict kvs \<Rightarrow> True | _ \<Rightarrow> False)"

text \<open>A JSON-safe scalar whose strings have at most \<open>n\<close> characters.\<close>

definition json_scalar :: "nat \<Rightarrow> pyval \<Rightarrow> bool" where
  "json_scalar n v = (case v of
     VNone \<Rightarrow> True | VBool b \<Rightarrow> True | VInt i \<Rightarrow> True
   | VFloat f \<Rightarrow> (case f of Finite m e \<Rightarrow> True | _ \<Rightarrow> False)
   | VStr s \<Rightarrow> length s \<le> n | _ \<Rightarrow> False)"

text \<open>A value with every tuple turned into a list, as \<open>json.dumps\<close> sees it.\<close>

fun listify :: "pyval \<Rightarrow> pyval" where
  "listify (VList xs) = VList (map listify xs)"
| "listify (VTuple xs) = VList (map listify xs)"
| "listify (VDict kvs) = VDict (map (\<lambda>(k, v). (k, listify v)) kvs)"
| "listify v = v"

abbreviation str_items :: "(string \<times> pyval) list \<Rightarrow> (pyval \<times> pyval) list" where
  "str_items ys \<equiv> map (\<lambda>(k, y). (VStr k, y)) ys"

section \<open>The contract of a budgeted walk\<close>

locale budgeted_walk =
  fixes walk :: "pyval \<Rightarrow> int \<Rightarrow> int \<Rightarrow> 'e + (pyval \<times> int)"
    and walk_list :: "pyval list \<Rightarrow> int \<Rightarrow> int \<Rightarrow> 'e + (pyval list \<times> int)"
    and walk_items :: "(pyval \<times> pyval) list \<Rightarrow> int \<Rightarrow> int \<Rightarrow> 'e + ((string \<times> pyval) list \<times> int)"
    and key_ok :: "string \<Rightarrow> bool"
    and max_depth :: int
    and max_len :: nat
    and seq_of :: "pyval list \<Rightarrow> pyval"
  assumes seq_of_cases: "seq_of = VList \<or> seq_of = VTuple"
    and walk_scalar: "walk v d b = Inr (y, b') \<Longrightarrow> \<not> is_container v \<Longrightarrow>
      d \<le> max_depth \<and> b' = b - 1 \<and> 0 \<le> b' \<and> y = v \<and> json_scalar max_len v"
    and walk_seq: "walk v d b = Inr (y, b') \<Longrightarrow> v = VList xs \<or> v = VTuple xs \<Longrightarrow>
      d \<le> max_depth \<and> 1 \<le> b \<and> (\<exists>ys. walk_list xs (d + 1) (b - 1) = Inr (ys, b') \<and> y = seq_of ys)"
    and walk_dict: "walk (VDict kvs) d b = Inr (y, b') \<Longrightarrow>
      d \<le> max_depth \<and> 1 \<le> b \<and>
      (\<exists>ys. walk_items kvs (d + 1) (b - 1) = Inr (ys, b') \<and> y = VDict (str_items ys))"
    and walk_list_Nil: "walk_list [] d b = Inr ([], b)"
    and walk_list_Cons: "walk_list (x # xs) d b = Inr (ys, b') \<Longrightarrow>
      \<exists>y zs c. walk x d b = Inr (y, c) \<and> walk_list xs d c = Inr (zs, b') \<and> ys = y # zs"
    and walk_items_Nil: "walk_items [] d b = Inr ([], b)"
    and walk_items_Cons: "walk_items ((k, x) # kvs) d b = Inr (its, b') \<Longrightarrow>
      \<exists>s y zs c. k = VStr s \<and> key_ok s \<and> walk x d b = Inr (y, c) \<and>
        walk_items kvs d c = Inr (zs, b') \<and> its = (s, y) # zs"
begin

text \<open>What a successful walk from depth \<open>d\<close> says about its result.\<close>

definition walked :: "pyval \<Rightarrow> int \<Rightarrow> int \<Rightarrow> pyval \<Rightarrow> int \<Rightarrow> bool" where
  "walked v d b y b' \<longleftrightarrow>
     b' = b - int (json_nodes y) \<and> 0 \<le> b' \<and> depth_le (max_depth - d + 1) y \<and>
     keys_all key_ok y \<and> leaves_all (json_scalar max_len) y \<and> listify y = listify v"

lemma walk_list_walked:
  assumes "\<And>x d b y b'. x \<in> set xs \<Longrightarrow> walk x d b = Inr (y, b') \<Longrightarrow> walked x d b y b'"
    and "walk_list xs d b = Inr (ys, b')" and "0 \<le> b"
  shows "b' = b - int (sum_list (map json_nodes ys)) \<and> 0 \<le> b' \<and>
    list_all (depth_le (max_depth - d + 1)) ys \<and> list_all (keys_all key_ok) ys \<and>
    list_all (leaves_all (json_scalar max_len)) ys \<and> map listify ys = map listify xs"
  using assms
proof (induction xs arbitrary: b ys)
  case Nil
  then show ?case by (auto simp: walk_list_Nil)
next
  case (Cons x xs)
  from walk_list_Cons [OF Cons.prems(2)] obtain y zs c
    where y: "walk x d b = Inr (y, c)" and zs: "walk_list xs d c = Inr (zs, b')" and ys: "ys = y # zs"
    by blast
  have w: "walked x d b y c" using Cons.prems(1) y by simp
  then have "0 \<le> c" by (simp add: walked_def)
  have "\<And>x d b y b'. x \<in> set xs \<Longrightarrow> walk x d b = Inr (y, b') \<Longrightarrow> walked x d b y b'"
    by (rule Cons.prems(1)) simp_all
  from Cons.IH [OF this zs \<open>0 \<le> c\<close>] w show ?case
    by (auto simp: walked_def ys)
qed

lemma walk_items_walked:
  assumes "\<And>x d b y b'. x \<in> snd ` set kvs \<Longrightarrow> walk x d b = Inr (y, b') \<Longrightarrow> walked x d b y b'"
    and "walk_items kvs d b = Inr (ys, b')" and "0 \<le> b"
  shows "b' = b - int (sum_list (map (\<lambda>(k, v). json_nodes v) ys)) \<and> 0 \<le> b' \<and>
    list_all (\<lambda>(k, y). key_ok k \<and> depth_le (max_depth - d + 1) y \<and> keys_all key_ok y \<and>
      leaves_all (json_scalar max_len) y) ys \<and>
    map (\<lambda>(k, y). (VStr k, listify y)) ys = map (\<lambda>(k, y). (k, listify y)) kvs"
  using assms
proof (induction kvs arbitrary: b ys)
  case Nil
  then show ?case by (auto simp: walk_items_Nil)
next
  case (Cons kx kvs)
  obtain k x where kx: "kx = (k, x)" by (cases kx)
  from walk_items_Cons [OF Cons.prems(2) [unfolded kx]] obtain s y zs c
    where k: "k = VStr s" "key_ok s" and y: "walk x d b = Inr (y, c)"
      and zs: "walk_items kvs d c = Inr (zs, b')" and ys: "ys = (s, y) # zs"
    by blast
  have w: "walked x d b y c" using Cons.prems(1) [of x] y kx by simp
  then have "0 \<le> c" by (simp add: walked_def)
  have "\<And>x d b y b'. x \<in> snd ` set kvs \<Longrightarrow> walk x d b = Inr (y, b') \<Longrightarrow> walked x d b y b'"
    by (rule Cons.prems(1)) simp_all
  from Cons.IH [OF this zs \<open>0 \<le> c\<close>] w show ?case
    by (auto simp: walked_def ys kx k)
qed

lemma walk_walked: "walk v d b = Inr (y, b') \<Longrightarrow> walked v d b y b'"
proof (induction v arbitrary: d b y b')
  case (VList xs)
  from walk_seq [OF VList.prems] obtain ys where d: "d \<le> max_depth" "1 \<le> b"
    and ys: "walk_list xs (d + 1) (b - 1) = Inr (ys, b')" and y: "y = seq_of ys"
    by blast
  from walk_list_walked [OF VList.IH ys] d seq_of_cases show ?case
    by (auto simp: walked_def y)
next
  case (VTuple xs)
  from walk_seq [OF VTuple.prems] obtain ys where d: "d \<le> max_depth" "1 \<le> b"
    and ys: "walk_list xs (d + 1) (b - 1) = Inr (ys, b')" and y: "y = seq_of ys"
    by blast
  from walk_list_walked [OF VTuple.IH ys] d seq_of_cases show ?case
    by (auto simp: walked_def y)
next
  case (VDict kvs)
  from walk_dict [OF VDict.prems] obtain ys where d: "d \<le> max_depth" "1 \<le> b"
    and ys: "walk_items kvs (d + 1) (b - 1) = Inr (ys, b')" and y: "y = VDict (str_items ys)"
    by blast
  have IH: "\<And>x d b y b'. x \<in> snd ` set kvs \<Longrightarrow> walk x d b = Inr (y, b') \<Longrightarrow> walked x d b y b'"
    using VDict.IH(2) by (metis imageE snds.intros)
  have "0 \<le> b - 1" using d by simp
  from walk_items_walked [OF IH ys this] d show ?case
    by (simp add: walked_def y case_prod_unfold list_all_iff comp_def)
qed (auto simp: walked_def is_container_def dest!: walk_scalar)

end

end
