(* ===== verification/App_Errors.thy ===== *)
theory App_Errors
  imports Json
begin

text \<open>
  The error contracts: \<open>core/errors.py\<close> (the base class, its constructor and the normalisation of
  error details), \<open>users/errors.py\<close>, \<open>email/errors.py\<close> and \<open>api/health_errors.py\<close> (the subclasses).
  Every class of the hierarchy is a constructor of \<open>error_class\<close>; its class attributes are the
  functions \<open>status_code\<close>, \<open>code\<close> and \<open>message\<close>, its direct superclass is \<open>superclass\<close>. \<open>exn\<close> is the
  type of the exceptions the program raises or lets through.
\<close>

section \<open>Error classes\<close>

datatype error_class =
    ApplicationError | NotFoundError | ConflictError | ForbiddenError | AuthenticationError
  | ValidationError | RateLimitError | DependencyUnavailableError
  | InvalidEmailError | AuthenticationRequiredError | InvalidPasswordLengthError
  | InvalidChallengeError | EmailVerificationUnavailableError | CommonPasswordError
  | BreachedPasswordError | InvalidPasswordEncodingError | PasswordCheckUnavailableError
  | UntrustedOriginError | InvalidCredentialsError | IdentityRateLimitExceededError
  | ProfileRateLimitExceededError | IdentityUnavailableError | AuthenticationRequestTooLargeError
  | PermissionDeniedError | ReauthenticationRequiredError | UserNotFoundError
  | UnverifiedAdminError | LastActiveAdminError | BootstrapConflictError | BootstrapCompleteError
  | AddressNotFoundError | AddressLimitReachedError | InvalidAuditFiltersError
  | ExternalLoginFailedError | FinalLoginMethodError | ProviderAlreadyLinkedError
  | EmailDeliveryError | ServiceNotReadyError

text \<open>
  Exceptions: Python's own, those of the decimal module, of SQLAlchemy (integrity violations), of
  redis-py and of the cache, an arbitrary exception of an event handler, and the application's own
  with their normalised details.
\<close>

datatype exn =
    TypeError string
  | ValueError string
  | RuntimeError string
  | KeyError string
  | IntegrityError string
  | InvalidOperation
  | RedisError
  | TimeoutError
  | UnicodeError
  | HandlerError
  | FileNotFoundError string
  | InvalidRequestError string
  | CacheUnavailableError string
  | CacheDecodeError string
  | App error_class "(string \<times> pyval) list"

abbreviation app_error :: "error_class \<Rightarrow> exn" where
  "app_error c \<equiv> App c []"

primrec superclass :: "error_class \<Rightarrow> error_class" where
  "superclass ApplicationError = ApplicationError"
| "superclass NotFoundError = ApplicationError"
| "superclass ConflictError = ApplicationError"
| "superclass ForbiddenError = ApplicationError"
| "superclass AuthenticationError = ApplicationError"
| "superclass ValidationError = ApplicationError"
| "superclass RateLimitError = ApplicationError"
| "superclass DependencyUnavailableError = ApplicationError"
| "superclass InvalidEmailError = ValidationError"
| "superclass AuthenticationRequiredError = AuthenticationError"
| "superclass InvalidPasswordLengthError = ValidationError"
| "superclass InvalidChallengeError = AuthenticationError"
| "superclass EmailVerificationUnavailableError = DependencyUnavailableError"
| "superclass CommonPasswordError = ValidationError"
| "superclass BreachedPasswordError = ValidationError"
| "superclass InvalidPasswordEncodingError = ValidationError"
| "superclass PasswordCheckUnavailableError = DependencyUnavailableError"
| "superclass UntrustedOriginError = ForbiddenError"
| "superclass InvalidCredentialsError = AuthenticationError"
| "superclass IdentityRateLimitExceededError = RateLimitError"
| "superclass ProfileRateLimitExceededError = RateLimitError"
| "superclass IdentityUnavailableError = DependencyUnavailableError"
| "superclass AuthenticationRequestTooLargeError = ValidationError"
| "superclass PermissionDeniedError = ForbiddenError"
| "superclass ReauthenticationRequiredError = AuthenticationError"
| "superclass UserNotFoundError = NotFoundError"
| "superclass UnverifiedAdminError = ConflictError"
| "superclass LastActiveAdminError = ConflictError"
| "superclass BootstrapConflictError = ConflictError"
| "superclass BootstrapCompleteError = ConflictError"
| "superclass AddressNotFoundError = NotFoundError"
| "superclass AddressLimitReachedError = ConflictError"
| "superclass InvalidAuditFiltersError = ValidationError"
| "superclass ExternalLoginFailedError = AuthenticationError"
| "superclass FinalLoginMethodError = ConflictError"
| "superclass ProviderAlreadyLinkedError = ConflictError"
| "superclass EmailDeliveryError = DependencyUnavailableError"
| "superclass ServiceNotReadyError = DependencyUnavailableError"

primrec status_code :: "error_class \<Rightarrow> int" where
  "status_code ApplicationError = 400"
| "status_code NotFoundError = 404"
| "status_code ConflictError = 409"
| "status_code ForbiddenError = 403"
| "status_code AuthenticationError = 401"
| "status_code ValidationError = 422"
| "status_code RateLimitError = 429"
| "status_code DependencyUnavailableError = 503"
| "status_code InvalidEmailError = 422"
| "status_code AuthenticationRequiredError = 401"
| "status_code InvalidPasswordLengthError = 422"
| "status_code InvalidChallengeError = 401"
| "status_code EmailVerificationUnavailableError = 503"
| "status_code CommonPasswordError = 422"
| "status_code BreachedPasswordError = 422"
| "status_code InvalidPasswordEncodingError = 422"
| "status_code PasswordCheckUnavailableError = 503"
| "status_code UntrustedOriginError = 403"
| "status_code InvalidCredentialsError = 401"
| "status_code IdentityRateLimitExceededError = 429"
| "status_code ProfileRateLimitExceededError = 429"
| "status_code IdentityUnavailableError = 503"
| "status_code AuthenticationRequestTooLargeError = 422"
| "status_code PermissionDeniedError = 403"
| "status_code ReauthenticationRequiredError = 401"
| "status_code UserNotFoundError = 404"
| "status_code UnverifiedAdminError = 409"
| "status_code LastActiveAdminError = 409"
| "status_code BootstrapConflictError = 409"
| "status_code BootstrapCompleteError = 409"
| "status_code AddressNotFoundError = 404"
| "status_code AddressLimitReachedError = 409"
| "status_code InvalidAuditFiltersError = 422"
| "status_code ExternalLoginFailedError = 401"
| "status_code FinalLoginMethodError = 409"
| "status_code ProviderAlreadyLinkedError = 409"
| "status_code EmailDeliveryError = 503"
| "status_code ServiceNotReadyError = 503"

primrec code :: "error_class \<Rightarrow> string" where
  "code ApplicationError = ''application_error''"
| "code NotFoundError = ''not_found''"
| "code ConflictError = ''conflict''"
| "code ForbiddenError = ''permission_denied''"
| "code AuthenticationError = ''authentication_required''"
| "code ValidationError = ''validation_failed''"
| "code RateLimitError = ''rate_limit_exceeded''"
| "code DependencyUnavailableError = ''dependency_unavailable''"
| "code InvalidEmailError = ''invalid_email''"
| "code AuthenticationRequiredError = ''authentication_required''"
| "code InvalidPasswordLengthError = ''invalid_password''"
| "code InvalidChallengeError = ''invalid_challenge''"
| "code EmailVerificationUnavailableError = ''email_unavailable''"
| "code CommonPasswordError = ''unsafe_password''"
| "code BreachedPasswordError = ''unsafe_password''"
| "code InvalidPasswordEncodingError = ''invalid_password''"
| "code PasswordCheckUnavailableError = ''password_check_unavailable''"
| "code UntrustedOriginError = ''untrusted_origin''"
| "code InvalidCredentialsError = ''invalid_credentials''"
| "code IdentityRateLimitExceededError = ''rate_limit_exceeded''"
| "code ProfileRateLimitExceededError = ''profile_rate_limit_exceeded''"
| "code IdentityUnavailableError = ''identity_unavailable''"
| "code AuthenticationRequestTooLargeError = ''request_too_large''"
| "code PermissionDeniedError = ''permission_denied''"
| "code ReauthenticationRequiredError = ''reauthentication_required''"
| "code UserNotFoundError = ''user_not_found''"
| "code UnverifiedAdminError = ''unverified_admin''"
| "code LastActiveAdminError = ''last_active_admin''"
| "code BootstrapConflictError = ''bootstrap_conflict''"
| "code BootstrapCompleteError = ''bootstrap_complete''"
| "code AddressNotFoundError = ''address_not_found''"
| "code AddressLimitReachedError = ''address_limit''"
| "code InvalidAuditFiltersError = ''invalid_audit_filters''"
| "code ExternalLoginFailedError = ''external_login_failed''"
| "code FinalLoginMethodError = ''final_login_method''"
| "code ProviderAlreadyLinkedError = ''provider_already_linked''"
| "code EmailDeliveryError = ''email_delivery_failed''"
| "code ServiceNotReadyError = ''service_not_ready''"

primrec message :: "error_class \<Rightarrow> string" where
  "message ApplicationError = ''The request could not be processed.''"
| "message NotFoundError = ''The requested resource was not found.''"
| "message ConflictError = ''The request conflicts with the current state.''"
| "message ForbiddenError = ''This operation is not permitted.''"
| "message AuthenticationError = ''Authentication is required.''"
| "message ValidationError = ''The request is invalid.''"
| "message RateLimitError = ''Too many attempts. Please try again later.''"
| "message DependencyUnavailableError = ''A required service is temporarily unavailable.''"
| "message InvalidEmailError = ''Enter a valid email address.''"
| "message AuthenticationRequiredError = ''Authentication is required.''"
| "message InvalidPasswordLengthError = ''Use a password of 15 to 128 characters.''"
| "message InvalidChallengeError = ''Verification could not be completed.''"
| "message EmailVerificationUnavailableError = ''Email verification is unavailable.''"
| "message CommonPasswordError = ''Choose a less common password or a longer unique passphrase.''"
| "message BreachedPasswordError =
     ''Choose a password that has not appeared in known data breaches.''"
| "message InvalidPasswordEncodingError = ''Use valid Unicode characters.''"
| "message PasswordCheckUnavailableError =
     ''Password safety checking is temporarily unavailable. Please try again.''"
| "message UntrustedOriginError = ''This request origin is not allowed.''"
| "message InvalidCredentialsError = ''Sign-in could not be completed.''"
| "message IdentityRateLimitExceededError = ''Too many attempts. Please try again later.''"
| "message ProfileRateLimitExceededError =
     ''Too many profile changes. Please try again later.''"
| "message IdentityUnavailableError = ''Authentication is temporarily unavailable.''"
| "message AuthenticationRequestTooLargeError = ''Authentication request is too large.''"
| "message PermissionDeniedError = ''This operation is not permitted.''"
| "message ReauthenticationRequiredError = ''Please authenticate again.''"
| "message UserNotFoundError = ''User not found.''"
| "message UnverifiedAdminError = ''Verify this account before assigning administration.''"
| "message LastActiveAdminError = ''The final active administrator must remain.''"
| "message BootstrapConflictError = ''Use the authenticated administration workflow.''"
| "message BootstrapCompleteError = ''Initial administration already exists.''"
| "message AddressNotFoundError = ''Address not found.''"
| "message AddressLimitReachedError = ''The saved address limit has been reached.''"
| "message InvalidAuditFiltersError = ''Audit filters are invalid.''"
| "message ExternalLoginFailedError = ''External sign-in could not be completed.''"
| "message FinalLoginMethodError = ''The final login method cannot be removed.''"
| "message ProviderAlreadyLinkedError = ''This provider is already linked.''"
| "message EmailDeliveryError = ''Email delivery is temporary unavailable.''"
| "message ServiceNotReadyError = ''Service is not ready''"

section \<open>Error details\<close>

definition unsafe_detail_key_parts :: "string list" where
  "unsafe_detail_key_parts =
     [''authorization'', ''body'', ''connection'', ''cookie'', ''credential'', ''password'',
      ''payload'', ''raw'', ''secret'', ''token'']"

definition max_detail_depth :: int where "max_detail_depth = 6"
definition max_detail_items :: int where "max_detail_items = 100"
definition max_detail_string_length :: nat where "max_detail_string_length = 1000"

definition sensitive_detail_key :: "case_map \<Rightarrow> string \<Rightarrow> bool" where
  "sensitive_detail_key u k =
     (let normalized = py_replace (CHR ''-'') (CHR ''_'') (py_casefold u k)
      in list_ex (\<lambda>part. py_contains part normalized) unsafe_detail_key_parts)"

definition validate_detail_key :: "case_map \<Rightarrow> pyval \<Rightarrow> exn + string" where
  "validate_detail_key u key = (case key of
     VStr k \<Rightarrow> (if sensitive_detail_key u k
                then Inl (ValueError ''error details contain a sensitive key'') else Inr k)
   | _ \<Rightarrow> Inl (TypeError ''error detail keys must be strings''))"

text \<open>
  The value budget is a one-element list that every call of the recursion decrements: the model
  threads it through, in the order in which Python evaluates the comprehensions.
\<close>

fun normalize_json_value :: "case_map \<Rightarrow> pyval \<Rightarrow> int \<Rightarrow> int \<Rightarrow> exn + (pyval \<times> int)"
  and normalize_json_list :: "case_map \<Rightarrow> pyval list \<Rightarrow> int \<Rightarrow> int \<Rightarrow> exn + (pyval list \<times> int)"
  and normalize_json_items ::
    "case_map \<Rightarrow> (pyval \<times> pyval) list \<Rightarrow> int \<Rightarrow> int \<Rightarrow> exn + ((string \<times> pyval) list \<times> int)"
where
  "normalize_json_value u v depth budget0 =
     (if max_detail_depth < depth
      then Inl (ValueError ''error details exceed the maximum nesting depth'')
      else let budget = budget0 - 1 in
      if budget < 0 then Inl (ValueError ''error details contain too many values'')
      else (case v of
        VNone \<Rightarrow> Inr (v, budget)
      | VBool b \<Rightarrow> Inr (v, budget)
      | VInt n \<Rightarrow> Inr (v, budget)
      | VFloat f \<Rightarrow> (case f of
            Finite m e \<Rightarrow> Inr (v, budget)
          | _ \<Rightarrow> Inl (ValueError ''error details must contain finite numbers''))
      | VStr s \<Rightarrow> (if max_detail_string_length < length s
            then Inl (ValueError ''error detail strings must not exceed 1000 characters'')
            else Inr (v, budget))
      | VList xs \<Rightarrow> bind_r (normalize_json_list u xs (depth + 1) budget)
            (\<lambda>(ys, b). Inr (VList ys, b))
      | VTuple xs \<Rightarrow> bind_r (normalize_json_list u xs (depth + 1) budget)
            (\<lambda>(ys, b). Inr (VList ys, b))
      | VDict kvs \<Rightarrow> bind_r (normalize_json_items u kvs (depth + 1) budget)
            (\<lambda>(ys, b). Inr (VDict (map (\<lambda>(k, y). (VStr k, y)) ys), b))
      | VUuid x \<Rightarrow> Inl (TypeError ''error details must contain only JSON-safe values'')
      | VDatetime t \<Rightarrow> Inl (TypeError ''error details must contain only JSON-safe values'')
      | VTimedelta d \<Rightarrow> Inl (TypeError ''error details must contain only JSON-safe values'')
      | VOther \<Rightarrow> Inl (TypeError ''error details must contain only JSON-safe values'')))"
| "normalize_json_list u [] depth budget = Inr ([], budget)"
| "normalize_json_list u (x # xs) depth budget =
     bind_r (normalize_json_value u x depth budget) (\<lambda>(y, b).
     bind_r (normalize_json_list u xs depth b) (\<lambda>(ys, b'). Inr (y # ys, b')))"
| "normalize_json_items u [] depth budget = Inr ([], budget)"
| "normalize_json_items u ((k, x) # kvs) depth budget =
     bind_r (validate_detail_key u k) (\<lambda>k'.
     bind_r (normalize_json_value u x depth budget) (\<lambda>(y, b).
     bind_r (normalize_json_items u kvs depth b) (\<lambda>(ys, b'). Inr ((k', y) # ys, b'))))"

definition normalize_details :: "case_map \<Rightarrow> (pyval \<times> pyval) list \<Rightarrow> exn + (string \<times> pyval) list" where
  "normalize_details u details =
     bind_r (normalize_json_items u details 1 max_detail_items) (\<lambda>(ys, b). Inr ys)"

text \<open>
  \<open>ApplicationError.__init__\<close> over the class attributes \<open>status\<close>, \<open>cd\<close>, \<open>msg\<close> and the argument
  \<open>details\<close>; the result is the attribute \<open>details\<close> of the new exception.
\<close>

definition application_error_init ::
  "case_map \<Rightarrow> pyval \<Rightarrow> pyval \<Rightarrow> pyval \<Rightarrow> pyval \<Rightarrow> exn + (string \<times> pyval) list" where
  "application_error_init u status cd msg details =
     bind_r (case status of VInt n \<Rightarrow> Inr n
             | _ \<Rightarrow> Inl (TypeError ''error status_code must be an integer'')) (\<lambda>n.
     bind_r (require (400 \<le> n \<and> n \<le> 599)
             (ValueError ''error status_code must be between 400 and 599'')) (\<lambda>_.
     bind_r (require (case cd of VStr s \<Rightarrow> fullmatch snake_re s | _ \<Rightarrow> False)
             (ValueError ''error code must use lowercase snake case'')) (\<lambda>_.
     bind_r (case msg of VStr s \<Rightarrow> Inr s
             | _ \<Rightarrow> Inl (TypeError ''error message must be a string'')) (\<lambda>m.
     bind_r (require (m \<noteq> [] \<and> length m \<le> 500
               \<and> \<not> list_ex (\<lambda>c. c \<in> set m) [CHR 0x0D, CHR 0x0A, CHR 0x00])
             (ValueError ''error message must be a single safe line of at most 500 characters'')) (\<lambda>_.
     (case details of
        VNone \<Rightarrow> normalize_details u []
      | VDict kvs \<Rightarrow> normalize_details u kvs
      | _ \<Rightarrow> Inl (TypeError ''error details must be a dictionary'')))))))"

text \<open>Constructing an exception of a class that inherits the base constructor.\<close>

definition make_error :: "case_map \<Rightarrow> error_class \<Rightarrow> pyval \<Rightarrow> exn + exn" where
  "make_error u c details =
     bind_r (application_error_init u (VInt (status_code c)) (VStr (code c)) (VStr (message c)) details)
       (\<lambda>d. Inr (App c d))"

text \<open>The constructors of the two rate-limit errors.\<close>

definition make_rate_limit_error :: "case_map \<Rightarrow> error_class \<Rightarrow> pyval \<Rightarrow> exn + exn" where
  "make_rate_limit_error u c retry_after = (case retry_after of
     VInt n \<Rightarrow> (if n < 1 then Inl (ValueError ''retry_after must be positive'')
                else make_error u c (VDict [(VStr ''retry_after'', VInt n)]))
   | _ \<Rightarrow> Inl (TypeError ''retry_after must be an integer''))"

text \<open>\<open>ServiceNotReadyError.__init__\<close>: the keys and values of the readiness checks.\<close>

definition make_not_ready_error :: "case_map \<Rightarrow> (string \<times> string) list \<Rightarrow> exn + exn" where
  "make_not_ready_error u checks =
     bind_r (require (set (map fst checks) = {''postgresql'', ''redis''}
               \<and> list_all (\<lambda>r. r \<in> {''ok'', ''failed''}) (map snd checks))
             (ValueError ''readiness checks require only known dependency outcomes'')) (\<lambda>_.
     bind_r (require (''failed'' \<in> set (map snd checks))
             (ValueError ''a readiness error requires a failed dependency'')) (\<lambda>_.
     make_error u ServiceNotReadyError
       (VDict [(VStr ''checks'', VDict (map (\<lambda>(k, r). (VStr k, VStr r)) checks))])))"

text \<open>\<open>isinstance(error, cls)\<close> along the class hierarchy (at most three levels deep).\<close>

definition instance_of :: "error_class \<Rightarrow> error_class \<Rightarrow> bool" where
  "instance_of c d \<longleftrightarrow> d \<in> {c, superclass c, superclass (superclass c)}"

section \<open>Facts\<close>

interpretation detail_walk: budgeted_walk "normalize_json_value u" "normalize_json_list u"
  "normalize_json_items u" "\<lambda>k. \<not> sensitive_detail_key u k" max_detail_depth
  max_detail_string_length VList for u
proof (unfold_locales, goal_cases)
  case (2 v d b y b')
  then show ?case
    by (cases v) (auto simp: Let_def is_container_def json_scalar_def split: if_splits pyfloat.splits)
next
  case (3 v d b y b' xs)
  then show ?case by (auto simp: Let_def result_simps split: if_splits)
next
  case (4 kvs d b y b')
  then show ?case by (auto simp: Let_def result_simps split: if_splits)
next
  case (6 x xs d b ys b')
  then show ?case by (auto simp: result_simps simp del: normalize_json_value.simps)
next
  case (8 k x kvs d b its b')
  then show ?case
    by (auto simp: result_simps validate_detail_key_def simp del: normalize_json_value.simps
        split: pyval.splits if_splits)
qed simp_all

lemma code_snake: "fullmatch snake_re (code c)"
  by (induct c; simp add: regex_eval)

lemma message_safe:
  "message c \<noteq> [] \<and> length (message c) \<le> 500 \<and>
   CHR 0x0D \<notin> set (message c) \<and> CHR 0x0A \<notin> set (message c) \<and>
   CHR 0x00 \<notin> set (message c)"
  by (induct c; simp)

lemma status_code_range: "400 \<le> status_code c \<and> status_code c \<le> 599"
  by (cases c) simp_all

lemma make_error_eq:
  "make_error u c (VDict kvs) = bind_r (normalize_details u kvs) (\<lambda>d. Inr (App c d))"
  by (simp add: make_error_def application_error_init_def code_snake message_safe status_code_range)

section \<open>Properties\<close>



end
