(* ===== verification/Core_Types.thy ===== *)
theory Core_Types
  imports App_Errors
begin

text \<open>
  \<open>core/types.py\<close>: money, pagination and UTC timestamps. A \<open>Decimal\<close> is its sign, coefficient and
  exponent, or a special value; arithmetic follows Python's default decimal context (28 significant
  digits, round half even). \<open>Decimal(text)\<close> is the argument \<open>parse\<close>.
\<close>

section \<open>Decimal arithmetic\<close>

datatype decimal = Dec bool nat int | DecInf bool | QNaN | SNaN

definition context_prec :: nat where "context_prec = 28"

fun num_digits :: "nat \<Rightarrow> nat" where
  "num_digits n = (if n < 10 then 1 else Suc (num_digits (n div 10)))"

declare num_digits.simps [simp del]

text \<open>\<open>c / d\<close> rounded to the nearest integer, ties to the even one.\<close>

definition div_half_even :: "nat \<Rightarrow> nat \<Rightarrow> nat" where
  "div_half_even c d =
     (let q = c div d; r = c mod d
      in if 2 * r < d then q else if d < 2 * r then q + 1 else if even q then q else q + 1)"

text \<open>\<open>Decimal.quantize\<close> to exponent \<open>e\<close> with \<open>ROUND_HALF_EVEN\<close>; a quiet NaN is returned unchanged.\<close>

definition dec_quantize :: "decimal \<Rightarrow> int \<Rightarrow> exn + decimal" where
  "dec_quantize x e = (case x of
     Dec s c k \<Rightarrow>
       (let c' = (if e \<le> k then c * 10 ^ nat (k - e) else div_half_even c (10 ^ nat (e - k)))
        in if context_prec < num_digits c' then Inl InvalidOperation else Inr (Dec s c' e))
   | DecInf s \<Rightarrow> Inl InvalidOperation
   | QNaN \<Rightarrow> Inr QNaN
   | SNaN \<Rightarrow> Inl InvalidOperation)"

text \<open>Rounding of an exact result to the context precision.\<close>

definition dec_fix :: "bool \<Rightarrow> nat \<Rightarrow> int \<Rightarrow> decimal" where
  "dec_fix s c k =
     (if num_digits c \<le> context_prec then Dec s c k
      else let d = num_digits c - context_prec; c' = div_half_even c (10 ^ d)
           in if num_digits c' \<le> context_prec then Dec s c' (k + int d)
              else Dec s (c' div 10) (k + int d + 1))"

definition signed :: "bool \<Rightarrow> nat \<Rightarrow> int" where
  "signed s c = (if s then - int c else int c)"

text \<open>\<open>Decimal.__add__\<close> and \<open>Decimal.__sub__\<close>; the sum of opposite values is a positive zero.\<close>

definition dec_negate :: "decimal \<Rightarrow> decimal" where
  "dec_negate x = (case x of Dec s c k \<Rightarrow> Dec (\<not> s) c k | DecInf s \<Rightarrow> DecInf (\<not> s)
     | QNaN \<Rightarrow> QNaN | SNaN \<Rightarrow> SNaN)"

definition dec_add :: "decimal \<Rightarrow> decimal \<Rightarrow> exn + decimal" where
  "dec_add x y = (case (x, y) of
     (SNaN, _) \<Rightarrow> Inl InvalidOperation
   | (_, SNaN) \<Rightarrow> Inl InvalidOperation
   | (QNaN, _) \<Rightarrow> Inr QNaN
   | (_, QNaN) \<Rightarrow> Inr QNaN
   | (DecInf s, DecInf t) \<Rightarrow> if s = t then Inr (DecInf s) else Inl InvalidOperation
   | (DecInf s, _) \<Rightarrow> Inr (DecInf s)
   | (_, DecInf t) \<Rightarrow> Inr (DecInf t)
   | (Dec s c k, Dec t d l) \<Rightarrow>
       (let m = min k l;
            v = signed s (c * 10 ^ nat (k - m)) + signed t (d * 10 ^ nat (l - m))
        in Inr (dec_fix (if v = 0 then s \<and> t else v < 0) (nat \<bar>v\<bar>) m)))"

definition dec_sub :: "decimal \<Rightarrow> decimal \<Rightarrow> exn + decimal" where
  "dec_sub x y = dec_add x (dec_negate y)"

section \<open>Money\<close>

datatype money_input = InDecimal decimal | InStr string | InBool bool | InFloat pyfloat | InInt int

record money =
  amount :: decimal
  currency :: string

definition default_currency :: string where "default_currency = ''NGN''"
definition currency_code_length :: nat where "currency_code_length = 3"
definition money_precision :: nat where "money_precision = 19"
definition money_scale :: nat where "money_scale = 4"

definition ascii_alpha :: "char \<Rightarrow> bool" where
  "ascii_alpha c \<longleftrightarrow> 65 \<le> ord c \<and> ord c \<le> 90 \<or> 97 \<le> ord c \<and> ord c \<le> 122"

definition normalize_currency :: "case_map \<Rightarrow> string \<Rightarrow> exn + string" where
  "normalize_currency u v =
     (let cur = py_upper u (py_strip v)
      in if length cur \<noteq> currency_code_length \<or> \<not> list_all is_ascii cur \<or> \<not> list_all ascii_alpha cur
         then Inl (ValueError ''currency must be a three-letter ASCII code'')
         else Inr cur)"

definition quantize_money :: "(string \<Rightarrow> decimal option) \<Rightarrow> money_input \<Rightarrow> exn + decimal" where
  "quantize_money parse v = (case v of
     InBool b \<Rightarrow> Inl (TypeError ''boolean values are not valid monetary amounts'')
   | InFloat f \<Rightarrow> Inl (TypeError ''floating-point values are not valid monetary amounts'')
   | InInt n \<Rightarrow> Inl (TypeError ''integer values are not valid monetary amounts'')
   | InDecimal d \<Rightarrow> dec_quantize d (-4)
   | InStr s \<Rightarrow> (case parse s of
       None \<Rightarrow> Inl (ValueError ''money must be a valid decimal value'')
     | Some d \<Rightarrow> dec_quantize d (-4)))"

text \<open>The constructor \<open>Money(amount=..., currency=...)\<close> with its \<open>__post_init__\<close>.\<close>

definition mk_money :: "case_map \<Rightarrow> (string \<Rightarrow> decimal option) \<Rightarrow> money_input \<Rightarrow> string \<Rightarrow> exn + money" where
  "mk_money u parse a cur =
     bind_r (quantize_money parse a) (\<lambda>q.
     bind_r (normalize_currency u cur) (\<lambda>c. Inr \<lparr>amount = q, currency = c\<rparr>))"

definition money_from_value ::
  "case_map \<Rightarrow> (string \<Rightarrow> decimal option) \<Rightarrow> money_input \<Rightarrow> string \<Rightarrow> exn + money" where
  "money_from_value u parse a cur =
     bind_r (quantize_money parse a) (\<lambda>q. mk_money u parse (InDecimal q) cur)"

definition require_same_currency :: "money \<Rightarrow> money \<Rightarrow> exn + unit" where
  "require_same_currency x y = require (currency x = currency y)
     (ValueError (''currency mismatch: '' @ currency x @ '' != '' @ currency y))"

definition money_add :: "case_map \<Rightarrow> (string \<Rightarrow> decimal option) \<Rightarrow> money \<Rightarrow> money \<Rightarrow> exn + money" where
  "money_add u parse x y =
     bind_r (require_same_currency x y) (\<lambda>_.
     bind_r (dec_add (amount x) (amount y)) (\<lambda>a. mk_money u parse (InDecimal a) (currency x)))"

definition money_sub :: "case_map \<Rightarrow> (string \<Rightarrow> decimal option) \<Rightarrow> money \<Rightarrow> money \<Rightarrow> exn + money" where
  "money_sub u parse x y =
     bind_r (require_same_currency x y) (\<lambda>_.
     bind_r (dec_sub (amount x) (amount y)) (\<lambda>a. mk_money u parse (InDecimal a) (currency x)))"

section \<open>Pagination\<close>

record page_request =
  pr_page :: int
  pr_page_size :: int

record 'a page =
  pg_items :: "'a list"
  pg_total_items :: int
  pg_page :: int
  pg_page_size :: int

definition require_integer :: "string \<Rightarrow> pyval \<Rightarrow> exn + int" where
  "require_integer name v = (case v of VInt n \<Rightarrow> Inr n
     | _ \<Rightarrow> Inl (TypeError (name @ '' must be an integer'')))"

text \<open>\<open>PageRequest(page, page_size)\<close>.\<close>

definition mk_page_request :: "pyval \<Rightarrow> pyval \<Rightarrow> exn + page_request" where
  "mk_page_request p s =
     bind_r (require_integer ''page'' p) (\<lambda>pn.
     bind_r (require_integer ''page_size'' s) (\<lambda>sn.
     if pn < 1 then Inl (ValueError ''page must be at least 1'')
     else if \<not> (1 \<le> sn \<and> sn \<le> 100) then Inl (ValueError ''page_size must be between 1 and 100'')
     else Inr \<lparr>pr_page = pn, pr_page_size = sn\<rparr>))"

definition offset :: "page_request \<Rightarrow> int" where
  "offset r = (pr_page r - 1) * pr_page_size r"

text \<open>\<open>Page(items, total_items, page, page_size)\<close>.\<close>

definition mk_page :: "'a list \<Rightarrow> pyval \<Rightarrow> pyval \<Rightarrow> pyval \<Rightarrow> exn + 'a page" where
  "mk_page items tot p s =
     bind_r (mk_page_request p s) (\<lambda>request.
     bind_r (require_integer ''total_items'' tot) (\<lambda>n.
     if n < 0 then Inl (ValueError ''total_items must be non-negative'')
     else if pr_page_size request < int (length items)
       then Inl (ValueError ''items cannot exceed page_size'')
     else if n < int (length items) then Inl (ValueError ''items cannot exceed total_items'')
     else Inr \<lparr>pg_items = items, pg_total_items = n, pg_page = pr_page request,
               pg_page_size = pr_page_size request\<rparr>))"

definition total_pages :: "'a page \<Rightarrow> int" where
  "total_pages g = (pg_total_items g + pg_page_size g - 1) div pg_page_size g"

definition has_previous :: "'a page \<Rightarrow> bool" where
  "has_previous g \<longleftrightarrow> 1 < pg_page g"

definition has_next :: "'a page \<Rightarrow> bool" where
  "has_next g \<longleftrightarrow> pg_page g < total_pages g"

text \<open>
  The query every paged listing runs: count the rows, then
  \<open>SELECT ... ORDER BY ... LIMIT page_size OFFSET offset\<close> over them, wrapped in a \<open>Page\<close>.
\<close>

definition limit_offset :: "'r list \<Rightarrow> page_request \<Rightarrow> 'r list" where
  "limit_offset rows r = take (nat (pr_page_size r)) (drop (nat (offset r)) rows)"

definition paginate :: "'r list \<Rightarrow> page_request \<Rightarrow> exn + 'r page" where
  "paginate rows r =
     mk_page (limit_offset rows r) (VInt (int (length rows))) (VInt (pr_page r)) (VInt (pr_page_size r))"

section \<open>Identifiers and timestamps\<close>

definition serialize_entity_id :: "pyval \<Rightarrow> exn + string" where
  "serialize_entity_id v = (case v of VUuid x \<Rightarrow> Inr (uuid_str x)
     | _ \<Rightarrow> Inl (TypeError ''entity identifier must be a UUID''))"

text \<open>\<open>require_utc\<close> returns the same instant with offset zero: the model returns the instant.\<close>

definition require_utc :: "pyval \<Rightarrow> exn + instant" where
  "require_utc v = (case v of
     VDatetime (Aware t off) \<Rightarrow> Inr t
   | VDatetime (Naive t) \<Rightarrow> Inl (ValueError ''datetime must be timezone-aware'')
   | _ \<Rightarrow> Inl (TypeError ''value must be a datetime''))"

text \<open>
  \<open>require_utc(value or utc_now())\<close> for an optional datetime argument, at the current time
  \<open>clock\<close>; a \<open>datetime\<close> is always truthy.
\<close>

definition utc_or_now :: "instant \<Rightarrow> py_datetime option \<Rightarrow> exn + instant" where
  "utc_or_now clock v = require_utc (VDatetime (case v of None \<Rightarrow> Aware clock 0 | Some t \<Rightarrow> t))"

section \<open>Facts on decimals and money\<close>

lemma num_digits_le_iff: "num_digits n \<le> Suc k \<longleftrightarrow> n < 10 ^ Suc k"
proof (induction k arbitrary: n)
  case 0
  then show ?case by (subst num_digits.simps) (simp add: num_digits.simps [of "n div 10"])
next
  case (Suc k)
  show ?case
  proof (cases "n < 10")
    case True
    then have "n < 10 * 10 ^ Suc k" by (rule less_le_trans) simp
    with True show ?thesis by (subst num_digits.simps) simp
  next
    case False
    have "n div 10 < 10 ^ Suc k \<longleftrightarrow> n < 10 ^ Suc (Suc k)"
      by (simp add: div_less_iff_less_mult algebra_simps)
    with False Suc [of "n div 10"] show ?thesis by (subst num_digits.simps) simp
  qed
qed

lemma prec_iff: "num_digits n \<le> context_prec \<longleftrightarrow> n < 10 ^ 28"
  using num_digits_le_iff [of n 27] by (simp add: context_prec_def)

lemma prec_iff': "context_prec < num_digits n \<longleftrightarrow> 10 ^ 28 \<le> n"
  using prec_iff [of n] by linarith

text \<open>Rounding moves a quotient by at most one half, and is exact on multiples.\<close>

lemma div_half_even_error:
  assumes "0 < d"
  shows "2 * \<bar>int c - int (div_half_even c d) * int d\<bar> \<le> int d"
proof -
  have c: "c = c div d * d + c mod d" by simp
  have r: "c mod d < d" using assms by simp
  define q r where "q = c div d" and "r = c mod d"
  have "int c = int q * int d + int r" using c unfolding q_def r_def by (metis of_nat_add of_nat_mult)
  then show ?thesis
    using r by (auto simp: div_half_even_def Let_def q_def [symmetric] r_def [symmetric] algebra_simps)
qed

lemma div_half_even_one [simp]: "div_half_even c (Suc 0) = c"
  by (simp add: div_half_even_def)

lemma dec_quantize_idem: "dec_quantize x e = Inr y \<Longrightarrow> dec_quantize y e = Inr y"
  by (auto simp: dec_quantize_def Let_def split: decimal.splits if_splits)

lemma div_half_even_ge: "0 < d \<Longrightarrow> k * d \<le> c \<Longrightarrow> k \<le> div_half_even c d"
  by (auto simp: div_half_even_def Let_def less_eq_div_iff_mult_less_eq intro: le_SucI)

text \<open>An exact sum that fits 28 digits survives; one that does not is refused by the quantisation.\<close>

lemma quantize_dec_fix:
  "dec_quantize (dec_fix s c (-4)) (-4) =
     (if c < 10 ^ 28 then Inr (Dec s c (-4)) else Inl InvalidOperation)"
proof (cases "c < 10 ^ 28")
  case True
  then have "num_digits c \<le> context_prec" by (simp add: prec_iff)
  then show ?thesis using True by (simp add: dec_fix_def dec_quantize_def)
next
  case False
  define d where "d = num_digits c - context_prec"
  define c' where "c' = div_half_even c (10 ^ d)"
  have gt: "context_prec < num_digits c" using False by (simp add: prec_iff')
  have d: "1 \<le> d" "num_digits c = 28 + d" using gt by (simp_all add: d_def context_prec_def)
  have "\<not> num_digits c \<le> Suc (26 + d)" using d by simp
  then have "10 ^ Suc (26 + d) \<le> c" unfolding num_digits_le_iff by (rule leI)
  moreover have "Suc (26 + d) = 27 + d" by simp
  ultimately have big: "(10::nat) ^ 27 * 10 ^ d \<le> c" by (simp only: power_add)
  then have c': "10 ^ 27 \<le> c'" unfolding c'_def by (intro div_half_even_ge) simp_all
  have step: "10 ^ 28 \<le> m * 10 ^ Suc j" if "10 ^ 27 \<le> m" for m j :: nat
  proof -
    have "(10::nat) ^ 28 \<le> 10 ^ 27 * 10 ^ Suc j" by simp
    also have "\<dots> \<le> m * 10 ^ Suc j" using that by (rule mult_le_mono1)
    finally show ?thesis .
  qed
  obtain j where j: "d = Suc j" using d(1) by (cases d) simp_all
  show ?thesis
  proof (cases "num_digits c' \<le> context_prec")
    case True
    have "dec_fix s c (-4) = Dec s c' (-4 + int d)"
      using gt True by (simp add: dec_fix_def Let_def d_def [symmetric] c'_def [symmetric])
    with step [OF c', of j] False show ?thesis
      by (simp add: dec_quantize_def prec_iff' j nat_add_distrib)
  next
    case big': False
    then have "10 ^ 28 \<le> c'" by (simp add: prec_iff)
    then have c10: "10 ^ 27 \<le> c' div 10" by (simp add: less_eq_div_iff_mult_less_eq)
    have "dec_fix s c (-4) = Dec s (c' div 10) (-4 + int d + 1)"
      using gt big' by (simp add: dec_fix_def Let_def d_def [symmetric] c'_def [symmetric])
    with step [OF c10, of d] False show ?thesis
      by (simp add: dec_quantize_def prec_iff' nat_add_distrib)
  qed
qed

lemma dec_add_same_scale:
  "dec_add (Dec s c (-4)) (Dec t d (-4)) =
     (let v = signed s c + signed t d
      in Inr (dec_fix (if v = 0 then s \<and> t else v < 0) (nat \<bar>v\<bar>) (-4)))"
  by (simp add: dec_add_def Let_def)

lemma normalize_currency_upper:
  assumes u: "\<And>c d. d \<in> set (u c) \<Longrightarrow> \<not> (97 \<le> ord d \<and> ord d \<le> 122)"
    and "normalize_currency u v = Inr cur"
  shows "length cur = 3 \<and> list_all (\<lambda>c. 65 \<le> ord c \<and> ord c \<le> 90) cur"
proof -
  have ascii: "\<not> (97 \<le> ord (ascii_upper c) \<and> ord (ascii_upper c) \<le> 122)" for c
    by (auto simp: ascii_upper_def)
  have "\<not> (97 \<le> ord d \<and> ord d \<le> 122)" if "d \<in> set (py_upper u w)" for d w
    using that u ascii by (fastforce simp: py_upper_def split: if_splits)
  with assms(2) show ?thesis
    by (auto simp: normalize_currency_def Let_def currency_code_length_def list_all_iff
        ascii_alpha_def split: if_splits)
qed

section \<open>Facts on pagination\<close>

lemma mk_page_request_Inr:
  "mk_page_request (VInt p) (VInt s) = Inr r \<longleftrightarrow>
     1 \<le> p \<and> 1 \<le> s \<and> s \<le> 100 \<and> r = \<lparr>pr_page = p, pr_page_size = s\<rparr>"
  by (auto simp: mk_page_request_def require_integer_def)

text \<open>A well-formed request, as its constructor leaves it.\<close>

definition valid_request :: "page_request \<Rightarrow> bool" where
  "valid_request r \<longleftrightarrow> 1 \<le> pr_page r \<and> 1 \<le> pr_page_size r \<and> pr_page_size r \<le> 100"

lemma mk_page_request_valid: "mk_page_request p s = Inr r \<Longrightarrow> valid_request r"
  by (auto simp: mk_page_request_def valid_request_def result_simps split: if_splits)

lemma length_limit_offset:
  "valid_request r \<Longrightarrow> int (length (limit_offset rows r)) \<le> pr_page_size r \<and>
    length (limit_offset rows r) \<le> length rows"
  by (auto simp: limit_offset_def valid_request_def)

lemma paginate_eq:
  assumes "valid_request r"
  shows "paginate rows r = Inr \<lparr>pg_items = limit_offset rows r, pg_total_items = int (length rows),
    pg_page = pr_page r, pg_page_size = pr_page_size r\<rparr>"
  using assms length_limit_offset [OF assms, of rows]
  by (cases r) (simp add: paginate_def mk_page_def mk_page_request_def require_integer_def valid_request_def)

text \<open>The pages 1 to \<open>n\<close> of size \<open>s\<close>, one after the other, are a prefix of the rows.\<close>

lemma pages_prefix:
  assumes "0 < s"
  shows "concat (map (\<lambda>p. limit_offset rows \<lparr>pr_page = int p, pr_page_size = int s\<rparr>) [1..<Suc n]) =
    take (n * s) rows"
proof (induction n)
  case 0
  then show ?case by simp
next
  case (Suc n)
  have "limit_offset rows \<lparr>pr_page = int (Suc n), pr_page_size = int s\<rparr> = take s (drop (n * s) rows)"
    by (simp add: limit_offset_def offset_def nat_mult_distrib)
  moreover have "[1..<Suc (Suc n)] = [1..<Suc n] @ [Suc n]" by simp
  moreover have "take (Suc n * s) rows = take (n * s) rows @ take s (drop (n * s) rows)"
    by (subst add.commute [of s "n * s", folded mult_Suc]) (rule take_add)
  ultimately show ?case
    using Suc by (simp del: upt_Suc mult_Suc)
qed

lemma ceil_div_ge:
  assumes "0 < (s::int)"
  shows "n \<le> ((n + s - 1) div s) * s"
proof -
  have "(n + s - 1) div s * s = (n + s - 1) - (n + s - 1) mod s"
    by (simp add: minus_mod_eq_div_mult [symmetric])
  moreover have "(n + s - 1) mod s < s" using assms by simp
  ultimately show ?thesis by linarith
qed

lemma ceil_div_le:
  assumes "0 < (s::int)" "k < (n + s - 1) div s"
  shows "k * s < n"
proof -
  have "k + 1 \<le> (n + s - 1) div s" using assms(2) by simp
  then have "(k + 1) * s \<le> (n + s - 1) div s * s" using assms(1) by (intro mult_right_mono) simp_all
  also have "\<dots> \<le> n + s - 1"
    using pos_mod_sign [OF assms(1), of "n + s - 1"]
    by (simp only: minus_mod_eq_div_mult [symmetric])
  finally show ?thesis by (simp add: algebra_simps)
qed

section \<open>Properties\<close>

text \<open>
  Adding two monetary amounts of the same currency is exact. Amounts are kept at four decimal
  places; the sum is the exact signed sum at the same scale when its coefficient has at most 28
  digits, and otherwise the addition raises \<open>decimal.InvalidOperation\<close>: no rounded sum is ever
  returned.
\<close>

lemma money_add_exact:
  assumes "amount x = Dec s c (-4)" and "amount y = Dec t d (-4)"
    and "currency y = currency x" and "normalize_currency u (currency x) = Inr (currency x)"
  shows "(\<exists>s' c'. money_add u parse x y = Inr \<lparr>amount = Dec s' c' (-4), currency = currency x\<rparr> \<and>
            signed s' c' = signed s c + signed t d \<and> c' < 10 ^ 28)
       \<or> (money_add u parse x y = Inl InvalidOperation \<and> 10 ^ 28 \<le> \<bar>signed s c + signed t d\<bar>)"
proof -
  define v where "v = signed s c + signed t d"
  define s' where "s' = (if v = 0 then s \<and> t else v < 0)"
  have sum: "dec_add (Dec s c (-4)) (Dec t d (-4)) = Inr (dec_fix s' (nat \<bar>v\<bar>) (-4))"
    by (simp only: dec_add_same_scale Let_def v_def [symmetric] s'_def [symmetric])
  have eq: "money_add u parse x y = bind_r (dec_quantize (dec_fix s' (nat \<bar>v\<bar>) (-4)) (-4))
      (\<lambda>q. Inr \<lparr>amount = q, currency = currency x\<rparr>)"
    using assms by (simp add: money_add_def require_same_currency_def sum mk_money_def quantize_money_def)
  have "signed s' (nat \<bar>v\<bar>) = v" by (auto simp: signed_def s'_def)
  moreover have "nat \<bar>v\<bar> < 10 ^ 28 \<longleftrightarrow> \<bar>v\<bar> < 10 ^ 28" by (simp add: nat_less_iff)
  ultimately show ?thesis
    unfolding eq quantize_dec_fix v_def [symmetric] by (cases "nat \<bar>v\<bar> < 10 ^ 28") auto
qed

text \<open>
  \<open>quantize_money\<close> on a finite decimal either raises or returns a four-place amount of the
  same sign that is exact when the input has at most four places, and otherwise is off by at most
  half a unit of the fourth place; quantising the result again changes nothing.
\<close>

lemma quantize_money_rounds:
  assumes "quantize_money parse (InDecimal (Dec s c k)) = Inr q"
  shows "\<exists>c'. q = Dec s c' (-4) \<and> c' < 10 ^ 28 \<and>
    (if -4 \<le> k then c' = c * 10 ^ nat (k + 4)
     else 2 * \<bar>int c - int c' * 10 ^ nat (- 4 - k)\<bar> \<le> 10 ^ nat (- 4 - k)) \<and>
    quantize_money parse (InDecimal q) = Inr q"
proof -
  have q: "dec_quantize (Dec s c k) (-4) = Inr q" using assms by (simp add: quantize_money_def)
  define c' where
    "c' = (if -4 \<le> k then c * 10 ^ nat (k + 4) else div_half_even c (10 ^ nat (- 4 - k)))"
  have "q = Dec s c' (-4)" and lt: "c' < 10 ^ 28"
    using q by (auto simp: dec_quantize_def Let_def c'_def prec_iff' split: if_splits)
  moreover have "2 * \<bar>int c - int c' * 10 ^ nat (- 4 - k)\<bar> \<le> 10 ^ nat (- 4 - k)" if "\<not> -4 \<le> k"
    using that div_half_even_error [of "10 ^ nat (- 4 - k)" c] by (simp add: c'_def)
  moreover have "quantize_money parse (InDecimal q) = Inr q"
    using dec_quantize_idem [OF q] by (simp add: quantize_money_def)
  ultimately show ?thesis by (auto simp: c'_def)
qed

text \<open>
  C22: reading a listing page by page returns every row exactly once and in order. For a page size
  between 1 and 100, the pages 1 to \<open>total_pages\<close> concatenate to the listing, none of them is
  empty, and \<open>has_next\<close> is true on each but the last.
\<close>

theorem pagination_complete:
  assumes "mk_page_request (VInt 1) (VInt (int s)) = Inr r" and "paginate rows r = Inr g"
  shows "concat (map (\<lambda>p. limit_offset rows \<lparr>pr_page = int p, pr_page_size = int s\<rparr>)
            [1..<Suc (nat (total_pages g))]) = rows \<and>
         (\<forall>p. 1 \<le> p \<and> p \<le> nat (total_pages g) \<longrightarrow>
            (\<exists>h. paginate rows \<lparr>pr_page = int p, pr_page_size = int s\<rparr> = Inr h \<and> pg_items h \<noteq> [] \<and>
                (has_next h \<longleftrightarrow> p < nat (total_pages g))))"
proof -
  have r: "r = \<lparr>pr_page = 1, pr_page_size = int s\<rparr>" and s: "1 \<le> s" "s \<le> 100"
    using assms(1) by (simp_all add: mk_page_request_Inr)
  have vr: "valid_request \<lparr>pr_page = int p, pr_page_size = int s\<rparr>" if "1 \<le> p" for p
    using s that by (simp add: valid_request_def)
  have g: "total_pages g = (int (length rows) + int s - 1) div int s"
    using assms(2) vr [of 1] r by (auto simp: paginate_eq total_pages_def)
  define n where "n = nat (total_pages g)"
  have n: "int n = (int (length rows) + int s - 1) div int s"
    using s by (simp add: n_def g pos_imp_zdiv_nonneg_iff)
  have "int (length rows) \<le> int n * int s"
    unfolding n using s by (intro ceil_div_ge) simp
  then have "length rows \<le> n * s" by (metis of_nat_le_iff of_nat_mult)
  then have all: "take (n * s) rows = rows" by simp
  have ne: "limit_offset rows \<lparr>pr_page = int p, pr_page_size = int s\<rparr> \<noteq> []" if "1 \<le> p" "p \<le> n" for p
  proof -
    have "(int p - 1) * int s < int (length rows)"
      using that s n by (intro ceil_div_le) simp_all
    then have "nat ((int p - 1) * int s) < length rows" using that by (simp add: nat_less_iff)
    then show ?thesis using s by (simp add: limit_offset_def offset_def)
  qed
  have "\<exists>h. paginate rows \<lparr>pr_page = int p, pr_page_size = int s\<rparr> = Inr h \<and> pg_items h \<noteq> [] \<and>
      (has_next h \<longleftrightarrow> p < n)" if "1 \<le> p" "p \<le> n" for p
    using ne [OF that] n by (simp add: paginate_eq [OF vr [OF that(1)]] has_next_def total_pages_def
        del: of_nat_Suc flip: n)
  then show ?thesis
    using pages_prefix [of s rows n] s all by (simp add: n_def)
qed

theorem pagination_complete_witness:
  "concat (map (\<lambda>p. limit_offset [10, 20, 30 :: int] \<lparr>pr_page = int p, pr_page_size = int 2\<rparr>)
     [1..<Suc 2]) = [10, 20, 30]"
proof -
  have r: "mk_page_request (VInt 1) (VInt (int 2)) = Inr \<lparr>pr_page = 1, pr_page_size = 2\<rparr>"
    by (simp add: mk_page_request_def require_integer_def)
  have "paginate [10, 20, 30 :: int] \<lparr>pr_page = 1, pr_page_size = 2\<rparr> =
      Inr \<lparr>pg_items = [10, 20], pg_total_items = 3, pg_page = 1, pg_page_size = 2\<rparr>"
    by (simp add: paginate_def mk_page_def mk_page_request_def require_integer_def limit_offset_def
        offset_def)
  from pagination_complete [OF r this] show ?thesis by (simp add: total_pages_def)
qed

end
