(* ===== verification/Domain_Events.thy ===== *)
theory Domain_Events
  imports Core_Types
begin

text \<open>
  \<open>events.py\<close>: the immutable domain event, the validation and freezing of its payload, and the
  detached copy that is persisted. Frozen sequences are tuples (\<^const>\<open>VTuple\<close>), frozen mappings are
  \<^const>\<open>VDict\<close>.
\<close>

section \<open>Model\<close>

record domain_event =
  ev_event_id :: uuid
  ev_event_type :: string
  ev_aggregate_type :: string
  ev_aggregate_id :: uuid
  ev_aggregate_version :: int
  ev_occurred_at :: instant
  ev_payload :: "(string \<times> pyval) list"

definition event_sensitive_key_parts :: "string list" where
  "event_sensitive_key_parts =
     [''authorization'', ''card'', ''cookie'', ''credential'', ''cvv'', ''password'', ''secret'',
      ''token'']"

definition max_payload_depth :: int where "max_payload_depth = 8"
definition max_payload_values :: int where "max_payload_values = 500"
definition max_payload_string_length :: nat where "max_payload_string_length = 10000"

definition validate_type :: "string \<Rightarrow> pyval \<Rightarrow> exn + string" where
  "validate_type name v = (case v of
     VStr s \<Rightarrow> (if 100 < length s \<or> \<not> fullmatch snake_re s
       then Inl (ValueError (name @ '' must use lowercase snake case and at most 100 characters''))
       else Inr s)
   | _ \<Rightarrow> Inl (ValueError (name @ '' must use lowercase snake case and at most 100 characters'')))"

definition sensitive_payload_key :: "string \<Rightarrow> bool" where
  "sensitive_payload_key k \<longleftrightarrow> list_ex (\<lambda>p. p \<in> set event_sensitive_key_parts) (py_split (CHR ''_'') k)"

definition payload_key_ok :: "string \<Rightarrow> bool" where
  "payload_key_ok k \<longleftrightarrow> length k \<le> 100 \<and> fullmatch snake_re k \<and> \<not> sensitive_payload_key k"

definition validate_payload_key :: "pyval \<Rightarrow> exn + string" where
  "validate_payload_key key = (case key of
     VStr k \<Rightarrow>
       (if 100 < length k \<or> \<not> fullmatch snake_re k
        then Inl (ValueError ''event payload keys must use lowercase snake case'')
        else if sensitive_payload_key k
        then Inl (ValueError ''event payload contains a sensitive key'')
        else Inr k)
   | _ \<Rightarrow> Inl (TypeError ''event payload keys must be strings''))"

fun freeze_value :: "pyval \<Rightarrow> int \<Rightarrow> int \<Rightarrow> exn + (pyval \<times> int)"
  and freeze_list :: "pyval list \<Rightarrow> int \<Rightarrow> int \<Rightarrow> exn + (pyval list \<times> int)"
  and freeze_mapping :: "(pyval \<times> pyval) list \<Rightarrow> int \<Rightarrow> int \<Rightarrow> exn + ((string \<times> pyval) list \<times> int)"
where
  "freeze_value v depth budget0 =
     (if max_payload_depth < depth
      then Inl (ValueError ''event payload exceeds the maximum nesting depth'')
      else let budget = budget0 - 1 in
      if budget < 0 then Inl (ValueError ''event payload contains too many values'')
      else (case v of
        VNone \<Rightarrow> Inr (v, budget)
      | VBool b \<Rightarrow> Inr (v, budget)
      | VInt n \<Rightarrow> Inr (v, budget)
      | VFloat f \<Rightarrow> (case f of
            Finite m e \<Rightarrow> Inr (v, budget)
          | _ \<Rightarrow> Inl (ValueError ''event payload must contain finite numbers''))
      | VStr s \<Rightarrow> (if max_payload_string_length < length s
            then Inl (ValueError ''event payload strings must not exceed 10000 characters'')
            else Inr (v, budget))
      | VList xs \<Rightarrow> bind_r (freeze_list xs (depth + 1) budget) (\<lambda>(ys, b). Inr (VTuple ys, b))
      | VTuple xs \<Rightarrow> bind_r (freeze_list xs (depth + 1) budget) (\<lambda>(ys, b). Inr (VTuple ys, b))
      | VDict kvs \<Rightarrow> bind_r (freeze_mapping kvs (depth + 1) budget)
            (\<lambda>(ys, b). Inr (VDict (str_items ys), b))
      | VUuid x \<Rightarrow> Inl (TypeError ''event payload must contain only JSON-safe values'')
      | VDatetime t \<Rightarrow> Inl (TypeError ''event payload must contain only JSON-safe values'')
      | VTimedelta d \<Rightarrow> Inl (TypeError ''event payload must contain only JSON-safe values'')
      | VOther \<Rightarrow> Inl (TypeError ''event payload must contain only JSON-safe values'')))"
| "freeze_list [] depth budget = Inr ([], budget)"
| "freeze_list (x # xs) depth budget =
     bind_r (freeze_value x depth budget) (\<lambda>(y, b).
     bind_r (freeze_list xs depth b) (\<lambda>(ys, b'). Inr (y # ys, b')))"
| "freeze_mapping [] depth budget = Inr ([], budget)"
| "freeze_mapping ((k, x) # kvs) depth budget =
     bind_r (validate_payload_key k) (\<lambda>k'.
     bind_r (freeze_value x depth budget) (\<lambda>(y, b).
     bind_r (freeze_mapping kvs depth b) (\<lambda>(ys, b'). Inr ((k', y) # ys, b'))))"

declare freeze_value.simps [simp del]

text \<open>\<open>DomainEvent(...)\<close> with its \<open>__post_init__\<close>; the arguments are the values passed in.\<close>

definition mk_domain_event ::
  "pyval \<Rightarrow> pyval \<Rightarrow> pyval \<Rightarrow> pyval \<Rightarrow> pyval \<Rightarrow> pyval \<Rightarrow> pyval \<Rightarrow> exn + domain_event" where
  "mk_domain_event event_id event_type aggregate_type aggregate_id aggregate_version occurred_at payload =
     bind_r (case event_id of VUuid x \<Rightarrow> Inr x | _ \<Rightarrow> Inl (TypeError ''event_id must be a UUID'')) (\<lambda>eid.
     bind_r (validate_type ''event_type'' event_type) (\<lambda>et.
     bind_r (validate_type ''aggregate_type'' aggregate_type) (\<lambda>aty.
     bind_r (case aggregate_id of VUuid x \<Rightarrow> Inr x
             | _ \<Rightarrow> Inl (TypeError ''aggregate_id must be a UUID'')) (\<lambda>aid.
     bind_r (case aggregate_version of VInt n \<Rightarrow> Inr n
             | _ \<Rightarrow> Inl (TypeError ''aggregate_version must be an integer'')) (\<lambda>n.
     bind_r (require (1 \<le> n) (ValueError ''aggregate_version must be positive'')) (\<lambda>_.
     bind_r (case payload of VDict kvs \<Rightarrow> Inr kvs
             | _ \<Rightarrow> Inl (TypeError ''event payload must be a mapping'')) (\<lambda>kvs.
     bind_r (require_utc occurred_at) (\<lambda>t.
     bind_r (freeze_mapping kvs 1 max_payload_values) (\<lambda>(p, b).
     Inr \<lparr>ev_event_id = eid, ev_event_type = et, ev_aggregate_type = aty, ev_aggregate_id = aid,
          ev_aggregate_version = n, ev_occurred_at = t, ev_payload = p\<rparr>)))))))))"

fun thaw_value :: "pyval \<Rightarrow> pyval" where
  "thaw_value (VDict kvs) = VDict (map (\<lambda>(k, v). (k, thaw_value v)) kvs)"
| "thaw_value (VTuple xs) = VList (map thaw_value xs)"
| "thaw_value v = v"

definition payload_dict :: "domain_event \<Rightarrow> (string \<times> pyval) list" where
  "payload_dict e = map (\<lambda>(k, v). (k, thaw_value v)) (ev_payload e)"

section \<open>Facts\<close>

interpretation payload_walk: budgeted_walk freeze_value freeze_list freeze_mapping payload_key_ok
  max_payload_depth max_payload_string_length VTuple
proof (unfold_locales, goal_cases)
  case (2 v d b y b')
  then show ?case
    by (cases v) (auto simp: freeze_value.simps Let_def is_container_def json_scalar_def
        split: if_splits pyfloat.splits)
next
  case (3 v d b y b' xs)
  then show ?case by (auto simp: freeze_value.simps Let_def result_simps split: if_splits)
next
  case (4 kvs d b y b')
  then show ?case by (auto simp: freeze_value.simps Let_def result_simps split: if_splits)
next
  case (6 x xs d b ys b')
  then show ?case by (auto simp: result_simps)
next
  case (8 k x kvs d b its b')
  then show ?case
    by (auto simp: result_simps validate_payload_key_def payload_key_ok_def split: pyval.splits if_splits)
qed simp_all

text \<open>Freezing the detached copy of a frozen value gives the frozen value back.\<close>

lemma validate_payload_key_idem:
  "validate_payload_key k = Inr k' \<Longrightarrow> validate_payload_key (VStr k') = Inr k'"
  by (auto simp: validate_payload_key_def split: pyval.splits if_splits)

lemma freeze_thaw:
  "freeze_value v d b = Inr (y, b1) \<Longrightarrow> freeze_value (thaw_value y) d b = Inr (y, b1)"
  "freeze_list xs d b = Inr (ys, b2) \<Longrightarrow> freeze_list (map thaw_value ys) d b = Inr (ys, b2)"
  "freeze_mapping kvs d b = Inr (its, b3) \<Longrightarrow>
     freeze_mapping (map (\<lambda>(k, v). (VStr k, thaw_value v)) its) d b = Inr (its, b3)"
proof (induction v d b and xs d b and kvs d b arbitrary: y b1 and ys b2 and its b3
    rule: freeze_value_freeze_list_freeze_mapping.induct)
  case (1 v d b)
  have d: "\<not> max_payload_depth < d" and b: "\<not> b - 1 < 0"
    using "1.prems" by (auto simp: freeze_value.simps [of v] Let_def split: if_splits)
  show ?case
  proof (cases "is_container v")
    case False
    with payload_walk.walk_scalar [OF "1.prems"] have "y = v" by simp
    with False "1.prems" show ?thesis by (cases v) (auto simp: is_container_def)
  next
    case True
    then consider xs where "v = VList xs" | xs where "v = VTuple xs" | kvs where "v = VDict kvs"
      by (cases v) (auto simp: is_container_def)
    then show ?thesis
      using "1.prems" "1.IH" d b
      by cases (auto simp: freeze_value.simps [of v] freeze_value.simps [of "VList _"] freeze_value.simps [of "VTuple _"]
          freeze_value.simps [of "VDict _"] Let_def result_simps case_prod_unfold comp_def)
  qed
next
  case (3 x xs d b)
  then show ?case by (fastforce simp: result_simps)
next
  case (5 k x kvs d b)
  then show ?case by (fastforce simp: result_simps dest: validate_payload_key_idem)
qed simp_all

text \<open>The dynamic type checks, as equivalences.\<close>

lemma type_check_simps:
  "(case v of VUuid x \<Rightarrow> Inr x | _ \<Rightarrow> Inl e) = Inr i \<longleftrightarrow> v = VUuid i"
  "(case v of VInt x \<Rightarrow> Inr x | _ \<Rightarrow> Inl e) = Inr n \<longleftrightarrow> v = VInt n"
  "(case v of VDict x \<Rightarrow> Inr x | _ \<Rightarrow> Inl e) = Inr kvs \<longleftrightarrow> v = VDict kvs"
  by (cases v; simp)+

lemma require_utc_Inr: "require_utc v = Inr t \<longleftrightarrow> (\<exists>off. v = VDatetime (Aware t off))"
  by (auto simp: require_utc_def split: pyval.splits py_datetime.splits)

lemma validate_type_Inr:
  "validate_type name v = Inr s \<longleftrightarrow> v = VStr s \<and> length s \<le> 100 \<and> fullmatch snake_re s"
  by (auto simp: validate_type_def split: pyval.splits)

lemma mk_domain_event_Inr:
  "mk_domain_event eid et aty aid ver occ pay = Inr e \<longleftrightarrow>
     (\<exists>kvs b off. eid = VUuid (ev_event_id e) \<and> et = VStr (ev_event_type e) \<and>
       aty = VStr (ev_aggregate_type e) \<and> aid = VUuid (ev_aggregate_id e) \<and>
       ver = VInt (ev_aggregate_version e) \<and> 1 \<le> ev_aggregate_version e \<and>
       occ = VDatetime (Aware (ev_occurred_at e) off) \<and> pay = VDict kvs \<and>
       freeze_mapping kvs 1 max_payload_values = Inr (ev_payload e, b) \<and>
       length (ev_event_type e) \<le> 100 \<and> fullmatch snake_re (ev_event_type e) \<and>
       length (ev_aggregate_type e) \<le> 100 \<and> fullmatch snake_re (ev_aggregate_type e))"
  by (cases e) (auto simp: mk_domain_event_def bind_r_eq_Inr type_check_simps require_utc_Inr
      validate_type_Inr case_prod_unfold)

text \<open>What a frozen mapping satisfies, from the contract of the walk.\<close>

lemma freeze_mapping_safe:
  assumes "freeze_mapping kvs 1 max_payload_values = Inr (its, b)"
  shows "sum_list (map (\<lambda>(k, v). json_nodes v) its) \<le> 500 \<and>
    list_all (\<lambda>(k, y). payload_key_ok k \<and> depth_le 8 y \<and> keys_all payload_key_ok y \<and>
      leaves_all (json_scalar 10000) y) its \<and>
    map (\<lambda>(k, y). (VStr k, listify y)) its = map (\<lambda>(k, y). (k, listify y)) kvs"
proof -
  have "0 \<le> max_payload_values" by (simp add: max_payload_values_def)
  from payload_walk.walk_items_walked [OF _ assms this] payload_walk.walk_walked
  show ?thesis
    by (simp add: max_payload_values_def max_payload_depth_def max_payload_string_length_def)
qed

text \<open>
  The detached payload of an event, given back to the constructor with the other fields of the
  event, is accepted and yields the same event.
\<close>

lemma event_rebuild:
  assumes "mk_domain_event eid et aty aid ver occ pay = Inr e"
  shows "mk_domain_event (VUuid (ev_event_id e)) (VStr (ev_event_type e)) (VStr (ev_aggregate_type e))
    (VUuid (ev_aggregate_id e)) (VInt (ev_aggregate_version e))
    (VDatetime (Aware (ev_occurred_at e) 0)) (VDict (str_items (payload_dict e))) = Inr e"
proof -
  from assms obtain kvs b where f: "freeze_mapping kvs 1 max_payload_values = Inr (ev_payload e, b)"
    by (auto simp: mk_domain_event_Inr)
  have "str_items (payload_dict e) = map (\<lambda>(k, v). (VStr k, thaw_value v)) (ev_payload e)"
    by (auto simp: payload_dict_def)
  with freeze_thaw(3) [OF f] assms show ?thesis
    by (auto simp: mk_domain_event_Inr)
qed

section \<open>Properties\<close>

text \<open>
  Whatever payload a domain event is built from, the constructed event carries at most 500
  values nested at most 8 deep, every mapping key at every level is lowercase snake case of at most
  100 characters with no sensitive word among its segments, every scalar is JSON-safe with strings
  of at most 10000 characters, and the payload has the content of the argument.
\<close>

lemma event_payload_safe:
  assumes "mk_domain_event eid et aty aid ver occ (VDict kvs) = Inr e"
  shows "sum_list (map (\<lambda>(k, v). json_nodes v) (ev_payload e)) \<le> 500 \<and>
    list_all (\<lambda>(k, y). payload_key_ok k \<and> depth_le 8 y \<and> keys_all payload_key_ok y \<and>
      leaves_all (json_scalar 10000) y) (ev_payload e) \<and>
    map (\<lambda>(k, y). (VStr k, listify y)) (ev_payload e) = map (\<lambda>(k, y). (k, listify y)) kvs"
  using assms freeze_mapping_safe by (auto simp: mk_domain_event_Inr)

end
