(* ===== verification/Unit_Of_Work.thy ===== *)
theory Unit_Of_Work
  imports App_Errors
begin

text \<open>
  \<open>db/uow.py\<close>: the unit of work that owns one database session.

  \<open>durable\<close> is the committed database, \<open>working\<close> the database as the session's open transaction
  sees it, \<open>external\<close> the state outside the transaction (Redis) that post-commit callbacks act on.
  \<open>in_tx\<close> is \<open>session.in_transaction()\<close>. A callback is a function on the external state that may
  raise. The constraints that PostgreSQL checks when pending changes are flushed are the argument
  \<open>chk\<close>: the exception, if any, that committing a given database state raises.
\<close>

section \<open>Model\<close>

type_synonym 'w callback = "'w \<Rightarrow> exn option \<times> 'w"

record ('db, 'w) uow =
  durable :: 'db
  working :: 'db
  external :: 'w
  callbacks :: "'w callback list"
  active :: bool
  used :: bool
  needs_rollback :: bool
  in_tx :: bool

text \<open>\<open>SqlAlchemyUnitOfWork(factory)\<close>: a fresh object over a database and an external state.\<close>

definition new_uow :: "'db \<Rightarrow> 'w \<Rightarrow> ('db, 'w) uow" where
  "new_uow db w = \<lparr>durable = db, working = db, external = w, callbacks = [], active = False,
     used = False, needs_rollback = False, in_tx = False\<rparr>"

definition inactive_error :: exn where
  "inactive_error = RuntimeError ''unit of work is not active''"

definition uow_enter :: "('db, 'w) uow \<Rightarrow> (exn + unit) \<times> ('db, 'w) uow" where
  "uow_enter s =
     (if used s then (Inl (RuntimeError ''unit of work instances cannot be reused''), s)
      else (Inr (), s\<lparr>used := True, active := True, working := durable s, needs_rollback := True\<rparr>))"

text \<open>\<open>session.rollback()\<close>: the open transaction is discarded.\<close>

definition session_rollback :: "('db, 'w) uow \<Rightarrow> ('db, 'w) uow" where
  "session_rollback s = s\<lparr>working := durable s, in_tx := False\<rparr>"

definition uow_exit :: "('db, 'w) uow \<Rightarrow> (exn + unit) \<times> ('db, 'w) uow" where
  "uow_exit s =
     (if \<not> active s then (Inl inactive_error, s)
      else let s1 = (if needs_rollback s \<or> in_tx s then session_rollback s else s)
           in (Inr (), s1\<lparr>callbacks := [], active := False, needs_rollback := False\<rparr>))"

fun run_callbacks :: "'w callback list \<Rightarrow> 'w \<Rightarrow> (exn + unit) \<times> 'w" where
  "run_callbacks [] w = (Inr (), w)"
| "run_callbacks (c # cs) w =
     (case c w of (None, w') \<Rightarrow> run_callbacks cs w' | (Some e, w') \<Rightarrow> (Inl e, w'))"

definition uow_commit :: "('db \<Rightarrow> exn option) \<Rightarrow> ('db, 'w) uow \<Rightarrow> (exn + unit) \<times> ('db, 'w) uow" where
  "uow_commit chk s =
     (if \<not> active s then (Inl inactive_error, s)
      else (case chk (working s) of
        Some e \<Rightarrow> (Inl e, s)
      | None \<Rightarrow>
          (let (r, w) = run_callbacks (callbacks s) (external s)
           in (r, s\<lparr>durable := working s, in_tx := False, needs_rollback := False,
                    callbacks := [], external := w\<rparr>))))"

definition uow_rollback :: "('db, 'w) uow \<Rightarrow> (exn + unit) \<times> ('db, 'w) uow" where
  "uow_rollback s =
     (if \<not> active s then (Inl inactive_error, s)
      else (Inr (), (session_rollback s)\<lparr>callbacks := [], needs_rollback := False\<rparr>))"

text \<open>\<open>after_commit(callback)\<close>; \<open>None\<close> stands for an argument that is not callable.\<close>

definition uow_after_commit :: "'w callback option \<Rightarrow> ('db, 'w) uow \<Rightarrow> (exn + unit) \<times> ('db, 'w) uow" where
  "uow_after_commit c s =
     (if \<not> active s then (Inl inactive_error, s)
      else (case c of
        None \<Rightarrow> (Inl (TypeError ''post-commit callback must be callable''), s)
      | Some f \<Rightarrow> (Inr (), s\<lparr>callbacks := callbacks s @ [f]\<rparr>)))"

text \<open>A statement executed on the session changes the working database inside the transaction.\<close>

definition uow_work :: "('db \<Rightarrow> 'db) \<Rightarrow> ('db, 'w) uow \<Rightarrow> (exn + unit) \<times> ('db, 'w) uow" where
  "uow_work f s =
     (if \<not> active s then (Inl inactive_error, s)
      else (Inr (), s\<lparr>working := f (working s), in_tx := True\<rparr>))"

section \<open>Whole uses of a unit of work\<close>

text \<open>
  What the body of \<open>async with SqlAlchemyUnitOfWork(...) as uow\<close> may do: statements, registrations,
  commits and rollbacks, until it ends or an exception is raised (by one of them or by the body,
  \<open>Raise\<close>); then \<open>__aexit__\<close> runs.
\<close>

datatype ('db, 'w) uow_op =
    Work "'db \<Rightarrow> 'db" | AfterCommit "'w callback" | Commit | Rollback | Raise exn

fun uow_step :: "('db \<Rightarrow> exn option) \<Rightarrow> ('db, 'w) uow_op \<Rightarrow> ('db, 'w) uow \<Rightarrow> (exn + unit) \<times> ('db, 'w) uow" where
  "uow_step chk (Work f) s = uow_work f s"
| "uow_step chk (AfterCommit c) s = uow_after_commit (Some c) s"
| "uow_step chk Commit s = uow_commit chk s"
| "uow_step chk Rollback s = uow_rollback s"
| "uow_step chk (Raise e) s = (Inl e, s)"

fun uow_body :: "('db \<Rightarrow> exn option) \<Rightarrow> ('db, 'w) uow_op list \<Rightarrow> ('db, 'w) uow \<Rightarrow> (exn + unit) \<times> ('db, 'w) uow" where
  "uow_body chk [] s = (Inr (), s)"
| "uow_body chk (x # xs) s =
     (case uow_step chk x s of (Inr _, s') \<Rightarrow> uow_body chk xs s' | (Inl e, s') \<Rightarrow> (Inl e, s'))"

definition with_uow :: "('db \<Rightarrow> exn option) \<Rightarrow> ('db, 'w) uow_op list \<Rightarrow> 'db \<Rightarrow> 'w \<Rightarrow> (exn + unit) \<times> ('db, 'w) uow" where
  "with_uow chk ops db w =
     (case uow_enter (new_uow db w) of
        (Inl e, s) \<Rightarrow> (Inl e, s)
      | (Inr _, s) \<Rightarrow> (case uow_body chk ops s of (r, s') \<Rightarrow> (r, snd (uow_exit s'))))"

section \<open>Specification\<close>

text \<open>
  The contract, without sessions and flags: a committed database, the statements pending since the
  last commit or rollback, and the callbacks pending with them. The outcome is the exception or
  normal end, the committed database and the external state.
\<close>

fun tx_spec :: "('db \<Rightarrow> exn option) \<Rightarrow> ('db, 'w) uow_op list \<Rightarrow> 'db \<Rightarrow> ('db \<Rightarrow> 'db) list \<Rightarrow> 'w callback list \<Rightarrow> 'w
    \<Rightarrow> (exn + unit) \<times> 'db \<times> 'w" where
  "tx_spec chk [] db fs cs w = (Inr (), db, w)"
| "tx_spec chk (Work f # xs) db fs cs w = tx_spec chk xs db (fs @ [f]) cs w"
| "tx_spec chk (AfterCommit c # xs) db fs cs w = tx_spec chk xs db fs (cs @ [c]) w"
| "tx_spec chk (Rollback # xs) db fs cs w = tx_spec chk xs db [] [] w"
| "tx_spec chk (Raise e # xs) db fs cs w = (Inl e, db, w)"
| "tx_spec chk (Commit # xs) db fs cs w =
     (let db' = fold (\<lambda>f d. f d) fs db in
      case chk db' of
        Some e \<Rightarrow> (Inl e, db, w)
      | None \<Rightarrow> (case run_callbacks cs w of
          (Inl e, w') \<Rightarrow> (Inl e, db', w')
        | (Inr _, w') \<Rightarrow> tx_spec chk xs db' [] [] w'))"

section \<open>Facts\<close>

lemmas uow_defs = uow_work_def uow_after_commit_def uow_commit_def uow_rollback_def
  session_rollback_def

text \<open>The simulation: the working database is the committed one with the pending statements applied.\<close>

lemma uow_body_refines:
  assumes "active s" and "working s = fold (\<lambda>f d. f d) fs (durable s)"
    and "uow_body chk ops s = (r, s')"
  shows "active s' \<and> tx_spec chk ops (durable s) fs (callbacks s) (external s) = (r, durable s', external s')"
  using assms
proof (induction ops arbitrary: s fs)
  case Nil
  then show ?case by auto
next
  case (Cons x xs)
  show ?case
  proof (cases x)
    case (Work f)
    have "active (s\<lparr>working := f (working s), in_tx := True\<rparr>)" using Cons.prems(1) by simp
    from Cons.IH [OF this, of "fs @ [f]"] Cons.prems Work show ?thesis by (simp add: uow_defs)
  next
    case (AfterCommit c)
    have "active (s\<lparr>callbacks := callbacks s @ [c]\<rparr>)" using Cons.prems(1) by simp
    from Cons.IH [OF this, of fs] Cons.prems AfterCommit show ?thesis by (simp add: uow_defs)
  next
    case Rollback
    let ?s = "(session_rollback s)\<lparr>callbacks := [], needs_rollback := False\<rparr>"
    have "active ?s" using Cons.prems(1) by (simp add: uow_defs)
    from Cons.IH [OF this, of "[]"] Cons.prems Rollback show ?thesis by (simp add: uow_defs)
  next
    case (Raise e)
    with Cons.prems show ?thesis by auto
  next
    case Commit
    show ?thesis
    proof (cases "chk (working s)")
      case (Some e)
      with Commit Cons.prems show ?thesis by (auto simp: uow_defs)
    next
      case None
      obtain q w where qw: "run_callbacks (callbacks s) (external s) = (q, w)" by fastforce
      let ?s = "s\<lparr>durable := working s, in_tx := False, needs_rollback := False,
                  callbacks := [], external := w\<rparr>"
      have "active ?s" using Cons.prems(1) by simp
      from Cons.IH [OF this, of "[]"] Cons.prems Commit None qw show ?thesis
        by (cases q) (auto simp: uow_defs)
    qed
  qed
qed

lemma tx_spec_no_commit:
  assumes "Commit \<notin> set ops"
  shows "fst (snd (tx_spec chk ops db fs cs w)) = db \<and> snd (snd (tx_spec chk ops db fs cs w)) = w"
  using assms by (induction chk ops db fs cs w rule: tx_spec.induct) simp_all

section \<open>Properties\<close>

text \<open>
  C1: a unit of work implements its transactional contract. For every sequence of statements,
  callback registrations, commits, rollbacks and exceptions inside \<open>async with\<close>, the outcome, the
  committed database and the external state are those of the specification \<open>tx_spec\<close>: statements take
  effect only through a commit that passes the constraints, callbacks run once, in registration
  order, after the commit that follows their registration, and a rollback discards both. Afterwards
  the object is closed, holds no callback and cannot be entered again.
\<close>

theorem with_uow_refines:
  assumes "with_uow chk ops db w = (r, s)"
  shows "tx_spec chk ops db [] [] w = (r, durable s, external s) \<and>
    \<not> active s \<and> callbacks s = [] \<and> working s = durable s \<and> (\<exists>e. fst (uow_enter s) = Inl e)"
proof -
  define s0 where "s0 = (new_uow db w)\<lparr>used := True, active := True, needs_rollback := True\<rparr>"
  have enter: "uow_enter (new_uow db w) = (Inr (), s0)"
    by (simp add: uow_enter_def new_uow_def s0_def)
  obtain s1 where b: "uow_body chk ops s0 = (r, s1)" and s: "s = snd (uow_exit s1)"
    using assms by (auto simp: with_uow_def enter split: prod.splits)
  have "active s1 \<and> tx_spec chk ops db [] [] w = (r, durable s1, external s1)"
    using uow_body_refines [OF _ _ b, of "[]"] by (simp add: s0_def new_uow_def)
  moreover have "used s1 \<and> (needs_rollback s1 \<or> in_tx s1 \<or> working s1 = durable s1)"
  proof -
    have "used t' \<and> (needs_rollback t' \<or> in_tx t' \<or> working t' = durable t')"
      if "uow_body chk xs t = (q, t')" "used t" "needs_rollback t \<or> in_tx t \<or> working t = durable t"
      for xs t q t'
      using that
    proof (induction xs arbitrary: t)
      case (Cons x xs)
      obtain p t1 where st: "uow_step chk x t = (p, t1)" by fastforce
      then have "used t1 \<and> (needs_rollback t1 \<or> in_tx t1 \<or> working t1 = durable t1)"
        using Cons.prems(2,3)
        by (cases x) (auto simp: uow_defs split: if_splits option.splits prod.splits)
      with Cons st show ?case by (cases p) auto
    qed auto
    from this [OF b] show ?thesis by (simp add: s0_def)
  qed
  ultimately show ?thesis
    by (auto simp: s uow_exit_def uow_enter_def session_rollback_def)
qed

theorem with_uow_refines_witness:
  "fst (snd (tx_spec (\<lambda>d. None) [Work ((+) 1), AfterCommit (\<lambda>w. (None, w @ ''x'')), Commit, Work ((+) 5),
      Raise TimeoutError] (0::int) [] [] '''')) = 1 \<and>
   durable (snd (with_uow (\<lambda>d. None) [Work ((+) 1), AfterCommit (\<lambda>w. (None, w @ ''x'')), Commit, Work ((+) 5),
      Raise TimeoutError] (0::int) '''')) = 1"
proof -
  let ?ops = "[Work ((+) (1::int)), AfterCommit (\<lambda>w. (None, w @ ''x'')), Commit, Work ((+) 5),
    Raise TimeoutError]"
  obtain r s where rs: "with_uow (\<lambda>d. None) ?ops 0 '''' = (r, s)" by fastforce
  have "tx_spec (\<lambda>d. None) ?ops 0 [] [] '''' = (Inl TimeoutError, 1, ''x'')" by simp
  with with_uow_refines [OF rs] rs show ?thesis by simp
qed

end
