(* ===== verification/Contracts.thy ===== *)
theory Contracts
  imports App_Errors
begin

text \<open>
  The contracts several components share, as locales, and the executions they speak of.

  \<^item> \<open>run\<close>: a finite execution of a component. Each step runs one operation on the committed
    state; the operation emits events (ghost records of what it did) and may only be taken when
    the environment admits its events after the ones emitted so far. An operation that raises is
    rolled back by its unit of work and is no step.
  \<^item> \<open>run_invariant\<close>: an assertion on states and histories that every operation keeps holds of
    every execution.
  \<^item> \<open>lease_fence\<close>: the operations with which the holder of a lease ends it. They take effect
    only for the live token, and at most once.
  \<^item> \<open>batch_claim\<close>: \<open>SELECT ... FOR UPDATE SKIP LOCKED\<close> followed by a change of the selected rows
    that disqualifies them.
\<close>

section \<open>Executions\<close>

inductive run ::
  "('op \<Rightarrow> 's \<Rightarrow> exn + ('e list \<times> 's)) \<Rightarrow> ('e list \<Rightarrow> 'e list \<Rightarrow> bool) \<Rightarrow> 's \<Rightarrow> 's \<Rightarrow> 'e list \<Rightarrow> bool"
  for exec :: "'op \<Rightarrow> 's \<Rightarrow> exn + ('e list \<times> 's)" and admits :: "'e list \<Rightarrow> 'e list \<Rightarrow> bool" and init :: 's
where
  run_start: "run exec admits init init []"
| run_step: "run exec admits init s es \<Longrightarrow> exec op s = Inr (es', s') \<Longrightarrow> admits es es' \<Longrightarrow>
    run exec admits init s' (es @ es')"

text \<open>The executable form: run a list of operations, failing on the first that cannot be taken.\<close>

fun run_ops ::
  "('op \<Rightarrow> 's \<Rightarrow> exn + ('e list \<times> 's)) \<Rightarrow> ('e list \<Rightarrow> 'e list \<Rightarrow> bool) \<Rightarrow> 'op list \<Rightarrow> 's \<times> 'e list \<Rightarrow> ('s \<times> 'e list) option"
where
  "run_ops exec admits [] se = Some se"
| "run_ops exec admits (op # ops) (s, es) = (case exec op s of
     Inl e \<Rightarrow> None
   | Inr (es', s') \<Rightarrow> if admits es es' then run_ops exec admits ops (s', es @ es') else None)"

lemma run_ops_run:
  "run exec admits init s es \<Longrightarrow> run_ops exec admits ops (s, es) = Some (s', es') \<Longrightarrow>
    run exec admits init s' es'"
proof (induction ops arbitrary: s es)
  case (Cons op ops)
  from Cons.prems(2) obtain e t where step: "exec op s = Inr (e, t)" "admits es e"
    and rest: "run_ops exec admits ops (t, es @ e) = Some (s', es')"
    by (auto split: sum.splits if_splits)
  show ?case
    using Cons.IH rest run_step Cons.prems(1) step by metis
qed simp

lemmas run_opsI = run_ops_run [OF run_start]

locale run_invariant =
  fixes exec :: "'op \<Rightarrow> 's \<Rightarrow> exn + ('e list \<times> 's)"
    and admits :: "'e list \<Rightarrow> 'e list \<Rightarrow> bool"
    and init :: 's
    and inv :: "'s \<Rightarrow> 'e list \<Rightarrow> bool"
  assumes inv_start: "inv init []"
    and inv_step: "inv s es \<Longrightarrow> exec op s = Inr (es', s') \<Longrightarrow> admits es es' \<Longrightarrow> inv s' (es @ es')"
begin

lemma run_inv: "run exec admits init s es \<Longrightarrow> inv s es"
  by (induction rule: run.induct) (auto intro: inv_start inv_step)

end

section \<open>Ending a lease\<close>

locale lease_fence =
  fixes key :: "'r \<Rightarrow> uuid"
    and holds :: "uuid \<Rightarrow> instant \<Rightarrow> 'r \<Rightarrow> bool"
    and settle :: "'a \<Rightarrow> uuid \<Rightarrow> uuid \<Rightarrow> instant \<Rightarrow> 'r list \<Rightarrow> bool \<times> 'r list"
    and after :: "'a \<Rightarrow> instant \<Rightarrow> 'r \<Rightarrow> 'r"
  assumes settle_def: "unique_key key tbl \<Longrightarrow> settle a k tk t tbl =
      (\<exists>r \<in> set tbl. key r = k \<and> holds tk t r,
       update_where (\<lambda>r. key r = k \<and> holds tk t r) (after a t) tbl)"
    and after_key: "key (after a t r) = key r"
    and after_released: "holds tk t r \<Longrightarrow> \<not> holds tk' t' (after a t r)"
    and holds_token: "holds tk t r \<Longrightarrow> holds tk' t' r \<Longrightarrow> tk' = tk"
begin

lemma settle_iff:
  "unique_key key tbl \<Longrightarrow> fst (settle a k tk t tbl) \<longleftrightarrow> (\<exists>r \<in> set tbl. key r = k \<and> holds tk t r)"
  by (simp add: settle_def)

lemma unique_settle: "unique_key key tbl \<Longrightarrow> unique_key key (snd (settle a k tk t tbl))"
  by (simp add: settle_def unique_key_update_where after_key)

lemma settle_denied:
  "unique_key key tbl \<Longrightarrow> \<not> fst (settle a k tk t tbl) \<Longrightarrow> snd (settle a k tk t tbl) = tbl"
  by (simp add: settle_def) (rule update_where_none, auto)

lemma settle_frame:
  "unique_key key tbl \<Longrightarrow> k' \<noteq> k \<Longrightarrow>
    get_row key (snd (settle a k tk t tbl)) k' = get_row key tbl k'"
  by (simp add: settle_def get_row_update_where after_key) (cases "get_row key tbl k'", auto dest: get_row_SomeD)

text \<open>Once a lease is ended no token, its own included, ends it again.\<close>

lemma settle_once:
  assumes u: "unique_key key tbl" and s: "fst (settle a k tk t tbl)"
  shows "\<not> fst (settle b k tk' t' (snd (settle a k tk t tbl)))"
proof -
  from s obtain r where r: "r \<in> set tbl" "key r = k" "holds tk t r"
    by (auto simp: settle_iff [OF u])
  have "\<not> holds tk' t' x" if x: "x \<in> set (snd (settle a k tk t tbl))" "key x = k" for x
  proof -
    from x(1) obtain y where y: "y \<in> set tbl"
      and xy: "x = (if key y = k \<and> holds tk t y then after a t y else y)"
      by (auto simp: settle_def [OF u] update_where_def)
    then have "key y = k" using x(2) after_key by (auto split: if_splits)
    with y r u have "y = r" by (auto dest: unique_keyD)
    with xy r show ?thesis by (auto dest: after_released)
  qed
  then show ?thesis by (auto simp: settle_iff [OF unique_settle [OF u]])
qed

lemma settle_spec:
  assumes u: "unique_key key tbl" and s: "settle a k tk t tbl = (b, tbl')"
  shows "unique_key key tbl'" and "b \<longleftrightarrow> (\<exists>r \<in> set tbl. key r = k \<and> holds tk t r)"
    and "\<not> b \<longrightarrow> tbl' = tbl" and "\<forall>i. i \<noteq> k \<longrightarrow> get_row key tbl' i = get_row key tbl i"
    and "b \<longrightarrow> (\<forall>tk' t'. \<not> (\<exists>r \<in> set tbl'. key r = k \<and> holds tk' t' r))"
proof -
  have b: "fst (settle a k tk t tbl) = b" "snd (settle a k tk t tbl) = tbl'" using s by simp_all
  show u': "unique_key key tbl'" using unique_settle [OF u, of a k tk t] by (simp add: b)
  show "b \<longleftrightarrow> (\<exists>r \<in> set tbl. key r = k \<and> holds tk t r)" using settle_iff [OF u, of a k tk t] by (simp add: b)
  show "\<not> b \<longrightarrow> tbl' = tbl" using settle_denied [OF u, of a k tk t] by (simp add: b)
  show "\<forall>i. i \<noteq> k \<longrightarrow> get_row key tbl' i = get_row key tbl i"
    using settle_frame [OF u, of _ k a tk t] by (simp add: b)
  show "b \<longrightarrow> (\<forall>tk' t'. \<not> (\<exists>r \<in> set tbl'. key r = k \<and> holds tk' t' r))"
    using settle_once [OF u, of a k tk t] by (simp add: b settle_iff [OF u'])
qed

text \<open>A worker whose token is not the live one changes nothing.\<close>

lemma settle_foreign:
  assumes u: "unique_key key tbl" and r: "r \<in> set tbl" "key r = k" "holds tk t r" and "tk' \<noteq> tk"
  shows "settle a k tk' t' tbl = (False, tbl)"
proof -
  have "\<not> fst (settle a k tk' t' tbl)"
    using assms by (auto simp: settle_iff dest: unique_keyD holds_token)
  with settle_denied [OF u this] show ?thesis by (metis prod.collapse)
qed

end

section \<open>Claiming a batch\<close>

locale batch_claim =
  fixes key :: "'r \<Rightarrow> uuid"
    and due :: "'r list \<Rightarrow> 'r \<Rightarrow> bool"
    and claim :: "(uuid \<Rightarrow> bool) \<Rightarrow> 'a \<Rightarrow> 'r list \<Rightarrow> 'r list \<times> 'r list"
    and after :: "'a \<Rightarrow> 'r \<Rightarrow> 'r"
    and order :: "'r \<Rightarrow> 'k::linorder"
    and size :: "'a \<Rightarrow> nat"
  assumes claim_def: "claim locked a tbl =
      (let rows = select_rows (\<lambda>r. due tbl r \<and> \<not> locked (key r)) order (size a) tbl
       in (map (after a) rows, update_ids key (map key rows) (after a) tbl))"
    and after_key: "key (after a r) = key r"
begin

definition claimed_keys :: "(uuid \<Rightarrow> bool) \<Rightarrow> 'a \<Rightarrow> 'r list \<Rightarrow> uuid list" where
  "claimed_keys locked a tbl = map key (fst (claim locked a tbl))"

lemma claimed_keys_eq:
  "claimed_keys locked a tbl =
    map key (select_rows (\<lambda>r. due tbl r \<and> \<not> locked (key r)) order (size a) tbl)"
  by (simp add: claimed_keys_def claim_def Let_def after_key)

lemma claimed_due:
  "k \<in> set (claimed_keys locked a tbl) \<Longrightarrow> \<exists>r \<in> set tbl. key r = k \<and> due tbl r \<and> \<not> locked k"
  by (auto simp: claimed_keys_eq dest!: set_select_rows_subset)

lemma claim_bounded: "length (claimed_keys locked a tbl) \<le> size a"
  by (simp add: claimed_keys_eq length_select_rows_le)

lemma claim_distinct: "unique_key key tbl \<Longrightarrow> distinct (claimed_keys locked a tbl)"
  unfolding claimed_keys_eq by (rule distinct_select_rows) (simp add: unique_key_def)

text \<open>Two claims that overlap in time: the second skips the rows the first has locked.\<close>

lemma claims_disjoint:
  assumes "\<And>k. k \<in> set (claimed_keys locked a tbl) \<Longrightarrow> locked' k"
  shows "set (claimed_keys locked a tbl) \<inter> set (claimed_keys locked' b tbl) = {}"
  using assms by (auto dest: claimed_due)

text \<open>Nothing that is due and free is passed over for a row later in the order.\<close>

lemma claim_least:
  assumes "r \<in> set tbl" "due tbl r" "\<not> locked (key r)" "key r \<notin> set (claimed_keys locked a tbl)"
    and "unique_key key tbl"
  shows "length (claimed_keys locked a tbl) = size a \<and>
    (\<forall>s \<in> set tbl. key s \<in> set (claimed_keys locked a tbl) \<longrightarrow> order s \<le> order r)"
proof -
  let ?P = "\<lambda>r. due tbl r \<and> \<not> locked (key r)"
  let ?sel = "select_rows ?P order (size a) tbl"
  have nin: "r \<notin> set ?sel" using assms(4) by (auto simp: claimed_keys_eq)
  have "\<not> length ?sel < size a"
    using nin assms(1-3) select_rows_all [of ?P order "size a" tbl r] by blast
  then have len: "length ?sel = size a"
    using length_select_rows_le [of ?P order "size a" tbl] by linarith
  have "order s \<le> order r" if s: "s \<in> set tbl" "key s \<in> set (claimed_keys locked a tbl)" for s
  proof -
    from s(2) obtain s' where s': "s' \<in> set ?sel" "key s' = key s" by (auto simp: claimed_keys_eq)
    then have "s' = s" using s(1) assms(5) set_select_rows_subset unique_keyD by metis
    with s' show ?thesis using select_rows_least [of r tbl ?P order "size a" s] nin assms by auto
  qed
  with len show ?thesis by (simp add: claimed_keys_eq)
qed

end

end
