(* ===== verification/Jobs.thy ===== *)
theory Jobs
  imports Core_Types Contracts
begin

text \<open>
  Durable background jobs: \<open>jobs/models.py\<close> and \<open>jobs/service.py\<close>.

  The table \<open>jobs\<close> is a list of \<open>job\<close> records; \<open>updated_at\<close>, which no operation reads, is left
  out. Each method of \<open>JobService\<close> is a function on the table: the clock (\<open>utc_now\<close>), the
  identifiers \<open>uuid4\<close> gives and the rows other transactions have locked (\<open>FOR UPDATE SKIP LOCKED\<close>)
  are arguments. A \<open>jitter_seconds\<close> float is added exactly and rounded to a microsecond, half to
  even, as \<open>timedelta\<close> does; the rounding of the binary sum itself (below 1e-13 seconds) is not
  modelled.
\<close>

section \<open>The table\<close>

datatype job_status = JPending | JRunning | JSucceeded | JRetrying | JFailed | JCancelled

record job =
  job_id :: uuid
  job_type :: string
  job_payload :: "(pyval \<times> pyval) list"
  job_result :: "(pyval \<times> pyval) list option"
  job_idempotency_key :: string
  job_status :: job_status
  job_attempts :: int
  job_max_attempts :: int
  job_available_at :: instant
  job_started_at :: "instant option"
  job_finished_at :: "instant option"
  job_lease_expires_at :: "instant option"
  job_lease_owner :: "string option"
  job_lease_token :: "uuid option"
  job_last_error_code :: "string option"
  job_created_at :: instant

text \<open>The check and unique constraints of \<open>Job.__table_args__\<close>.\<close>

definition job_constraints :: "job list \<Rightarrow> bool" where
  "job_constraints tbl \<longleftrightarrow> unique_key job_id tbl \<and> unique_key job_idempotency_key tbl \<and>
     (\<forall>j \<in> set tbl. 0 \<le> job_attempts j \<and> 1 \<le> job_max_attempts j \<and> job_max_attempts j \<le> 100 \<and>
        job_attempts j \<le> job_max_attempts j)"

section \<open>Validation of arguments\<close>

definition job_type_re :: regex where
  "job_type_re = Seq (Cls lower) (Seq (Star (Cls lower_digit))
     (Star (Seq (Cls [(CHR ''.'', CHR ''.''), (CHR ''_'', CHR ''_''), (CHR '':'', CHR '':''), (CHR ''-'', CHR ''-'')])
        (plus_re (Cls lower_digit)))))"

definition validate_job_type :: "pyval \<Rightarrow> exn + string" where
  "validate_job_type v = (let e = Inl (ValueError ''job_type must use 1-100 safe lowercase characters'') in
     case v of VStr s \<Rightarrow> if 100 < length s \<or> \<not> fullmatch job_type_re s then e else Inr s | _ \<Rightarrow> e)"

definition validate_idempotency_key :: "pyval \<Rightarrow> exn + string" where
  "validate_idempotency_key v = (let e = Inl (ValueError ''idempotency_key must use 1-255 safe characters'') in
     case v of VStr s \<Rightarrow> if fullmatch (key_re 254) s then Inr s else e | _ \<Rightarrow> e)"

definition validate_max_attempts :: "pyval \<Rightarrow> exn + int" where
  "validate_max_attempts v = (case v of
     VInt n \<Rightarrow> if 1 \<le> n \<and> n \<le> 100 then Inr n else Inl (ValueError ''max_attempts must be between 1 and 100'')
   | _ \<Rightarrow> Inl (TypeError ''max_attempts must be an integer''))"

definition validate_limit :: "pyval \<Rightarrow> exn + int" where
  "validate_limit v = (case v of
     VInt n \<Rightarrow> if 1 \<le> n \<and> n \<le> 100 then Inr n else Inl (ValueError ''limit must be between 1 and 100'')
   | _ \<Rightarrow> Inl (TypeError ''limit must be an integer''))"

definition validate_worker :: "pyval \<Rightarrow> exn + string" where
  "validate_worker v = (let e = Inl (ValueError ''worker must use 1-100 safe characters'') in
     case v of VStr s \<Rightarrow> if fullmatch (key_re 99) s then Inr s else e | _ \<Rightarrow> e)"

definition max_lease :: duration where "max_lease = secs (24 * 3600)"

definition validate_lease :: "pyval \<Rightarrow> exn + duration" where
  "validate_lease v = (case v of
     VTimedelta d \<Rightarrow> if d \<le> 0 \<or> max_lease < d
       then Inl (ValueError ''lease must be greater than zero and at most 24 hours'') else Inr d
   | _ \<Rightarrow> Inl (TypeError ''lease must be a timedelta''))"

definition validate_error_code :: "pyval \<Rightarrow> exn + string" where
  "validate_error_code v = (let e = Inl (ValueError ''error_code must use lowercase snake case'') in
     case v of VStr s \<Rightarrow> if 100 < length s \<or> \<not> fullmatch snake_re s then e else Inr s | _ \<Rightarrow> e)"

text \<open>Seconds as microseconds: the value \<open>timedelta(seconds=v)\<close> has, for \<open>v \<ge> 0\<close>.\<close>

definition float_micros :: "int \<Rightarrow> int \<Rightarrow> duration" where
  "float_micros m e = (if 0 \<le> e then secs (m * 2 ^ nat e)
     else int (div_half_even (nat (secs m)) (2 ^ nat (- e))))"

definition float_between_0_30 :: "int \<Rightarrow> int \<Rightarrow> bool" where
  "float_between_0_30 m e \<longleftrightarrow> 0 \<le> m \<and> (if 0 \<le> e then m * 2 ^ nat e \<le> 30 else m \<le> 30 * 2 ^ nat (- e))"

definition validate_jitter :: "pyval \<Rightarrow> exn + duration" where
  "validate_jitter v = (let e = Inl (ValueError ''jitter_seconds must be between 0 and 30'') in case v of
     VInt n \<Rightarrow> if 0 \<le> n \<and> n \<le> 30 then Inr (secs n) else e
   | VFloat (Finite m x) \<Rightarrow> if float_between_0_30 m x then Inr (float_micros m x) else e
   | VFloat _ \<Rightarrow> e
   | _ \<Rightarrow> Inl (TypeError ''jitter_seconds must be a number''))"

section \<open>Operations\<close>

text \<open>
  \<open>enqueue\<close> stages a row; \<open>flush_job\<close> is the insert of the staged row, where the primary key
  (\<open>uuid4\<close>) and \<open>created_at\<close> (the server's \<open>now()\<close>) are filled in and the database checks its
  constraints.
\<close>

definition enqueue ::
  "instant \<Rightarrow> pyval \<Rightarrow> pyval \<Rightarrow> pyval \<Rightarrow> pyval \<Rightarrow> py_datetime option \<Rightarrow> uuid \<Rightarrow> instant \<Rightarrow> exn + job"
where
  "enqueue clock jt payload key max_att avail new_id created =
     bind_r (validate_job_type jt) (\<lambda>ty.
     bind_r (validate_idempotency_key key) (\<lambda>k.
     bind_r (validate_max_attempts max_att) (\<lambda>m.
     case payload of VDict d \<Rightarrow>
       bind_r (utc_or_now clock avail) (\<lambda>t.
       Inr \<lparr>job_id = new_id, job_type = ty, job_payload = d, job_result = None,
         job_idempotency_key = k, job_status = JPending, job_attempts = 0, job_max_attempts = m,
         job_available_at = t, job_started_at = None, job_finished_at = None,
         job_lease_expires_at = None, job_lease_owner = None, job_lease_token = None,
         job_last_error_code = None, job_created_at = created\<rparr>)
     | _ \<Rightarrow> Inl (TypeError ''payload must be a dictionary''))))"

definition flush_job :: "job \<Rightarrow> job list \<Rightarrow> exn + job list" where
  "flush_job j tbl = (if job_constraints (tbl @ [j]) then Inr (tbl @ [j])
     else Inl (IntegrityError ''jobs''))"

definition claimable :: "instant \<Rightarrow> job \<Rightarrow> bool" where
  "claimable t j \<longleftrightarrow> (job_status j = JPending \<or> job_status j = JRetrying) \<and>
     job_available_at j \<le> t \<and> job_attempts j < job_max_attempts j"

definition claim_order :: "job \<Rightarrow> instant \<times> instant \<times> uuid" where
  "claim_order j = (job_available_at j, job_created_at j, job_id j)"

definition claim_row :: "(uuid \<Rightarrow> uuid) \<Rightarrow> string \<Rightarrow> duration \<Rightarrow> instant \<Rightarrow> job \<Rightarrow> job" where
  "claim_row tok worker lease t j = j\<lparr>job_status := JRunning, job_attempts := job_attempts j + 1,
     job_started_at := Some t, job_finished_at := None, job_lease_owner := Some worker,
     job_lease_token := Some (tok (job_id j)), job_lease_expires_at := Some (t + lease),
     job_last_error_code := None\<rparr>"

text \<open>\<open>tok\<close> gives the token \<open>uuid4\<close> returns for each claimed row, \<open>locked\<close> the rows to skip.\<close>

definition claim_rows ::
  "(uuid \<Rightarrow> bool) \<Rightarrow> (uuid \<Rightarrow> uuid) \<times> string \<times> duration \<times> instant \<times> nat \<Rightarrow> job list \<Rightarrow> job list \<times> job list"
where
  "claim_rows locked = (\<lambda>(tok, worker, lease, t, limit) tbl.
     let rows = select_rows (\<lambda>j. claimable t j \<and> \<not> locked (job_id j)) claim_order limit tbl
     in (map (claim_row tok worker lease t) rows,
         update_ids job_id (map job_id rows) (claim_row tok worker lease t) tbl))"

definition claim ::
  "(uuid \<Rightarrow> bool) \<Rightarrow> (uuid \<Rightarrow> uuid) \<Rightarrow> instant \<Rightarrow> pyval \<Rightarrow> pyval \<Rightarrow> pyval \<Rightarrow> py_datetime option \<Rightarrow> job list \<Rightarrow>
   exn + (job list \<times> job list)"
where
  "claim locked tok clock worker lease limit now tbl =
     bind_r (validate_worker worker) (\<lambda>w.
     bind_r (validate_lease lease) (\<lambda>d.
     bind_r (validate_limit limit) (\<lambda>n.
     bind_r (utc_or_now clock now) (\<lambda>t.
     Inr (claim_rows locked (tok, w, d, t, nat n) tbl)))))"

definition holds_lease :: "uuid \<Rightarrow> instant \<Rightarrow> job \<Rightarrow> bool" where
  "holds_lease token t j \<longleftrightarrow> job_status j = JRunning \<and> job_lease_token j = Some token \<and>
     (case job_lease_expires_at j of None \<Rightarrow> False | Some x \<Rightarrow> t < x)"

definition heartbeat ::
  "instant \<Rightarrow> uuid \<Rightarrow> uuid \<Rightarrow> py_datetime \<Rightarrow> py_datetime option \<Rightarrow> job list \<Rightarrow> exn + (bool \<times> job list)"
where
  "heartbeat clock jid token expires now tbl =
     bind_r (utc_or_now clock now) (\<lambda>t.
     bind_r (require_utc (VDatetime expires)) (\<lambda>x.
     if x \<le> t then Inl (ValueError ''lease_expires_at must be in the future'')
     else let hit = (\<lambda>j. job_id j = jid \<and> holds_lease token t j)
       in Inr (0 < count_where hit tbl, update_where hit (\<lambda>j. j\<lparr>job_lease_expires_at := Some x\<rparr>) tbl)))"

definition clear_lease :: "job \<Rightarrow> job" where
  "clear_lease j = j\<lparr>job_lease_owner := None, job_lease_token := None, job_lease_expires_at := None\<rparr>"

definition complete_row :: "(pyval \<times> pyval) list option \<Rightarrow> instant \<Rightarrow> job \<Rightarrow> job" where
  "complete_row result t j = j\<lparr>job_status := JSucceeded, job_result := result, job_finished_at := Some t,
     job_lease_owner := None, job_lease_token := None, job_lease_expires_at := None,
     job_last_error_code := None\<rparr>"

definition complete_at ::
  "(pyval \<times> pyval) list option \<Rightarrow> uuid \<Rightarrow> uuid \<Rightarrow> instant \<Rightarrow> job list \<Rightarrow> bool \<times> job list"
where
  "complete_at result jid token t tbl =
     (let hit = (\<lambda>j. job_id j = jid \<and> holds_lease token t j)
      in (0 < count_where hit tbl, update_where hit (complete_row result t) tbl))"

definition complete ::
  "instant \<Rightarrow> uuid \<Rightarrow> uuid \<Rightarrow> (pyval \<times> pyval) list option \<Rightarrow> py_datetime option \<Rightarrow> job list \<Rightarrow>
   exn + (bool \<times> job list)"
where
  "complete clock jid token result now tbl =
     bind_r (utc_or_now clock now) (\<lambda>t. Inr (complete_at result jid token t tbl))"

definition max_retry_delay_seconds :: int where "max_retry_delay_seconds = 300"

definition retry_row :: "string \<times> duration \<Rightarrow> instant \<Rightarrow> job \<Rightarrow> job" where
  "retry_row ej t j = (case ej of (error_code, jitter) \<Rightarrow>
     let exhausted = job_max_attempts j \<le> job_attempts j;
         j1 = j\<lparr>job_status := if exhausted then JFailed else JRetrying\<rparr>;
         j2 = (if exhausted then j1\<lparr>job_finished_at := Some t\<rparr>
               else j1\<lparr>job_available_at :=
                         t + secs (min (2 ^ nat (job_attempts j)) max_retry_delay_seconds) + jitter,
                       job_finished_at := None\<rparr>)
     in clear_lease (j2\<lparr>job_last_error_code := Some error_code\<rparr>))"

definition retry_at :: "string \<times> duration \<Rightarrow> uuid \<Rightarrow> uuid \<Rightarrow> instant \<Rightarrow> job list \<Rightarrow> bool \<times> job list" where
  "retry_at ej jid token t tbl = (case get_row job_id tbl jid of
     None \<Rightarrow> (False, tbl)
   | Some j \<Rightarrow> if job_status j \<noteq> JRunning \<or> job_lease_token j \<noteq> Some token \<or>
                  (case job_lease_expires_at j of None \<Rightarrow> True | Some x \<Rightarrow> x \<le> t)
       then (False, tbl)
       else (True, update_ids job_id [jid] (retry_row ej t) tbl))"

definition retry ::
  "instant \<Rightarrow> uuid \<Rightarrow> uuid \<Rightarrow> pyval \<Rightarrow> pyval \<Rightarrow> py_datetime option \<Rightarrow> job list \<Rightarrow> exn + (bool \<times> job list)"
where
  "retry clock jid token error_code jitter now tbl =
     bind_r (validate_error_code error_code) (\<lambda>e.
     bind_r (validate_jitter jitter) (\<lambda>d.
     bind_r (utc_or_now clock now) (\<lambda>t. Inr (retry_at (e, d) jid token t tbl))))"

definition cancel :: "instant \<Rightarrow> uuid \<Rightarrow> py_datetime option \<Rightarrow> job list \<Rightarrow> exn + (bool \<times> job list)" where
  "cancel clock jid now tbl =
     bind_r (utc_or_now clock now) (\<lambda>t.
     let hit = (\<lambda>j. job_id j = jid \<and> (job_status j = JPending \<or> job_status j = JRetrying))
     in Inr (0 < count_where hit tbl,
             update_where hit (\<lambda>j. j\<lparr>job_status := JCancelled, job_finished_at := Some t\<rparr>) tbl))"

definition lease_expired :: "instant \<Rightarrow> job \<Rightarrow> bool" where
  "lease_expired t j \<longleftrightarrow> job_status j = JRunning \<and>
     (case job_lease_expires_at j of None \<Rightarrow> False | Some x \<Rightarrow> x \<le> t)"

definition recover_row :: "instant \<Rightarrow> job \<Rightarrow> job" where
  "recover_row t j = (let exhausted = job_max_attempts j \<le> job_attempts j in
     clear_lease (j\<lparr>job_status := if exhausted then JFailed else JRetrying, job_available_at := t,
       job_finished_at := if exhausted then Some t else None,
       job_last_error_code := Some ''lease_expired''\<rparr>))"

definition recover_rows :: "(uuid \<Rightarrow> bool) \<Rightarrow> instant \<times> nat \<Rightarrow> job list \<Rightarrow> job list \<times> job list" where
  "recover_rows locked = (\<lambda>(t, limit) tbl.
     let rows = select_rows (\<lambda>j. lease_expired t j \<and> \<not> locked (job_id j))
                  (\<lambda>j. (the (job_lease_expires_at j), job_id j)) limit tbl
     in (map (recover_row t) rows, update_ids job_id (map job_id rows) (recover_row t) tbl))"

definition recover_expired ::
  "(uuid \<Rightarrow> bool) \<Rightarrow> instant \<Rightarrow> py_datetime option \<Rightarrow> pyval \<Rightarrow> job list \<Rightarrow> exn + (int \<times> job list)"
where
  "recover_expired locked clock now limit tbl =
     bind_r (validate_limit limit) (\<lambda>n.
     bind_r (utc_or_now clock now) (\<lambda>t.
     case recover_rows locked (t, nat n) tbl of (rows, tbl') \<Rightarrow> Inr (int (length rows), tbl')))"

record job_status_view =
  jv_job_id :: uuid
  jv_job_type :: string
  jv_status :: job_status
  jv_attempts :: int
  jv_max_attempts :: int
  jv_available_at :: instant
  jv_started_at :: "instant option"
  jv_finished_at :: "instant option"
  jv_last_error_code :: "string option"

definition get_status :: "uuid \<Rightarrow> job list \<Rightarrow> job_status_view option" where
  "get_status jid tbl = map_option (\<lambda>j.
     \<lparr>jv_job_id = job_id j, jv_job_type = job_type j, jv_status = job_status j,
      jv_attempts = job_attempts j, jv_max_attempts = job_max_attempts j,
      jv_available_at = job_available_at j, jv_started_at = job_started_at j,
      jv_finished_at = job_finished_at j, jv_last_error_code = job_last_error_code j\<rparr>)
     (get_row job_id tbl jid)"

section \<open>Executions\<close>

text \<open>
  The operations as steps on the committed table, with their arguments, and the ghost events they
  emit: a row claimed under a token, completed or released by the holder of a token.
\<close>

datatype job_op =
    Do_enqueue instant pyval pyval pyval pyval "py_datetime option" uuid instant
  | Do_claim "uuid \<Rightarrow> bool" "uuid \<Rightarrow> uuid" instant pyval pyval pyval "py_datetime option"
  | Do_heartbeat instant uuid uuid py_datetime "py_datetime option"
  | Do_complete instant uuid uuid "(pyval \<times> pyval) list option" "py_datetime option"
  | Do_retry instant uuid uuid pyval pyval "py_datetime option"
  | Do_cancel instant uuid "py_datetime option"
  | Do_recover "uuid \<Rightarrow> bool" instant "py_datetime option" pyval

datatype job_event = Claimed uuid uuid | Completed uuid uuid | Released uuid uuid

definition settled_event :: "(uuid \<Rightarrow> uuid \<Rightarrow> job_event) \<Rightarrow> uuid \<Rightarrow> uuid \<Rightarrow> bool \<Rightarrow> job_event list" where
  "settled_event ev jid token done = (if done then [ev jid token] else [])"

definition claim_event :: "job \<Rightarrow> job_event" where
  "claim_event j = Claimed (job_id j) (the (job_lease_token j))"

fun job_exec :: "job_op \<Rightarrow> job list \<Rightarrow> exn + (job_event list \<times> job list)" where
  "job_exec (Do_enqueue clock jt payload key m avail new_id created) tbl =
     bind_r (enqueue clock jt payload key m avail new_id created) (\<lambda>j.
     bind_r (flush_job j tbl) (\<lambda>tbl'. Inr ([], tbl')))"
| "job_exec (Do_claim locked tok clock worker lease limit now) tbl =
     bind_r (claim locked tok clock worker lease limit now tbl) (\<lambda>(rows, tbl').
     Inr (map claim_event rows, tbl'))"
| "job_exec (Do_heartbeat clock jid token x now) tbl =
     bind_r (heartbeat clock jid token x now tbl) (\<lambda>(b, tbl'). Inr ([], tbl'))"
| "job_exec (Do_complete clock jid token result now) tbl =
     bind_r (complete clock jid token result now tbl) (\<lambda>(b, tbl').
     Inr (settled_event Completed jid token b, tbl'))"
| "job_exec (Do_retry clock jid token e d now) tbl =
     bind_r (retry clock jid token e d now tbl) (\<lambda>(b, tbl').
     Inr (settled_event Released jid token b, tbl'))"
| "job_exec (Do_cancel clock jid now) tbl =
     bind_r (cancel clock jid now tbl) (\<lambda>(b, tbl'). Inr ([], tbl'))"
| "job_exec (Do_recover locked clock now limit) tbl =
     bind_r (recover_expired locked clock now limit tbl) (\<lambda>(n, tbl'). Inr ([], tbl'))"

fun issued :: "job_event list \<Rightarrow> uuid list" where
  "issued [] = []"
| "issued (Claimed i k # es) = k # issued es"
| "issued (_ # es) = issued es"

fun settled :: "job_event list \<Rightarrow> uuid list" where
  "settled [] = []"
| "settled (Claimed i k # es) = settled es"
| "settled (Completed i k # es) = k # settled es"
| "settled (Released i k # es) = k # settled es"

fun claims_of :: "uuid \<Rightarrow> job_event list \<Rightarrow> nat" where
  "claims_of i [] = 0"
| "claims_of i (Claimed i' k # es) = (if i' = i then 1 else 0) + claims_of i es"
| "claims_of i (_ # es) = claims_of i es"

fun completions_of :: "uuid \<Rightarrow> job_event list \<Rightarrow> nat" where
  "completions_of i [] = 0"
| "completions_of i (Completed i' k # es) = (if i' = i then 1 else 0) + completions_of i es"
| "completions_of i (_ # es) = completions_of i es"

text \<open>The one assumption on \<open>uuid4\<close>: it never repeats a claim token.\<close>

definition fresh_tokens :: "job_event list \<Rightarrow> job_event list \<Rightarrow> bool" where
  "fresh_tokens es es' \<longleftrightarrow> distinct (issued es @ issued es')"

abbreviation job_run :: "job list \<Rightarrow> job_event list \<Rightarrow> bool" where
  "job_run \<equiv> run job_exec fresh_tokens []"

section \<open>The invariant\<close>

definition terminal :: "job \<Rightarrow> bool" where
  "terminal j \<longleftrightarrow> job_status j \<in> {JSucceeded, JFailed, JCancelled}"

definition attempts_ok :: "job_status \<Rightarrow> int \<Rightarrow> int \<Rightarrow> bool" where
  "attempts_ok s a m = (case s of JPending \<Rightarrow> a = 0 | JRunning \<Rightarrow> 1 \<le> a | JSucceeded \<Rightarrow> 1 \<le> a
     | JRetrying \<Rightarrow> 1 \<le> a \<and> a < m | JFailed \<Rightarrow> a = m | JCancelled \<Rightarrow> a < m)"

definition job_ok :: "job \<Rightarrow> bool" where
  "job_ok j \<longleftrightarrow>
     0 \<le> job_attempts j \<and> job_attempts j \<le> job_max_attempts j \<and>
     1 \<le> job_max_attempts j \<and> job_max_attempts j \<le> 100 \<and>
     attempts_ok (job_status j) (job_attempts j) (job_max_attempts j) \<and>
     (job_lease_token j \<noteq> None \<longleftrightarrow> job_status j = JRunning) \<and>
     (job_lease_owner j \<noteq> None \<longleftrightarrow> job_status j = JRunning) \<and>
     (job_lease_expires_at j \<noteq> None \<longleftrightarrow> job_status j = JRunning) \<and>
     (job_finished_at j \<noteq> None \<longleftrightarrow> terminal j) \<and>
     (job_started_at j = None \<longleftrightarrow> job_attempts j = 0) \<and>
     (job_result j \<noteq> None \<longrightarrow> job_status j = JSucceeded)"

definition jobs_ok :: "job list \<Rightarrow> bool" where
  "jobs_ok tbl \<longleftrightarrow> unique_key job_id tbl \<and> unique_key job_idempotency_key tbl \<and> (\<forall>j \<in> set tbl. job_ok j)"

definition row_history :: "job_event list \<Rightarrow> job \<Rightarrow> bool" where
  "row_history es j \<longleftrightarrow> int (claims_of (job_id j) es) = job_attempts j \<and>
     completions_of (job_id j) es = (if job_status j = JSucceeded then 1 else 0) \<and>
     (\<forall>k. job_lease_token j = Some k \<longrightarrow> Claimed (job_id j) k \<in> set es \<and> k \<notin> set (settled es))"

definition history_ok :: "job list \<Rightarrow> job_event list \<Rightarrow> bool" where
  "history_ok tbl es \<longleftrightarrow>
     distinct (issued es) \<and> distinct (settled es) \<and>
     (\<forall>i k. Completed i k \<in> set es \<or> Released i k \<in> set es \<longrightarrow> Claimed i k \<in> set es) \<and>
     (\<forall>i. i \<notin> job_id ` set tbl \<longrightarrow> claims_of i es = 0 \<and> completions_of i es = 0) \<and>
     (\<forall>j \<in> set tbl. row_history es j)"

definition job_inv :: "job list \<Rightarrow> job_event list \<Rightarrow> bool" where
  "job_inv tbl es \<longleftrightarrow> jobs_ok tbl \<and> history_ok tbl es"

section \<open>Preservation, one operation at a time\<close>

lemma history_simps [simp]:
  "issued (es @ es') = issued es @ issued es'"
  "settled (es @ es') = settled es @ settled es'"
  "claims_of i (es @ es') = claims_of i es + claims_of i es'"
  "completions_of i (es @ es') = completions_of i es + completions_of i es'"
  by (induction es rule: issued.induct; simp)+

lemma jobs_ok_update_where:
  assumes "jobs_ok tbl"
    and "\<And>j. P j \<Longrightarrow> job_ok j \<Longrightarrow> job_ok (f j)"
    and "\<And>j. job_id (f j) = job_id j" "\<And>j. job_idempotency_key (f j) = job_idempotency_key j"
  shows "jobs_ok (update_where P f tbl)"
  using assms by (auto simp: jobs_ok_def unique_key_update_where set_update_where)

lemma job_id_update_where:
  "(\<And>j. job_id (f j) = job_id j) \<Longrightarrow> job_id ` set (update_where P f tbl) = job_id ` set tbl"
  by (metis list.set_map map_key_update_where)

text \<open>A change that keeps attempts and success and at most gives leases up keeps the history.\<close>

lemma history_ok_update_where:
  assumes h: "history_ok tbl es"
    and f: "\<And>j. P j \<Longrightarrow> job_attempts (f j) = job_attempts j \<and>
        (job_status (f j) = JSucceeded \<longleftrightarrow> job_status j = JSucceeded) \<and>
        (job_lease_token (f j) = job_lease_token j \<or> job_lease_token (f j) = None)"
    and i: "\<And>j. job_id (f j) = job_id j"
  shows "history_ok (update_where P f tbl) es"
proof -
  have "row_history es j \<Longrightarrow> P j \<Longrightarrow> row_history es (f j)" for j
    using f [of j] i [of j] by (auto simp: row_history_def)
  then have "\<forall>j \<in> set (update_where P f tbl). row_history es j"
    using h by (intro ball_update_whereI) (auto simp: history_ok_def)
  then show ?thesis
    using h by (simp add: history_ok_def job_id_update_where [OF i])
qed

lemma in_issued: "k \<in> set (issued es) \<longleftrightarrow> (\<exists>i. Claimed i k \<in> set es)"
  by (induction es rule: issued.induct) auto

lemma in_settled: "k \<in> set (settled es) \<longleftrightarrow> (\<exists>i. Completed i k \<in> set es \<or> Released i k \<in> set es)"
  by (induction es rule: settled.induct) auto

lemma issued_once:
  "distinct (issued es) \<Longrightarrow> Claimed i k \<in> set es \<Longrightarrow> Claimed i' k \<in> set es \<Longrightarrow> i' = i"
  by (induction es rule: issued.induct) (auto simp: in_issued)

lemma settled_issued: "history_ok tbl es \<Longrightarrow> set (settled es) \<subseteq> set (issued es)"
  unfolding history_ok_def by (auto simp: in_settled in_issued; blast)

lemma held_token:
  "history_ok tbl es \<Longrightarrow> x \<in> set tbl \<Longrightarrow> job_lease_token x = Some k \<Longrightarrow>
    Claimed (job_id x) k \<in> set es \<and> k \<notin> set (settled es)"
  by (auto simp: history_ok_def row_history_def)

lemma issued_claim_events: "issued (map claim_event rows) = map (\<lambda>j. the (job_lease_token j)) rows"
  and settled_claim_events: "settled (map claim_event rows) = []"
  and completions_claim_events: "completions_of i (map claim_event rows) = 0"
  by (induction rows) (simp_all add: claim_event_def)

lemma claims_claim_events:
  "distinct (map job_id rows) \<Longrightarrow>
    claims_of i (map claim_event rows) = (if i \<in> job_id ` set rows then 1 else 0)"
  by (induction rows) (auto simp: claim_event_def)

text \<open>The holder of a token ends its lease: the one event of the step.\<close>

lemma history_ok_settle:
  assumes h: "history_ok tbl es" and u: "unique_key job_id tbl"
    and j: "j \<in> set tbl" "job_lease_token j = Some k" "job_status j \<noteq> JSucceeded"
    and e: "e = (if job_status (f j) = JSucceeded then Completed else Released) (job_id j) k"
    and f: "job_attempts (f j) = job_attempts j" "job_lease_token (f j) = None"
    and i: "\<And>j. job_id (f j) = job_id j"
    and P: "\<And>x. x \<in> set tbl \<Longrightarrow> P x \<longleftrightarrow> x = j"
  shows "history_ok (update_where P f tbl) (es @ [e])"
proof -
  from h j have c: "Claimed (job_id j) k \<in> set es" "k \<notin> set (settled es)" and d: "distinct (issued es)"
    by (auto simp: history_ok_def row_history_def)
  have "row_history (es @ [e]) (f j)"
    using h j f e i [of j] by (auto simp: history_ok_def row_history_def)
  moreover have "row_history (es @ [e]) x" if x: "x \<in> set tbl" "x \<noteq> j" for x
  proof -
    have "job_id x \<noteq> job_id j" using x j u by (auto dest: unique_keyD)
    moreover have "job_lease_token x \<noteq> Some k"
      using calculation held_token [OF h x(1)] issued_once [OF d c(1)] by blast
    ultimately show ?thesis
      using h x e by (auto simp: history_ok_def row_history_def)
  qed
  ultimately have "\<forall>x \<in> set (update_where P f tbl). row_history (es @ [e]) x"
    using P by (intro ball_update_whereI) auto
  moreover have "distinct (settled (es @ [e]))" "issued (es @ [e]) = issued es"
    using h c e by (auto simp: history_ok_def)
  moreover have "job_id j \<in> job_id ` set tbl" using j by blast
  ultimately show ?thesis
    using h c e by (auto simp: history_ok_def job_id_update_where [OF i])
qed

lemma history_ok_claim:
  assumes h: "history_ok tbl es" and u: "unique_key job_id tbl"
    and fr: "fresh_tokens es (map claim_event (map (claim_row tok w d t) rows))"
    and rows: "set rows \<subseteq> set tbl" "distinct (map job_id rows)"
      "\<And>j. j \<in> set rows \<Longrightarrow> job_status j \<noteq> JSucceeded"
  shows "history_ok (update_where (\<lambda>j. job_id j \<in> job_id ` set rows) (claim_row tok w d t) tbl)
    (es @ map claim_event (map (claim_row tok w d t) rows))" (is "history_ok ?tbl (es @ ?es)")
proof -
  let ?f = "claim_row tok w d t"
  have i: "\<And>j. job_id (?f j) = job_id j" by (simp add: claim_row_def)
  have ids: "map job_id (map ?f rows) = map job_id rows" by (simp add: i)
  have ev: "settled ?es = []" "\<And>i. completions_of i ?es = 0"
    "\<And>i. claims_of i ?es = (if i \<in> job_id ` set rows then 1 else 0)"
    unfolding settled_claim_events completions_claim_events
    using claims_claim_events [of "map ?f rows"] rows(2) ids
    by (simp_all only: list.set_map image_image i)
  have dis: "distinct (issued es @ issued ?es)" using fr by (simp only: fresh_tokens_def)
  have "row_history (es @ ?es) (?f j)" if j: "j \<in> set tbl" "job_id j \<in> job_id ` set rows" for j
  proof -
    have r: "j \<in> set rows" using j rows(1) u by (auto dest: unique_keyD)
    have c: "Claimed (job_id j) (tok (job_id j)) \<in> set ?es"
      using r by (force simp: claim_event_def claim_row_def)
    have "tok (job_id j) \<in> set (issued ?es)" using c in_issued by blast
    then have "tok (job_id j) \<notin> set (settled es)" using dis settled_issued [OF h] by auto
    with c j h ev rows(3) [OF r] show ?thesis
      by (auto simp: history_ok_def row_history_def i) (auto simp: claim_row_def)
  qed
  moreover have "row_history (es @ ?es) j" if "j \<in> set tbl" "job_id j \<notin> job_id ` set rows" for j
    using that h ev by (auto simp: history_ok_def row_history_def)
  ultimately have "\<forall>j \<in> set ?tbl. row_history (es @ ?es) j" by (intro ball_update_whereI) auto
  moreover have "\<forall>i k. Completed i k \<notin> set ?es \<and> Released i k \<notin> set ?es"
    by (auto simp: claim_event_def)
  ultimately show ?thesis
    using h ev dis rows(1) by (auto simp: history_ok_def job_id_update_where [OF i])
qed

text \<open>The rows each operation writes.\<close>

lemmas job_ok_defs = job_ok_def attempts_ok_def terminal_def

lemma validate_max_attempts_Inr: "validate_max_attempts v = Inr n \<longleftrightarrow> v = VInt n \<and> 1 \<le> n \<and> n \<le> 100"
  and validate_limit_Inr: "validate_limit v = Inr n \<longleftrightarrow> v = VInt n \<and> 1 \<le> n \<and> n \<le> 100"
  and validate_lease_Inr: "validate_lease v = Inr d \<longleftrightarrow> v = VTimedelta d \<and> 0 < d \<and> d \<le> max_lease"
  by (auto simp: validate_max_attempts_def validate_limit_def validate_lease_def split: pyval.splits)

lemma enqueue_ok: "enqueue clock jt payload key m avail i c = Inr j \<Longrightarrow>
    job_ok j \<and> job_attempts j = 0 \<and> job_lease_token j = None \<and> job_status j = JPending"
  by (cases payload)
    (auto simp: enqueue_def result_simps validate_max_attempts_Inr job_ok_defs)

lemma claim_row_ok: "claimable t j \<Longrightarrow> job_ok j \<Longrightarrow> job_ok (claim_row tok w d t j)"
  by (auto simp: claim_row_def claimable_def job_ok_defs)

lemma complete_row_ok: "holds_lease k t j \<Longrightarrow> job_ok j \<Longrightarrow> job_ok (complete_row r t j)"
  by (auto simp: complete_row_def holds_lease_def job_ok_defs)

lemma retry_row_ok: "holds_lease k t j \<Longrightarrow> job_ok j \<Longrightarrow> job_ok (retry_row ej t j)"
  by (auto simp: retry_row_def holds_lease_def clear_lease_def job_ok_defs Let_def split: prod.splits)

lemma recover_row_ok: "lease_expired t j \<Longrightarrow> job_ok j \<Longrightarrow> job_ok (recover_row t' j)"
  by (auto simp: recover_row_def lease_expired_def clear_lease_def job_ok_defs Let_def)

lemma retry_row_frame [simp]: "job_id (retry_row ej t j) = job_id j"
  "job_idempotency_key (retry_row ej t j) = job_idempotency_key j"
  "job_attempts (retry_row ej t j) = job_attempts j" "job_lease_token (retry_row ej t j) = None"
  "job_status (retry_row ej t j) \<noteq> JSucceeded"
  by (auto simp: retry_row_def clear_lease_def Let_def split: prod.splits)

lemma recover_row_frame [simp]: "job_id (recover_row t j) = job_id j"
  "job_idempotency_key (recover_row t j) = job_idempotency_key j"
  "job_attempts (recover_row t j) = job_attempts j" "job_lease_token (recover_row t j) = None"
  "job_status (recover_row t j) \<noteq> JSucceeded"
  by (auto simp: recover_row_def clear_lease_def Let_def)

lemma complete_row_frame [simp]: "job_id (complete_row r t j) = job_id j"
  "job_idempotency_key (complete_row r t j) = job_idempotency_key j"
  "job_attempts (complete_row r t j) = job_attempts j" "job_lease_token (complete_row r t j) = None"
  "job_status (complete_row r t j) = JSucceeded"
  by (simp_all add: complete_row_def)

lemma claim_row_frame [simp]: "job_id (claim_row tok w d t j) = job_id j"
  "job_idempotency_key (claim_row tok w d t j) = job_idempotency_key j"
  by (simp_all add: claim_row_def)

text \<open>\<open>complete\<close> is an \<open>UPDATE\<close>, \<open>retry\<close> a locked read and a change: both are the same fence.\<close>

lemma retry_at_update:
  assumes "unique_key job_id tbl"
  shows "retry_at ej jid token t tbl =
    (\<exists>j \<in> set tbl. job_id j = jid \<and> holds_lease token t j,
     update_where (\<lambda>j. job_id j = jid \<and> holds_lease token t j) (retry_row ej t) tbl)"
proof (cases "get_row job_id tbl jid")
  case None
  then have "\<forall>j \<in> set tbl. job_id j \<noteq> jid" by (auto simp: get_row_None_iff)
  then have "update_where (\<lambda>j. job_id j = jid \<and> holds_lease token t j) (retry_row ej t) tbl = tbl"
    by (intro update_where_none) auto
  then show ?thesis using None \<open>\<forall>j \<in> set tbl. job_id j \<noteq> jid\<close> by (auto simp: retry_at_def)
next
  case (Some j)
  then have j: "j \<in> set tbl" "job_id j = jid" by (auto dest: get_row_SomeD)
  with assms have only: "x \<in> set tbl \<Longrightarrow> job_id x = jid \<longleftrightarrow> x = j" for x by (auto dest: unique_keyD)
  show ?thesis
  proof (cases "holds_lease token t j")
    case True
    then have "retry_at ej jid token t tbl = (True, update_ids job_id [jid] (retry_row ej t) tbl)"
      using Some by (auto simp: retry_at_def holds_lease_def split: option.splits)
    moreover have "update_ids job_id [jid] (retry_row ej t) tbl =
        update_where (\<lambda>j. job_id j = jid \<and> holds_lease token t j) (retry_row ej t) tbl"
      unfolding update_ids_def by (rule update_where_cong) (use only True in auto)
    ultimately show ?thesis using j True by auto
  next
    case False
    then have "retry_at ej jid token t tbl = (False, tbl)"
      using Some by (auto simp: retry_at_def holds_lease_def split: option.splits)
    then show ?thesis using only False by (auto intro!: update_where_none [symmetric])
  qed
qed

interpretation job_complete: lease_fence job_id holds_lease complete_at complete_row
  by unfold_locales
    (auto simp: complete_at_def Let_def count_where_pos_iff holds_lease_def)

interpretation job_retry: lease_fence job_id holds_lease retry_at retry_row
  by unfold_locales (auto simp: retry_at_update holds_lease_def)

interpretation job_claims: batch_claim job_id "\<lambda>tbl. claimable t" "\<lambda>locked (tok, w, d, n). claim_rows locked (tok, w, d, t, n)"
  "\<lambda>(tok, w, d, n). claim_row tok w d t" claim_order "\<lambda>(tok, w, d, n). n" for t
  by unfold_locales (auto simp: claim_rows_def Let_def split: prod.splits)

text \<open>One preservation lemma per operation.\<close>

lemma job_inv_enqueue:
  assumes "job_inv tbl es" "enqueue clock jt payload key m avail i c = Inr j" "flush_job j tbl = Inr tbl'"
  shows "job_inv tbl' es"
proof -
  have t: "tbl' = tbl @ [j]" "unique_key job_id tbl'" "unique_key job_idempotency_key tbl'"
    using assms(3) by (auto simp: flush_job_def job_constraints_def split: if_splits)
  have "job_id j \<notin> job_id ` set tbl" using t by (simp add: unique_key_append_row)
  with t assms(1) enqueue_ok [OF assms(2)] show ?thesis
    by (auto simp: job_inv_def jobs_ok_def history_ok_def row_history_def)
qed

lemma job_inv_update_where:
  assumes "job_inv tbl es"
    and "\<And>j. P j \<Longrightarrow> job_ok j \<Longrightarrow> job_ok (f j)"
    and "\<And>j. job_id (f j) = job_id j" "\<And>j. job_idempotency_key (f j) = job_idempotency_key j"
    and "\<And>j. P j \<Longrightarrow> job_attempts (f j) = job_attempts j \<and>
        (job_status (f j) = JSucceeded \<longleftrightarrow> job_status j = JSucceeded) \<and>
        (job_lease_token (f j) = job_lease_token j \<or> job_lease_token (f j) = None)"
  shows "job_inv (update_where P f tbl) es"
  using assms by (simp add: job_inv_def jobs_ok_update_where history_ok_update_where)

lemma job_inv_heartbeat:
  "job_inv tbl es \<Longrightarrow> heartbeat clock jid k x now tbl = Inr (b, tbl') \<Longrightarrow> job_inv tbl' es"
  by (auto simp: heartbeat_def result_simps Let_def job_ok_defs holds_lease_def
      split: if_splits option.splits intro!: job_inv_update_where)

lemma job_inv_cancel:
  "job_inv tbl es \<Longrightarrow> cancel clock jid now tbl = Inr (b, tbl') \<Longrightarrow> job_inv tbl' es"
  by (auto simp: cancel_def result_simps Let_def job_ok_defs intro!: job_inv_update_where)

lemma job_inv_recover:
  assumes "job_inv tbl es" "recover_expired locked clock now limit tbl = Inr (n, tbl')"
  shows "job_inv tbl' es"
proof -
  obtain t l where "tbl' = snd (recover_rows locked (t, l) tbl)"
    using assms(2) by (auto simp: recover_expired_def result_simps case_prod_unfold)
  moreover have "unique_key job_id tbl" using assms(1) by (simp add: job_inv_def jobs_ok_def)
  ultimately show ?thesis using assms(1)
    by (auto simp: recover_rows_def Let_def update_ids_selected lease_expired_def
        intro!: job_inv_update_where recover_row_ok)
qed

lemma job_inv_claim:
  assumes "job_inv tbl es" "claim locked tok clock worker lease limit now tbl = Inr (rows, tbl')"
    and "fresh_tokens es (map claim_event rows)"
  shows "job_inv tbl' (es @ map claim_event rows)"
proof -
  obtain w d t n where c: "claim_rows locked (tok, w, d, t, n) tbl = (rows, tbl')"
    using assms(2) by (auto simp: claim_def result_simps)
  let ?sel = "select_rows (\<lambda>j. claimable t j \<and> \<not> locked (job_id j)) claim_order n tbl"
  have u: "unique_key job_id tbl" and ok: "jobs_ok tbl" and h: "history_ok tbl es"
    using assms(1) by (auto simp: job_inv_def jobs_ok_def)
  have rows: "rows = map (claim_row tok w d t) ?sel"
    and tbl': "tbl' = update_ids job_id (map job_id ?sel) (claim_row tok w d t) tbl"
    using c by (auto simp: claim_rows_def Let_def)
  have sel: "set ?sel \<subseteq> set tbl" "distinct (map job_id ?sel)"
    "\<And>j. j \<in> set ?sel \<Longrightarrow> job_status j \<noteq> JSucceeded"
    using u by (auto dest!: set_select_rows_subset simp: distinct_select_rows claimable_def)
  have "jobs_ok tbl'"
    unfolding tbl' update_ids_selected [OF u] by (rule jobs_ok_update_where [OF ok]) (auto simp: claim_row_ok)
  moreover have "history_ok tbl' (es @ map claim_event rows)"
    using history_ok_claim [OF h u _ sel] assms(3) by (simp add: rows tbl' update_ids_def)
  ultimately show ?thesis by (simp add: job_inv_def)
qed

lemma job_inv_settle:
  assumes inv: "job_inv tbl es"
    and row: "\<And>j. holds_lease k t j \<Longrightarrow> job_ok j \<Longrightarrow> job_ok (f j)"
    and frame: "\<And>j. job_id (f j) = job_id j" "\<And>j. job_idempotency_key (f j) = job_idempotency_key j"
      "\<And>j. job_attempts (f j) = job_attempts j" "\<And>j. job_lease_token (f j) = None"
    and ev: "\<And>j. ev = (if job_status (f j) = JSucceeded then Completed else Released)"
  shows "job_inv (update_where (\<lambda>j. job_id j = jid \<and> holds_lease k t j) f tbl)
    (es @ settled_event ev jid k (\<exists>j \<in> set tbl. job_id j = jid \<and> holds_lease k t j))"
    (is "job_inv ?tbl _")
proof (cases "\<exists>j \<in> set tbl. job_id j = jid \<and> holds_lease k t j")
  case True
  then obtain j where j: "j \<in> set tbl" "job_id j = jid" "holds_lease k t j" by blast
  have u: "unique_key job_id tbl" and ok: "jobs_ok tbl" and h: "history_ok tbl es"
    using inv by (auto simp: job_inv_def jobs_ok_def)
  have "jobs_ok ?tbl" by (rule jobs_ok_update_where [OF ok]) (use row frame in auto)
  moreover have "history_ok ?tbl (es @ [ev jid k])"
  proof (rule history_ok_settle [OF h u j(1)])
    show "job_id x = jid \<and> holds_lease k t x \<longleftrightarrow> x = j" if "x \<in> set tbl" for x
      using that j u by (auto dest: unique_keyD)
  qed (use j frame ev [of j] in \<open>auto simp: holds_lease_def\<close>)
  ultimately show ?thesis using True by (simp add: job_inv_def settled_event_def)
next
  case False
  then have "?tbl = tbl" by (intro update_where_none) auto
  then show ?thesis using inv False by (auto simp: settled_event_def)
qed

lemma unique_job_inv: "job_inv tbl es \<Longrightarrow> unique_key job_id tbl"
  by (simp add: job_inv_def jobs_ok_def)

interpretation job_runs: run_invariant job_exec fresh_tokens "[]" job_inv
proof
  show "job_inv [] []" by (simp add: job_inv_def jobs_ok_def history_ok_def unique_key_def)
next
  fix tbl es op es' tbl'
  assume inv: "job_inv tbl es" and ex: "job_exec op tbl = Inr (es', tbl')" and fr: "fresh_tokens es es'"
  note u = unique_job_inv [OF inv]
  show "job_inv tbl' (es @ es')"
  proof (cases op)
    case (Do_complete clock jid token result now)
    with ex inv show ?thesis
      by (auto simp: result_simps complete_def job_complete.settle_def [OF u]
          intro!: job_inv_settle complete_row_ok)
  next
    case (Do_retry clock jid token e d now)
    with ex inv show ?thesis
      by (auto simp: result_simps retry_def job_retry.settle_def [OF u]
          intro!: job_inv_settle retry_row_ok)
  next
    case (Do_claim locked tok clock worker lease limit now)
    with ex fr inv show ?thesis by (auto simp: result_simps intro: job_inv_claim)
  qed (use ex inv in \<open>auto simp: result_simps
        intro: job_inv_enqueue job_inv_heartbeat job_inv_cancel job_inv_recover\<close>)
qed

section \<open>Delays\<close>

lemma div_half_even_le: "0 < d \<Longrightarrow> c \<le> k * d \<Longrightarrow> div_half_even c d \<le> k"
proof -
  assume d: "0 < d" and c: "c \<le> k * d"
  show ?thesis
  proof (cases "c = k * d")
    case True
    then show ?thesis using d by (simp add: div_half_even_def)
  next
    case False
    then have "c div d < k" using c d by (simp add: div_less_iff_less_mult)
    then show ?thesis by (auto simp: div_half_even_def Let_def)
  qed
qed

lemma validate_jitter_bounds: "validate_jitter v = Inr d \<Longrightarrow> 0 \<le> d \<and> d \<le> secs 30"
proof (induction v rule: pyval.induct)
  case (VFloat f)
  then obtain m e where f: "f = Finite m e" and b: "float_between_0_30 m e" and d: "d = float_micros m e"
    by (cases f) (auto simp: validate_jitter_def split: if_splits)
  show ?case
  proof (cases "0 \<le> e")
    case True
    then show ?thesis using b d by (simp add: float_between_0_30_def float_micros_def secs_def)
  next
    case False
    then have "nat (secs m) \<le> 30000000 * 2 ^ nat (- e)"
      using b by (simp add: float_between_0_30_def secs_def nat_le_iff)
    then have "div_half_even (nat (secs m)) (2 ^ nat (- e)) \<le> 30000000" by (simp add: div_half_even_le)
    then have "int (div_half_even (nat (secs m)) (2 ^ nat (- e))) \<le> 30000000" by linarith
    then show ?thesis using False d by (simp add: float_micros_def secs_def)
  qed
qed (auto simp: validate_jitter_def secs_def split: if_splits)

lemma backoff_bounds: "1 \<le> a \<Longrightarrow>
    secs 2 \<le> secs (min (2 ^ nat a) max_retry_delay_seconds) \<and>
    secs (min (2 ^ nat a) max_retry_delay_seconds) \<le> secs 300"
proof -
  assume "1 \<le> a"
  then have "(2::int) ^ 1 \<le> 2 ^ nat a" by (intro power_increasing) auto
  then show ?thesis by (simp add: max_retry_delay_seconds_def)
qed

section \<open>A concrete execution\<close>

text \<open>One job is enqueued, claimed by worker \<open>w\<close> under token 7, and completed.\<close>

definition demo_ops :: "job_op list" where
  "demo_ops = [Do_enqueue 0 (VStr ''a'') (VDict []) (VStr ''k'') (VInt 2) None 1 0,
     Do_claim (\<lambda>_. False) (\<lambda>_. 7) 10 (VStr ''w'') (VTimedelta 100) (VInt 1) None]"

definition demo_job :: job where
  "demo_job = \<lparr>job_id = 1, job_type = ''a'', job_payload = [], job_result = None,
     job_idempotency_key = ''k'', job_status = JRunning, job_attempts = 1, job_max_attempts = 2,
     job_available_at = 0, job_started_at = Some 10, job_finished_at = None,
     job_lease_expires_at = Some 110, job_lease_owner = Some ''w'', job_lease_token = Some 7,
     job_last_error_code = None, job_created_at = 0\<rparr>"

definition demo_due :: "uuid \<Rightarrow> instant \<Rightarrow> job" where
  "demo_due i t = demo_job\<lparr>job_id := i, job_status := JPending, job_attempts := 0, job_available_at := t,
     job_started_at := None, job_lease_expires_at := None, job_lease_owner := None, job_lease_token := None\<rparr>"

lemmas job_op_defs = enqueue_def flush_job_def claim_def claim_rows_def heartbeat_def complete_def
  complete_at_def retry_def retry_at_def cancel_def recover_expired_def recover_rows_def

lemmas job_eval = job_op_defs validate_job_type_def validate_idempotency_key_def validate_max_attempts_def
  validate_limit_def validate_worker_def validate_lease_def max_lease_def utc_or_now_def require_utc_def
  job_type_re_def regex_eval job_constraints_def unique_key_def claimable_def claim_row_def
  select_rows_def update_ids_def update_where_def claim_event_def fresh_tokens_def secs_def

lemma demo_run: "job_run [demo_job] [Claimed 1 7]"
proof (rule run_opsI)
  show "run_ops job_exec fresh_tokens demo_ops ([], []) = Some ([demo_job], [Claimed 1 7])"
    by (simp add: demo_ops_def demo_job_def job_eval Let_def)
qed

lemma demo_complete:
  "job_exec (Do_complete 20 1 7 None None) [demo_job] =
     Inr ([Completed 1 7], [complete_row None 20 demo_job])"
  by (simp add: job_eval demo_job_def holds_lease_def count_where_def settled_event_def)

section \<open>Properties\<close>

text \<open>
  C10: every table the job service can reach, by any sequence of its operations, is well formed. The
  primary and idempotency keys are unique; \<open>attempts\<close> stays between 0 and \<open>max_attempts\<close>, is 0
  exactly before the first claim, and equals \<open>max_attempts\<close> on a failed job; a token, an owner and
  an expiry are present exactly on running jobs; \<open>finished_at\<close> is set exactly on terminal jobs; and
  a result is stored only with success.
\<close>

theorem jobs_reachable_ok:
  assumes "job_run tbl es"
  shows "unique_key job_id tbl \<and> unique_key job_idempotency_key tbl \<and> (\<forall>j \<in> set tbl. job_ok j)"
  using job_runs.run_inv [OF assms] by (simp add: job_inv_def jobs_ok_def)

theorem jobs_reachable_ok_witness:
  "unique_key job_id [demo_job] \<and> job_ok demo_job"
  using jobs_reachable_ok [OF demo_run] by simp

text \<open>
  C11: in every execution a claim token ends at most one lease, and it is one that was granted for
  the same job; a job is completed at most once, exactly when its row is \<open>succeeded\<close>; and a job is
  claimed exactly \<open>attempts\<close> times, so never more than \<open>max_attempts\<close>.
\<close>

theorem job_history_exact:
  assumes "job_run tbl es"
  shows "distinct (settled es) \<and>
    (\<forall>i k. Completed i k \<in> set es \<or> Released i k \<in> set es \<longrightarrow> Claimed i k \<in> set es) \<and>
    (\<forall>j \<in> set tbl. completions_of (job_id j) es = (if job_status j = JSucceeded then 1 else 0) \<and>
       int (claims_of (job_id j) es) = job_attempts j \<and>
       int (claims_of (job_id j) es) \<le> job_max_attempts j)"
  using job_runs.run_inv [OF assms]
  by (auto simp: job_inv_def history_ok_def row_history_def jobs_ok_def job_ok_def)

theorem job_history_exact_witness:
  "distinct (settled [Claimed 1 7, Completed 1 7]) \<and>
    completions_of (job_id (complete_row None 20 demo_job)) [Claimed 1 7, Completed 1 7] = 1"
proof -
  have "job_run [complete_row None 20 demo_job] ([Claimed 1 7] @ [Completed 1 7])"
    using demo_run demo_complete by (rule run_step) (simp add: fresh_tokens_def)
  from job_history_exact [OF this] show ?thesis by simp
qed

text \<open>
  \<open>complete\<close> and \<open>retry\<close> are fenced by the lease. At time \<open>t\<close> either returns true exactly when
  the job is running under that very token and the lease has not expired; otherwise the table is
  unchanged. Either way no other job changes. Once one of them has returned true, neither can
  return true again on that job with any token at any time until the job is claimed anew.
\<close>

lemma job_lease_fenced:
  assumes "unique_key job_id tbl"
    and "op = complete_at result \<or> op = retry_at ej" and "op jid token t tbl = (b, tbl')"
  shows "(b \<longleftrightarrow> (\<exists>j \<in> set tbl. job_id j = jid \<and> job_status j = JRunning \<and>
            job_lease_token j = Some token \<and> (\<exists>x. job_lease_expires_at j = Some x \<and> t < x))) \<and>
    (\<not> b \<longrightarrow> tbl' = tbl) \<and>
    (\<forall>i. i \<noteq> jid \<longrightarrow> get_row job_id tbl' i = get_row job_id tbl i) \<and>
    (b \<longrightarrow> (\<forall>result' ej' token' t'. \<not> fst (complete_at result' jid token' t' tbl') \<and>
       \<not> fst (retry_at ej' jid token' t' tbl')))"
proof -
  note u = assms(1)
  have live: "holds_lease token t j \<longleftrightarrow> job_status j = JRunning \<and> job_lease_token j = Some token \<and>
      (\<exists>x. job_lease_expires_at j = Some x \<and> t < x)" for j
    by (auto simp: holds_lease_def split: option.splits)
  have spec: "unique_key job_id tbl' \<and> (b \<longleftrightarrow> (\<exists>j \<in> set tbl. job_id j = jid \<and> holds_lease token t j)) \<and>
      (\<not> b \<longrightarrow> tbl' = tbl) \<and> (\<forall>i. i \<noteq> jid \<longrightarrow> get_row job_id tbl' i = get_row job_id tbl i) \<and>
      (b \<longrightarrow> (\<forall>token' t'. \<not> (\<exists>j \<in> set tbl'. job_id j = jid \<and> holds_lease token' t' j)))"
    using assms(2)
  proof
    assume "op = complete_at result"
    with assms(3) have "complete_at result jid token t tbl = (b, tbl')" by simp
    from job_complete.settle_spec [OF u this] show ?thesis by blast
  next
    assume "op = retry_at ej"
    with assms(3) have "retry_at ej jid token t tbl = (b, tbl')" by simp
    from job_retry.settle_spec [OF u this] show ?thesis by blast
  qed
  then show ?thesis
    by (simp add: live job_complete.settle_iff job_retry.settle_iff)
qed

text \<open>
  A claim takes the first due jobs. With valid arguments it returns at most \<open>limit\<close> jobs, each
  of them one that was pending or retrying, due, within its attempts and not locked, now running
  under its own token until \<open>now + lease\<close>; a due job that is free and was left out comes, in the order
  of \<open>available_at\<close>, \<open>created_at\<close>, \<open>id\<close>, after everything taken and only because the limit was
  reached; and a concurrent claim that skips those jobs as locked takes none of them.
\<close>

lemma job_claim_spec:
  assumes u: "unique_key job_id tbl"
    and c: "claim locked tok clock worker lease limit (Some (Aware t off)) tbl = Inr (rows, tbl')"
  shows "\<exists>n d w. limit = VInt n \<and> lease = VTimedelta d \<and> worker = VStr w \<and> length rows \<le> nat n \<and>
    (\<forall>r \<in> set rows. \<exists>j \<in> set tbl. claimable t j \<and> \<not> locked (job_id j) \<and> r = claim_row tok w d t j \<and>
       get_row job_id tbl' (job_id j) = Some r) \<and>
    (\<forall>j \<in> set tbl. claimable t j \<and> \<not> locked (job_id j) \<and> job_id j \<notin> job_id ` set rows \<longrightarrow>
       length rows = nat n \<and>
       (\<forall>s \<in> set tbl. job_id s \<in> job_id ` set rows \<longrightarrow> claim_order s \<le> claim_order j)) \<and>
    (\<forall>locked' tok' w' d' n'. (\<forall>r \<in> set rows. locked' (job_id r)) \<longrightarrow>
       job_id ` set rows \<inter> job_id ` set (fst (claim_rows locked' (tok', w', d', t, n') tbl)) = {})"
proof -
  obtain n d w where a: "limit = VInt n" "lease = VTimedelta d" "worker = VStr w"
    and cr: "claim_rows locked (tok, w, d, t, nat n) tbl = (rows, tbl')"
    using c by (cases worker) (auto simp: claim_def result_simps validate_limit_Inr validate_lease_Inr
        validate_worker_def utc_or_now_def require_utc_def split: if_splits)
  let ?a = "(tok, w, d, nat n)"
  let ?sel = "select_rows (\<lambda>j. claimable t j \<and> \<not> locked (job_id j)) claim_order (nat n) tbl"
  have keys: "job_claims.claimed_keys t locked ?a tbl = map job_id rows"
    by (simp add: job_claims.claimed_keys_def cr)
  have rows: "rows = map (claim_row tok w d t) ?sel"
    and tbl': "tbl' = update_ids job_id (map job_id ?sel) (claim_row tok w d t) tbl"
    using cr by (auto simp: claim_rows_def Let_def)
  have row: "\<exists>j \<in> set tbl. claimable t j \<and> \<not> locked (job_id j) \<and> r = claim_row tok w d t j \<and>
      get_row job_id tbl' (job_id j) = Some r" if "r \<in> set rows" for r
  proof -
    from that rows obtain j where j: "j \<in> set ?sel" "r = claim_row tok w d t j" by auto
    from j(1) have jt: "j \<in> set tbl" "claimable t j \<and> \<not> locked (job_id j)"
      using set_select_rows_subset by metis+
    have "get_row job_id tbl (job_id j) = Some j" using u jt by (simp add: get_row_unique)
    then have "get_row job_id tbl' (job_id j) = Some r" using j by (simp add: tbl' get_row_update_ids)
    with j jt show ?thesis by blast
  qed
  have least: "length rows = nat n \<and>
       (\<forall>s \<in> set tbl. job_id s \<in> job_id ` set rows \<longrightarrow> claim_order s \<le> claim_order j)"
    if "j \<in> set tbl" "claimable t j" "\<not> locked (job_id j)" "job_id j \<notin> job_id ` set rows" for j
    using job_claims.claim_least [of j tbl t locked ?a] that u unfolding keys by simp
  have disj: "job_id ` set rows \<inter> job_id ` set (fst (claim_rows locked' (tok', w', d', t, n') tbl)) = {}"
    if "\<forall>r \<in> set rows. locked' (job_id r)" for locked' tok' w' d' n'
  proof -
    have "\<And>k. k \<in> set (map job_id rows) \<Longrightarrow> locked' k" using that by auto
    from job_claims.claims_disjoint [of t locked ?a tbl locked' "(tok', w', d', n')", unfolded keys, OF this]
    show ?thesis by (simp add: job_claims.claimed_keys_def)
  qed
  have "length rows \<le> nat n" using job_claims.claim_bounded [of t locked ?a tbl] unfolding keys by simp
  with a row least disj show ?thesis by blast
qed

text \<open>
  A failed attempt is retried with bounded exponential backoff, or the job is given up. When
  \<open>retry\<close> returns true at time \<open>t\<close>, the job gives up its lease and keeps the error code; if its
  attempts are used up it is failed for good, otherwise it is retrying and cannot be claimed before
  \<open>t + min(2^attempts, 300) s + jitter\<close>, which is at least two seconds and at most five and a half
  minutes away.
\<close>

lemma job_retry_backoff:
  assumes ok: "jobs_ok tbl" and r: "get_row job_id tbl jid = Some j"
    and c: "retry clock jid token e jitter (Some (Aware t off)) tbl = Inr (True, tbl')"
  shows "\<exists>j' err. get_row job_id tbl' jid = Some j' \<and> e = VStr err \<and> job_last_error_code j' = Some err \<and>
    job_lease_token j' = None \<and> job_attempts j' = job_attempts j \<and>
    (if job_attempts j = job_max_attempts j then job_status j' = JFailed \<and> job_finished_at j' = Some t
     else job_status j' = JRetrying \<and>
       (\<exists>d. 0 \<le> d \<and> d \<le> secs 30 \<and>
          job_available_at j' = t + secs (min (2 ^ nat (job_attempts j)) 300) + d) \<and>
       t + secs 2 \<le> job_available_at j' \<and> job_available_at j' \<le> t + secs 330 \<and>
       (\<forall>t'. claimable t' j' \<longleftrightarrow> job_available_at j' \<le> t'))"
proof -
  from c obtain err d where e: "e = VStr err" and d: "validate_jitter jitter = Inr d"
    and at: "retry_at (err, d) jid token t tbl = (True, tbl')"
    by (cases e) (auto simp: retry_def result_simps utc_or_now_def require_utc_def validate_error_code_def
        split: if_splits)
  have j: "j \<in> set tbl" and id: "job_id j = jid" using r by (auto dest: get_row_SomeD)
  have u: "unique_key job_id tbl" and jok: "job_ok j" using ok j by (auto simp: jobs_ok_def)
  have live: "holds_lease token t j"
    using at r by (auto simp: retry_at_def holds_lease_def split: if_splits option.splits)
  have tbl': "get_row job_id tbl' jid = Some (retry_row (err, d) t j)"
    using at r by (auto simp: retry_at_def get_row_update_ids split: if_splits)
  have a: "1 \<le> job_attempts j" "job_attempts j \<le> job_max_attempts j"
    using jok live by (auto simp: job_ok_defs holds_lease_def)
  show ?thesis
    using tbl' e a backoff_bounds [OF a(1)] validate_jitter_bounds [OF d]
    by (auto simp: retry_row_def Let_def clear_lease_def claimable_def max_retry_delay_seconds_def secs_def)
qed

text \<open>
  C12: no job is lost. In a reachable table a job that is not terminal is either claimable from some
  time on, or runs under a lease with an expiry; when the lease expires, a recovery pass whose limit
  covers the expired jobs, and which finds the row unlocked, makes it claimable at once, or fails it
  if its attempts are used up.
\<close>

theorem job_never_stuck:
  assumes run: "job_run tbl es" and r: "get_row job_id tbl i = Some j" and "\<not> terminal j"
  shows "(job_status j \<noteq> JRunning \<and> (\<forall>t. claimable t j \<longleftrightarrow> job_available_at j \<le> t)) \<or>
    (\<exists>x. job_status j = JRunning \<and> job_lease_expires_at j = Some x \<and>
      (\<forall>t n m tbl' locked. x \<le> t \<longrightarrow> int (count_where (lease_expired t) tbl) \<le> n \<longrightarrow> \<not> locked i \<longrightarrow>
         recover_expired locked 0 (Some (Aware t 0)) (VInt n) tbl = Inr (m, tbl') \<longrightarrow>
         (\<exists>j'. get_row job_id tbl' i = Some j' \<and>
            (if job_attempts j = job_max_attempts j then job_status j' = JFailed
             else \<forall>t' \<ge> t. claimable t' j'))))"
proof -
  have inv: "jobs_ok tbl" using job_runs.run_inv [OF run] by (simp add: job_inv_def)
  have j: "j \<in> set tbl" "job_id j = i" using r by (auto dest: get_row_SomeD)
  have ok: "job_ok j" and u: "unique_key job_id tbl" using inv j by (auto simp: jobs_ok_def)
  show ?thesis
  proof (cases "job_status j = JRunning")
    case False
    then show ?thesis using ok assms(3) by (cases "job_status j") (auto simp: job_ok_defs claimable_def)
  next
    case True
    then obtain x where x: "job_lease_expires_at j = Some x" using ok by (auto simp: job_ok_def)
    have "\<exists>j'. get_row job_id tbl' i = Some j' \<and>
            (if job_attempts j = job_max_attempts j then job_status j' = JFailed
             else \<forall>t' \<ge> t. claimable t' j')"
      if t: "x \<le> t" and n: "int (count_where (lease_expired t) tbl) \<le> n" and free: "\<not> locked i"
        and rec: "recover_expired locked 0 (Some (Aware t 0)) (VInt n) tbl = Inr (m, tbl')"
      for t n m tbl' locked
    proof -
      let ?P = "\<lambda>j. lease_expired t j \<and> \<not> locked (job_id j)"
      let ?sel = "select_rows ?P (\<lambda>j. (the (job_lease_expires_at j), job_id j)) (nat n) tbl"
      have P: "?P j" using True x t free j by (simp add: lease_expired_def)
      have "length (filter ?P tbl) \<le> count_where (lease_expired t) tbl"
        unfolding count_where_def filter_filter [symmetric] by (rule length_filter_le)
      then have "length (filter ?P tbl) \<le> nat n" using n by linarith
      then have "j \<in> set ?sel" using j P by (simp add: select_rows_def)
      then have "get_row job_id tbl' i = Some (recover_row t j)"
        using rec r j by (auto simp: recover_expired_def recover_rows_def result_simps validate_limit_Inr
            utc_or_now_def require_utc_def Let_def get_row_update_ids)
      then show ?thesis
        using ok by (auto simp: recover_row_def clear_lease_def Let_def claimable_def job_ok_def)
    qed
    with True x show ?thesis by blast
  qed
qed

theorem job_never_stuck_witness:
  "\<exists>j'. get_row job_id [recover_row 110 demo_job] 1 = Some j' \<and> claimable 110 j'"
proof -
  have r: "get_row job_id [demo_job] 1 = Some demo_job" by (simp add: get_row_def demo_job_def)
  have nt: "\<not> terminal demo_job" by (simp add: terminal_def demo_job_def)
  have rec: "recover_expired (\<lambda>_. False) 0 (Some (Aware 110 0)) (VInt 1) [demo_job] =
      Inr (1, [recover_row 110 demo_job])"
    by (simp add: job_eval demo_job_def lease_expired_def)
  have st: "job_status demo_job = JRunning" "job_lease_expires_at demo_job = Some 110"
    "job_attempts demo_job = 1" "job_max_attempts demo_job = 2"
    by (simp_all add: demo_job_def)
  have cnt: "int (count_where (lease_expired 110) [demo_job]) \<le> 1"
    by (simp add: count_where_def)
  have all: "\<exists>j'. get_row job_id tbl' 1 = Some j' \<and> (\<forall>t' \<ge> t. claimable t' j')"
    if "110 \<le> t" "int (count_where (lease_expired t) [demo_job]) \<le> n" "\<not> locked 1"
      "recover_expired locked 0 (Some (Aware t 0)) (VInt n) [demo_job] = Inr (m, tbl')" for t n m tbl' locked
    using job_never_stuck [OF demo_run r nt, unfolded st] that by auto
  show ?thesis using all [OF order_refl cnt _ rec] by auto
qed

text \<open>
  Succeeded, failed and cancelled are final: whatever operation runs next, the row of a terminal
  job is exactly what it was, whoever calls with whichever token.
\<close>

lemma terminal_jobs_final:
  assumes ok: "jobs_ok tbl" and r: "get_row job_id tbl i = Some j" and t: "terminal j"
    and ex: "job_exec op tbl = Inr (es, tbl')"
  shows "get_row job_id tbl' i = Some j"
proof -
  have u: "unique_key job_id tbl" using ok by (simp add: jobs_ok_def)
  have keep: "get_row job_id (update_where P f tbl) i = Some j"
    if "\<And>j. job_id (f j) = job_id j" "\<And>j. P j \<Longrightarrow> \<not> terminal j" for P f
    using that t r by (auto simp: get_row_update_where)
  note idle = holds_lease_def claimable_def lease_expired_def terminal_def
  show ?thesis
  proof (cases op)
    case (Do_enqueue clock jt payload key m avail new_id created)
    then obtain j' where "tbl' = tbl @ [j']"
      using ex by (auto simp: result_simps flush_job_def split: if_splits)
    then show ?thesis using r by (auto simp: get_row_def find_Some_iff nth_append) 
  next
    case (Do_claim locked tok clock worker lease limit now)
    then show ?thesis using ex
      by (auto simp: result_simps claim_def claim_rows_def Let_def update_ids_selected [OF u] idle intro!: keep)
  next
    case (Do_heartbeat clock jid token x now)
    then show ?thesis using ex
      by (auto simp: result_simps heartbeat_def Let_def idle intro!: keep split: if_splits)
  next
    case (Do_complete clock jid token result now)
    then show ?thesis using ex
      by (auto simp: result_simps complete_def complete_at_def Let_def idle intro!: keep)
  next
    case (Do_retry clock jid token e d now)
    then show ?thesis using ex
      by (auto simp: result_simps retry_def retry_at_update [OF u] idle intro!: keep)
  next
    case (Do_cancel clock jid now)
    then show ?thesis using ex by (auto simp: result_simps cancel_def Let_def idle intro!: keep)
  next
    case (Do_recover locked clock now limit)
    then show ?thesis using ex
      by (auto simp: result_simps recover_expired_def recover_rows_def Let_def update_ids_selected [OF u] idle
          intro!: keep)
  qed
qed

end
