(* ===== verification/Outbox.thy ===== *)
theory Outbox
  imports Domain_Events Contracts
begin

text \<open>
  The transactional outbox: the table (\<open>outbox/model.py\<close>), delivery outcomes
  (\<open>outbox/outcomes.py\<close>), the retry policy (\<open>outbox/retry.py\<close>), the worker settings
  (\<open>outbox/settings.py\<close>) and the repository of ordinary, unleased deliveries
  (\<open>outbox/repository.py\<close>).

  The columns \<open>created_at\<close> and \<open>updated_at\<close>, which no operation reads, are left out. JSON columns
  give back what was stored in them. As for jobs, the clock, fresh identifiers and locked rows are
  arguments.
\<close>

section \<open>The table\<close>

datatype outbox_status =
  OPending | OProcessing | OPublished | OFailed | ODead | OSkipped | OUncertain | OBlocked

record outbox_message =
  om_id :: uuid
  om_event_id :: uuid
  om_idempotency_key :: string
  om_event_type :: string
  om_aggregate_type :: string
  om_aggregate_id :: uuid
  om_aggregate_version :: int
  om_occurred_at :: instant
  om_payload :: "(string \<times> pyval) list"
  om_status :: outbox_status
  om_attempts :: int
  om_available_at :: instant
  om_claimed_at :: "instant option"
  om_published_at :: "instant option"
  om_last_error_code :: "string option"
  om_claim_token :: "uuid option"
  om_lease_expires_at :: "instant option"
  om_delivery_fingerprint :: "string option"
  om_delivery_receipts :: "string \<rightharpoonup> string"
  om_retry_budget :: int
  om_deadline_at :: "instant option"

record worker_control =
  wc_worker_group :: string
  wc_paused :: bool
  wc_heartbeat_at :: instant

text \<open>The constraints of \<open>OutboxMessage.__table_args__\<close> on one row and on the table.\<close>

definition lease_pair_valid :: "outbox_message \<Rightarrow> bool" where
  "lease_pair_valid m \<longleftrightarrow> (om_claim_token m = None \<and> om_lease_expires_at m = None) \<or>
     (om_claim_token m \<noteq> None \<and> om_lease_expires_at m \<noteq> None)"

definition outbox_constraints :: "outbox_message list \<Rightarrow> bool" where
  "outbox_constraints tbl \<longleftrightarrow> unique_key om_id tbl \<and> unique_key om_event_id tbl \<and>
     unique_key om_idempotency_key tbl \<and>
     (\<forall>m \<in> set tbl. 0 < om_aggregate_version m \<and> 0 \<le> om_attempts m \<and> 0 < om_retry_budget m \<and>
        lease_pair_valid m)"

definition to_event :: "outbox_message \<Rightarrow> exn + domain_event" where
  "to_event m = mk_domain_event (VUuid (om_event_id m)) (VStr (om_event_type m)) (VStr (om_aggregate_type m))
     (VUuid (om_aggregate_id m)) (VInt (om_aggregate_version m))
     (VDatetime (Aware (om_occurred_at m) 0)) (VDict (str_items (om_payload m)))"

section \<open>Outcomes and the retry policy\<close>

datatype outcome_kind = Accepted | Retry | Permanent | Skipped | Uncertain | Blocked

record delivery_outcome =
  do_kind :: outcome_kind
  do_code :: string
  do_retry_after :: int
  do_receipts :: "string \<rightharpoonup> string"

definition outcome_code_re :: regex where
  "outcome_code_re = Seq (Cls lower) (ClsRep (lower_digit @ [(CHR ''_'', CHR ''_'')]) 0 99)"

definition mk_delivery_outcome ::
  "outcome_kind \<Rightarrow> string \<Rightarrow> int \<Rightarrow> (string \<rightharpoonup> string) \<Rightarrow> exn + delivery_outcome" where
  "mk_delivery_outcome kind cd retry_after receipts =
     (if \<not> fullmatch outcome_code_re cd then Inl (ValueError ''use a safe delivery result code'')
      else if \<not> (0 \<le> retry_after \<and> retry_after \<le> 3600)
        then Inl (ValueError ''retry_after must be between 0 and 3600'')
      else Inr \<lparr>do_kind = kind, do_code = cd, do_retry_after = retry_after, do_receipts = receipts\<rparr>)"

record outbox_settings =
  ws_max_attempts :: int
  ws_poll_micros :: duration
  ws_retry_base_seconds :: int
  ws_retry_max_seconds :: int
  ws_prepare_seconds :: int
  ws_send_seconds :: int
  ws_lease_seconds :: int
  ws_max_age_seconds :: int

text \<open>The field bounds and \<open>validate_retry_window\<close>; pydantic's \<open>ValidationError\<close> is a \<open>ValueError\<close>.\<close>

definition validate_settings :: "outbox_settings \<Rightarrow> exn + outbox_settings" where
  "validate_settings s =
     bind_r (require (1 \<le> ws_max_attempts s \<and> ws_max_attempts s \<le> 100 \<and>
        millis 100 \<le> ws_poll_micros s \<and> ws_poll_micros s \<le> secs 60 \<and>
        1 \<le> ws_retry_base_seconds s \<and> ws_retry_base_seconds s \<le> 300 \<and>
        1 \<le> ws_retry_max_seconds s \<and> ws_retry_max_seconds s \<le> 3600 \<and>
        1 \<le> ws_prepare_seconds s \<and> ws_prepare_seconds s \<le> 30 \<and>
        1 \<le> ws_send_seconds s \<and> ws_send_seconds s \<le> 60 \<and>
        30 \<le> ws_lease_seconds s \<and> ws_lease_seconds s \<le> 300 \<and>
        60 \<le> ws_max_age_seconds s \<and> ws_max_age_seconds s \<le> 82800)
       (ValueError ''field out of range'')) (\<lambda>_.
     if ws_retry_max_seconds s < ws_retry_base_seconds s
     then Inl (ValueError ''retry_max_seconds must be at least retry_base_seconds'')
     else if ws_lease_seconds s \<le> ws_prepare_seconds s + ws_send_seconds s + 30
     then Inl (ValueError ''lease must cover bounded work and finalization margin'')
     else Inr s)"

definition default_settings :: outbox_settings where
  "default_settings = \<lparr>ws_max_attempts = 5, ws_poll_micros = secs 1, ws_retry_base_seconds = 30,
     ws_retry_max_seconds = 300, ws_prepare_seconds = 10, ws_send_seconds = 20, ws_lease_seconds = 120,
     ws_max_age_seconds = 3600\<rparr>"

text \<open>
  \<open>rnd c\<close> is the sample \<open>SystemRandom().uniform(0, c)\<close> gives, in microseconds; that it lies between
  0 and \<open>c\<close> seconds is what the delay bounds assume of it.
\<close>

definition retry_ceiling :: "int \<Rightarrow> outbox_settings \<Rightarrow> int" where
  "retry_ceiling attempt s =
     min (ws_retry_max_seconds s) (ws_retry_base_seconds s * 2 ^ nat (min (attempt - 1) 20))"

definition next_delay ::
  "(int \<Rightarrow> duration) \<Rightarrow> int \<Rightarrow> delivery_outcome \<Rightarrow> outbox_settings \<Rightarrow> exn + duration" where
  "next_delay rnd attempt result s =
     (if attempt < 1 then Inl (ValueError ''attempt starts at one'')
      else Inr (max (secs 1) (max (rnd (retry_ceiling attempt s)) (secs (do_retry_after result)))))"

definition next_status :: "delivery_outcome \<Rightarrow> int \<Rightarrow> int \<Rightarrow> outbox_status" where
  "next_status result attempt max_attempts =
     (if do_kind result = Accepted then OPublished
      else if do_kind result = Skipped then OSkipped
      else if do_kind result = Blocked then OBlocked
      else if do_kind result = Permanent then ODead
      else if max_attempts \<le> attempt then (if do_kind result = Uncertain then OUncertain else ODead)
      else OFailed)"

section \<open>The repository of ordinary deliveries\<close>

definition ob_validate_idempotency_key :: "pyval \<Rightarrow> exn + string" where
  "ob_validate_idempotency_key v = (let e = Inl (ValueError ''idempotency_key must use 1-255 safe characters'') in
     case v of VStr s \<Rightarrow> if fullmatch (key_re 254) s then Inr s else e | _ \<Rightarrow> e)"

definition ob_validate_error_code :: "pyval \<Rightarrow> exn + string" where
  "ob_validate_error_code v = (let e = Inl (ValueError ''error_code must use lowercase snake case'') in
     case v of VStr s \<Rightarrow> if 100 < length s \<or> \<not> fullmatch snake_re s then e else Inr s | _ \<Rightarrow> e)"

definition ob_validate_limit :: "pyval \<Rightarrow> exn + int" where
  "ob_validate_limit v = (case v of
     VInt n \<Rightarrow> if 1 \<le> n \<and> n \<le> 100 then Inr n else Inl (ValueError ''limit must be between 1 and 100'')
   | _ \<Rightarrow> Inl (TypeError ''limit must be an integer''))"

text \<open>\<open>OutboxRepository(session, max_attempts=...)\<close> keeps the validated number of attempts.\<close>

definition outbox_repository :: "pyval \<Rightarrow> exn + int" where
  "outbox_repository max_attempts = (case max_attempts of
     VInt n \<Rightarrow> if 1 \<le> n \<and> n \<le> 100 then Inr n else Inl (ValueError ''max_attempts must be between 1 and 100'')
   | _ \<Rightarrow> Inl (TypeError ''max_attempts must be an integer''))"

text \<open>\<open>add\<close> stages the row; \<open>flush_message\<close> inserts it. \<open>new_id\<close> is the primary key \<open>uuid4\<close> gives.\<close>

definition add ::
  "domain_event \<Rightarrow> pyval \<Rightarrow> py_datetime option \<Rightarrow> uuid \<Rightarrow> exn + outbox_message" where
  "add e key avail new_id =
     bind_r (ob_validate_idempotency_key
        (if key = VNone then VStr (''event:'' @ uuid_str (ev_event_id e)) else key)) (\<lambda>k.
     bind_r (utc_or_now (ev_occurred_at e) avail) (\<lambda>t.
     Inr \<lparr>om_id = new_id, om_event_id = ev_event_id e, om_idempotency_key = k,
       om_event_type = ev_event_type e, om_aggregate_type = ev_aggregate_type e,
       om_aggregate_id = ev_aggregate_id e, om_aggregate_version = ev_aggregate_version e,
       om_occurred_at = ev_occurred_at e, om_payload = payload_dict e, om_status = OPending,
       om_attempts = 0, om_available_at = t, om_claimed_at = None, om_published_at = None,
       om_last_error_code = None, om_claim_token = None, om_lease_expires_at = None,
       om_delivery_fingerprint = None, om_delivery_receipts = Map.empty, om_retry_budget = 5,
       om_deadline_at = None\<rparr>))"

definition flush_message :: "outbox_message \<Rightarrow> outbox_message list \<Rightarrow> exn + outbox_message list" where
  "flush_message m tbl = (if outbox_constraints (tbl @ [m]) then Inr (tbl @ [m])
     else Inl (IntegrityError ''outbox_messages''))"

definition validate_event_types :: "pyval \<Rightarrow> exn + string list option" where
  "validate_event_types v = (case v of
     VNone \<Rightarrow> Inr None
   | VTuple vs \<Rightarrow>
       if vs = [] then Inl (ValueError ''event_types must be a non-empty tuple or None'')
       else if list_ex (\<lambda>x. case x of VStr s \<Rightarrow> 100 < length s \<or> \<not> fullmatch snake_re s | _ \<Rightarrow> True) vs
         then Inl (ValueError ''event_types must contain safe event names'')
       else Inr (Some (map (\<lambda>x. case x of VStr s \<Rightarrow> s | _ \<Rightarrow> []) vs))
   | _ \<Rightarrow> Inl (ValueError ''event_types must be a non-empty tuple or None''))"

definition earlier_version :: "outbox_message \<Rightarrow> outbox_message \<Rightarrow> bool" where
  "earlier_version e m \<longleftrightarrow> om_aggregate_type e = om_aggregate_type m \<and>
     om_aggregate_id e = om_aggregate_id m \<and> om_aggregate_version e < om_aggregate_version m"

definition batch_due ::
  "int \<Rightarrow> instant \<Rightarrow> string list option \<Rightarrow> outbox_message list \<Rightarrow> outbox_message \<Rightarrow> bool" where
  "batch_due max_attempts t types tbl m \<longleftrightarrow>
     (om_status m = OPending \<or> om_status m = OFailed) \<and> om_attempts m < max_attempts \<and>
     om_claim_token m = None \<and> om_event_type m \<noteq> ''email_challenge_requested'' \<and>
     om_available_at m \<le> t \<and>
     \<not> list_ex (\<lambda>e. earlier_version e m \<and> om_status e \<noteq> OPublished) tbl \<and>
     (case types of None \<Rightarrow> True | Some ts \<Rightarrow> om_event_type m \<in> set ts)"

definition batch_order :: "outbox_message \<Rightarrow> instant \<times> instant \<times> uuid" where
  "batch_order m = (om_available_at m, om_occurred_at m, om_id m)"

definition batch_row :: "instant \<Rightarrow> outbox_message \<Rightarrow> outbox_message" where
  "batch_row t m = m\<lparr>om_status := OProcessing, om_attempts := om_attempts m + 1, om_claimed_at := Some t,
     om_published_at := None, om_last_error_code := None\<rparr>"

definition claim_batch_rows ::
  "(uuid \<Rightarrow> bool) \<Rightarrow> int \<times> instant \<times> string list option \<times> nat \<Rightarrow> outbox_message list \<Rightarrow>
   outbox_message list \<times> outbox_message list" where
  "claim_batch_rows locked = (\<lambda>(max_attempts, t, types, limit) tbl.
     let rows = select_rows (\<lambda>m. batch_due max_attempts t types tbl m \<and> \<not> locked (om_id m)) batch_order limit tbl
     in (map (batch_row t) rows, update_ids om_id (map om_id rows) (batch_row t) tbl))"

definition claim_batch ::
  "int \<Rightarrow> (uuid \<Rightarrow> bool) \<Rightarrow> instant \<Rightarrow> pyval \<Rightarrow> py_datetime option \<Rightarrow> pyval \<Rightarrow> outbox_message list \<Rightarrow>
   exn + (outbox_message list \<times> outbox_message list)" where
  "claim_batch max_attempts locked clock limit now event_types tbl =
     bind_r (ob_validate_limit limit) (\<lambda>n.
     bind_r (validate_event_types event_types) (\<lambda>types.
     bind_r (utc_or_now clock now) (\<lambda>t.
     Inr (claim_batch_rows locked (max_attempts, t, types, nat n) tbl))))"

definition mark_published ::
  "instant \<Rightarrow> uuid \<Rightarrow> py_datetime option \<Rightarrow> outbox_message list \<Rightarrow> exn + (bool \<times> outbox_message list)" where
  "mark_published clock mid published_at tbl = (case get_row om_id tbl mid of
     None \<Rightarrow> Inr (False, tbl)
   | Some m \<Rightarrow>
       if om_status m = OPublished then Inr (False, tbl)
       else if om_claim_token m \<noteq> None then Inr (False, tbl)
       else if om_status m \<noteq> OProcessing then Inr (False, tbl)
       else bind_r (utc_or_now clock published_at) (\<lambda>t.
         Inr (True, update_ids om_id [mid] (\<lambda>m. m\<lparr>om_status := OPublished, om_claimed_at := None,
           om_published_at := Some t, om_last_error_code := None\<rparr>) tbl)))"

definition mark_failed ::
  "uuid \<Rightarrow> pyval \<Rightarrow> py_datetime \<Rightarrow> outbox_message list \<Rightarrow> exn + (bool \<times> outbox_message list)" where
  "mark_failed mid error_code available_at tbl =
     bind_r (ob_validate_error_code error_code) (\<lambda>e.
     bind_r (require_utc (VDatetime available_at)) (\<lambda>t.
     case get_row om_id tbl mid of
       None \<Rightarrow> Inr (False, tbl)
     | Some m \<Rightarrow>
         if om_status m \<noteq> OProcessing then Inr (False, tbl)
         else Inr (True, update_ids om_id [mid] (\<lambda>m. m\<lparr>om_status := OFailed, om_claimed_at := None,
           om_published_at := None, om_last_error_code := Some e, om_available_at := t\<rparr>) tbl)))"

definition stale_claim :: "instant \<Rightarrow> outbox_message \<Rightarrow> bool" where
  "stale_claim t m \<longleftrightarrow> om_status m = OProcessing \<and>
     (case om_claimed_at m of None \<Rightarrow> False | Some c \<Rightarrow> c \<le> t) \<and> om_claim_token m = None"

definition stale_row :: "instant \<Rightarrow> outbox_message \<Rightarrow> outbox_message" where
  "stale_row t m = m\<lparr>om_status := OFailed, om_claimed_at := None, om_published_at := None,
     om_last_error_code := Some ''claim_expired'', om_available_at := t\<rparr>"

definition recover_stale_claims ::
  "(uuid \<Rightarrow> bool) \<Rightarrow> instant \<Rightarrow> py_datetime \<Rightarrow> py_datetime option \<Rightarrow> pyval \<Rightarrow> outbox_message list \<Rightarrow>
   exn + (int \<times> outbox_message list)" where
  "recover_stale_claims locked clock stale_before available_at limit tbl =
     bind_r (ob_validate_limit limit) (\<lambda>n.
     bind_r (require_utc (VDatetime stale_before)) (\<lambda>b.
     bind_r (utc_or_now clock available_at) (\<lambda>t.
     let rows = select_rows (\<lambda>m. stale_claim b m \<and> \<not> locked (om_id m))
                  (\<lambda>m. (the (om_claimed_at m), om_id m)) (nat n) tbl
     in Inr (int (length rows), update_ids om_id (map om_id rows) (stale_row t) tbl))))"

text \<open>A message for concrete runs.\<close>

definition demo_message :: "uuid \<Rightarrow> int \<Rightarrow> outbox_status \<Rightarrow> outbox_message" where
  "demo_message i v st = \<lparr>om_id = i, om_event_id = i, om_idempotency_key = uuid_str i,
     om_event_type = ''paid'', om_aggregate_type = ''order'', om_aggregate_id = 1,
     om_aggregate_version = v, om_occurred_at = 0, om_payload = [], om_status = st,
     om_attempts = 0, om_available_at = 0, om_claimed_at = None, om_published_at = None,
     om_last_error_code = None, om_claim_token = None, om_lease_expires_at = None,
     om_delivery_fingerprint = None, om_delivery_receipts = Map.empty, om_retry_budget = 5,
     om_deadline_at = None\<rparr>"

section \<open>Facts\<close>

lemma ob_validate_limit_Inr: "ob_validate_limit v = Inr n \<longleftrightarrow> v = VInt n \<and> 1 \<le> n \<and> n \<le> 100"
  by (auto simp: ob_validate_limit_def split: pyval.splits)

lemma default_key_valid:
  "ob_validate_idempotency_key (VStr (''event:'' @ uuid_str x)) = Inr (''event:'' @ uuid_str x)"
proof -
  have "fullmatch (key_re 254) (''event:'' @ uuid_str x)"
    using uuid_str_class [of x] unfolding key_re_iff
    by (intro exI [of _ "CHR ''e''"] exI [of _ "''vent:'' @ uuid_str x"])
      (simp add: in_class_def alnum_key_def alnum_def)
  then show ?thesis by (simp add: ob_validate_idempotency_key_def Let_def)
qed

lemma batch_row_frame [simp]: "om_id (batch_row t m) = om_id m"
  "om_idempotency_key (batch_row t m) = om_idempotency_key m" "om_event_id (batch_row t m) = om_event_id m"
  by (simp_all add: batch_row_def)

interpretation batch_claims: batch_claim om_id "\<lambda>tbl m. batch_due k t types tbl m"
  "\<lambda>locked n. claim_batch_rows locked (k, t, types, n)" "\<lambda>n. batch_row t" batch_order "\<lambda>n. n"
  for k t types
  by unfold_locales (simp_all add: claim_batch_rows_def)

lemma retry_ceiling_bounds:
  assumes "validate_settings s = Inr s'" and "1 \<le> a"
  shows "1 \<le> retry_ceiling a s \<and> retry_ceiling a s \<le> 3600"
proof -
  have s: "1 \<le> ws_retry_base_seconds s" "1 \<le> ws_retry_max_seconds s" "ws_retry_max_seconds s \<le> 3600"
    using assms(1) by (auto simp: validate_settings_def result_simps)
  have "1 * 1 \<le> ws_retry_base_seconds s * 2 ^ nat (min (a - 1) 20)"
    using s by (intro mult_mono) auto
  then show ?thesis using s by (simp add: retry_ceiling_def)
qed

section \<open>Properties\<close>

text \<open>
  C20: what is delivered is what was published. Staging a valid event with the default key always
  succeeds, and the row, whatever key and availability were chosen, turns back into exactly the same
  event when a worker reads it.
\<close>

theorem outbox_event_roundtrip:
  assumes "mk_domain_event eid et aty aid ver occ pay = Inr e"
  shows "(\<exists>m. add e VNone None i = Inr m) \<and>
    (\<forall>key avail m. add e key avail i = Inr m \<longrightarrow> to_event m = Inr e \<and> om_status m = OPending)"
proof -
  have "\<exists>m. add e VNone None i = Inr m"
    using default_key_valid [of "ev_event_id e"] by (simp add: add_def utc_or_now_def require_utc_def)
  moreover have "to_event m = Inr e \<and> om_status m = OPending" if "add e key avail i = Inr m" for key avail m
    using that event_rebuild [OF assms] by (auto simp: add_def result_simps to_event_def)
  ultimately show ?thesis by blast
qed

theorem outbox_event_roundtrip_witness:
  "\<exists>e m. mk_domain_event (VUuid 1) (VStr ''paid'') (VStr ''order'') (VUuid 2) (VInt 1)
       (VDatetime (Aware 0 0)) (VDict [(VStr ''lines'', VList [VInt 1])]) = Inr e \<and>
     add e VNone None 9 = Inr m \<and> to_event m = Inr e"
proof -
  have "\<exists>e. mk_domain_event (VUuid 1) (VStr ''paid'') (VStr ''order'') (VUuid 2) (VInt 1)
       (VDatetime (Aware 0 0)) (VDict [(VStr ''lines'', VList [VInt 1])]) = Inr e"
    by (simp add: mk_domain_event_def validate_type_def require_utc_def freeze_value.simps
        validate_payload_key_def sensitive_payload_key_def event_sensitive_key_parts_def
        max_payload_depth_def max_payload_values_def max_payload_string_length_def regex_eval)
  then obtain e where e: "mk_domain_event (VUuid 1) (VStr ''paid'') (VStr ''order'') (VUuid 2) (VInt 1)
       (VDatetime (Aware 0 0)) (VDict [(VStr ''lines'', VList [VInt 1])]) = Inr e" by blast
  from outbox_event_roundtrip [OF e, of 9] e show ?thesis by blast
qed

text \<open>
  A batch claim keeps the order of each aggregate. Every message it returns was pending or
  failed, due, unleased and below the attempts limit, and every message of the same aggregate with a
  smaller version was already published; the batch respects the limit, and one message is returned
  before a later version of the same aggregate in any batch.
\<close>

lemma claim_batch_ordered:
  assumes u: "unique_key om_id tbl"
    and c: "claim_batch k locked clock limit now types tbl = Inr (rows, tbl')"
  shows "\<exists>n t. limit = VInt n \<and> length rows \<le> nat n \<and> distinct (map om_id rows) \<and>
    (\<forall>r \<in> set rows. \<exists>m \<in> set tbl. r = batch_row t m \<and> get_row om_id tbl' (om_id m) = Some r \<and>
       (om_status m = OPending \<or> om_status m = OFailed) \<and> om_available_at m \<le> t \<and> om_claim_token m = None \<and>
       om_attempts r \<le> k \<and> \<not> locked (om_id m) \<and>
       (\<forall>e \<in> set tbl. earlier_version e m \<longrightarrow> om_status e = OPublished \<and> om_id e \<notin> om_id ` set rows))"
proof -
  obtain n t ts where n: "limit = VInt n" and cr: "claim_batch_rows locked (k, t, ts, nat n) tbl = (rows, tbl')"
    using c by (auto simp: claim_batch_def result_simps ob_validate_limit_Inr)
  let ?due = "\<lambda>m. batch_due k t ts tbl m \<and> \<not> locked (om_id m)"
  let ?sel = "select_rows ?due batch_order (nat n) tbl"
  have keys: "batch_claims.claimed_keys k t ts locked (nat n) tbl = map om_id rows"
    by (simp add: batch_claims.claimed_keys_def cr)
  have rows: "rows = map (batch_row t) ?sel"
    and tbl': "tbl' = update_ids om_id (map om_id ?sel) (batch_row t) tbl"
    using cr by (auto simp: claim_batch_rows_def Let_def)
  have row: "\<exists>m \<in> set tbl. r = batch_row t m \<and> get_row om_id tbl' (om_id m) = Some r \<and> ?due m"
    if "r \<in> set rows" for r
  proof -
    from that rows obtain m where m: "m \<in> set ?sel" "r = batch_row t m" by auto
    then have mt: "m \<in> set tbl" "?due m" using set_select_rows_subset by metis+
    have "get_row om_id tbl' (om_id m) = Some r"
      using m get_row_unique [OF u mt(1)] by (simp add: tbl' get_row_update_ids)
    with m mt show ?thesis by blast
  qed
  have unpub: "om_status e \<noteq> OPublished" if "e \<in> set tbl" "om_id e \<in> om_id ` set rows" for e
  proof -
    from that row obtain m where "m \<in> set tbl" "om_id m = om_id e" "?due m" by fastforce
    then have "m = e" using that u by (auto dest: unique_keyD)
    with \<open>?due m\<close> show ?thesis by (auto simp: batch_due_def)
  qed
  have len: "length rows \<le> nat n" "distinct (map om_id rows)"
    using batch_claims.claim_bounded [of k t ts locked "nat n" tbl]
      batch_claims.claim_distinct [OF u, of k t ts locked "nat n"] unfolding keys by simp_all
  have "\<exists>m \<in> set tbl. r = batch_row t m \<and> get_row om_id tbl' (om_id m) = Some r \<and>
       (om_status m = OPending \<or> om_status m = OFailed) \<and> om_available_at m \<le> t \<and> om_claim_token m = None \<and>
       om_attempts r \<le> k \<and> \<not> locked (om_id m) \<and>
       (\<forall>e \<in> set tbl. earlier_version e m \<longrightarrow> om_status e = OPublished \<and> om_id e \<notin> om_id ` set rows)"
    if r: "r \<in> set rows" for r
  proof -
    from row [OF r] obtain m where m: "m \<in> set tbl" "r = batch_row t m"
      "get_row om_id tbl' (om_id m) = Some r" "?due m" by blast
    have "\<forall>e \<in> set tbl. earlier_version e m \<longrightarrow> om_status e = OPublished"
      using m(4) by (auto simp: batch_due_def list_ex_iff)
    with m unpub show ?thesis by (intro bexI [of _ m]) (auto simp: batch_due_def batch_row_def)
  qed
  with n len show ?thesis by blast
qed

text \<open>
  The retry policy is bounded and the attempts are finite. For validated settings and a sampler
  within its range, the delay after any attempt is at least one second, at least what the provider
  asked for, and at most an hour; a delivery is retried only below the attempts limit, and then
  exactly when the outcome is a retry or an uncertain one.
\<close>

lemma retry_policy_bounded:
  assumes "validate_settings s = Inr s'" and "mk_delivery_outcome k cd ra rc = Inr r" and "1 \<le> a"
    and "\<And>c. 0 \<le> c \<Longrightarrow> 0 \<le> rnd c \<and> rnd c \<le> secs c"
  shows "\<exists>d. next_delay rnd a r s = Inr d \<and> secs 1 \<le> d \<and> secs ra \<le> d \<and> d \<le> secs 3600 \<and>
    (next_status r a m = OFailed \<longleftrightarrow> a < m \<and> k \<in> {Retry, Uncertain}) \<and>
    next_status r a m \<notin> {OPending, OProcessing}"
proof -
  have r: "do_retry_after r = ra" "do_kind r = k" "0 \<le> ra" "ra \<le> 3600"
    using assms(2) by (auto simp: mk_delivery_outcome_def split: if_splits)
  have "rnd (retry_ceiling a s) \<le> secs 3600"
    using retry_ceiling_bounds [OF assms(1,3)] assms(4) [of "retry_ceiling a s"]
    by (simp add: secs_def)
  then have "\<exists>d. next_delay rnd a r s = Inr d \<and> secs 1 \<le> d \<and> secs ra \<le> d \<and> d \<le> secs 3600"
    using r assms(3) by (simp add: next_delay_def)
  moreover have "(next_status r a m = OFailed \<longleftrightarrow> a < m \<and> k \<in> {Retry, Uncertain}) \<and>
      next_status r a m \<notin> {OPending, OProcessing}"
    using r(2) by (cases k) (auto simp: next_status_def)
  ultimately show ?thesis by blast
qed

end
