(* ===== verification/Leased_Outbox.thy ===== *)
theory Leased_Outbox
  imports Outbox
begin

text \<open>
  Leased deliveries: \<open>outbox/leased_repository.py\<close>. The repository works on the message table and the
  table of worker controls. \<open>now()\<close> is the database clock, read anew by each statement that uses
  \<open>clock_timestamp()\<close>: \<open>owned\<close> is given the time \<open>t\<close> its query reads, and \<open>bind\<close> and \<open>finish\<close> the
  later time \<open>now\<close> they read after it. \<open>token\<close> is what \<open>uuid4\<close> returns.
\<close>

section \<open>Operations\<close>

record outbox_db =
  ob_messages :: "outbox_message list"
  ob_controls :: "worker_control list"

record delivery_claim =
  cl_message_id :: uuid
  cl_token :: uuid
  cl_event :: "domain_event option"
  cl_attempts :: int
  cl_retry_budget :: int
  cl_deadline :: instant
  cl_receipts :: "string \<rightharpoonup> string"

text \<open>\<open>row.delivery_fingerprint\<close> as a condition: neither \<open>None\<close> nor empty.\<close>

definition has_fingerprint :: "outbox_message \<Rightarrow> bool" where
  "has_fingerprint m = (case om_delivery_fingerprint m of None \<Rightarrow> False | Some f \<Rightarrow> f \<noteq> [])"

definition lease_over :: "instant \<Rightarrow> outbox_message \<Rightarrow> bool" where
  "lease_over now m \<longleftrightarrow> om_status m = OProcessing \<and>
     (case om_lease_expires_at m of None \<Rightarrow> False | Some x \<Rightarrow> x \<le> now)"

definition budget_expired :: "instant \<Rightarrow> string list \<Rightarrow> outbox_message \<Rightarrow> bool" where
  "budget_expired now types m \<longleftrightarrow> om_event_type m \<in> set types \<and>
     (lease_over now m \<or> om_status m = OPending \<or> om_status m = OFailed) \<and>
     (om_retry_budget m \<le> om_attempts m \<or>
      (case om_deadline_at m of None \<Rightarrow> False | Some d \<Rightarrow> d \<le> now))"

definition expire_row :: "outbox_message \<Rightarrow> outbox_message" where
  "expire_row m = m\<lparr>om_status := if has_fingerprint m then OUncertain else ODead,
     om_last_error_code := Some ''delivery_budget_expired'', om_claim_token := None,
     om_lease_expires_at := None\<rparr>"

definition expire_rows ::
  "(uuid \<Rightarrow> bool) \<Rightarrow> instant \<Rightarrow> string list \<Rightarrow> outbox_message list \<Rightarrow> outbox_message list" where
  "expire_rows locked now types tbl =
     (let expired = select_rows (\<lambda>m. budget_expired now types m \<and> \<not> locked (om_id m)) om_id 100 tbl
      in update_ids om_id (map om_id expired) expire_row tbl)"

definition leased_due :: "instant \<Rightarrow> string list \<Rightarrow> outbox_message list \<Rightarrow> outbox_message \<Rightarrow> bool" where
  "leased_due now types tbl m \<longleftrightarrow> om_event_type m \<in> set types \<and>
     ((om_status m = OPending \<or> om_status m = OFailed) \<and> om_available_at m \<le> now \<or> lease_over now m) \<and>
     om_attempts m < om_retry_budget m \<and>
     \<not> list_ex (\<lambda>e. earlier_version e m \<and> om_status e \<noteq> OPublished \<and> om_status e \<noteq> OSkipped) tbl"

definition claim_deadline :: "instant \<Rightarrow> outbox_settings \<Rightarrow> outbox_message \<Rightarrow> instant" where
  "claim_deadline now s m = min
     (case om_deadline_at m of Some d \<Rightarrow> d | None \<Rightarrow> now + secs (ws_max_age_seconds s))
     (om_occurred_at m + secs (ws_max_age_seconds s))"

definition too_old_row :: "instant \<Rightarrow> outbox_message \<Rightarrow> outbox_message" where
  "too_old_row deadline m = m\<lparr>om_deadline_at := Some deadline,
     om_status := if has_fingerprint m then OUncertain else ODead,
     om_last_error_code := Some ''delivery_too_old''\<rparr>"

definition lease_row :: "instant \<Rightarrow> uuid \<Rightarrow> outbox_settings \<Rightarrow> outbox_message \<Rightarrow> outbox_message" where
  "lease_row now token s m = m\<lparr>om_deadline_at := Some (claim_deadline now s m),
     om_retry_budget := if om_attempts m = 0 then ws_max_attempts s else om_retry_budget m,
     om_status := OProcessing, om_lease_expires_at := Some (now + secs (ws_lease_seconds s)),
     om_claimed_at := Some now, om_attempts := om_attempts m + 1, om_claim_token := Some token\<rparr>"

definition heartbeat_control :: "string \<Rightarrow> instant \<Rightarrow> worker_control list \<Rightarrow> worker_control list" where
  "heartbeat_control grp now cs =
     update_ids wc_worker_group [grp] (\<lambda>c. c\<lparr>wc_heartbeat_at := now\<rparr>)
       (if get_row wc_worker_group cs grp = None
        then cs @ [\<lparr>wc_worker_group = grp, wc_paused = False, wc_heartbeat_at = now\<rparr>] else cs)"

definition group_paused :: "string \<Rightarrow> worker_control list \<Rightarrow> bool" where
  "group_paused grp cs = (case get_row wc_worker_group cs grp of None \<Rightarrow> False | Some c \<Rightarrow> wc_paused c)"

definition pause_group :: "string \<Rightarrow> worker_control list \<Rightarrow> worker_control list" where
  "pause_group grp cs = update_ids wc_worker_group [grp] (\<lambda>c. c\<lparr>wc_paused := True\<rparr>) cs"

definition row_event :: "outbox_message \<Rightarrow> exn + domain_event option" where
  "row_event m = (case to_event m of
     Inr e \<Rightarrow> Inr (Some e)
   | Inl (TypeError _) \<Rightarrow> Inr None
   | Inl (ValueError _) \<Rightarrow> Inr None
   | Inl x \<Rightarrow> Inl x)"

definition leased_claim ::
  "(uuid \<Rightarrow> bool) \<Rightarrow> instant \<Rightarrow> uuid \<Rightarrow> string \<Rightarrow> string list \<Rightarrow> outbox_settings \<Rightarrow> outbox_db \<Rightarrow>
   exn + (delivery_claim option \<times> outbox_db)" where
  "leased_claim locked now token grp types s db =
     (if types = [] \<or> list_ex (\<lambda>n. \<not> fullmatch outcome_code_re n) types
      then Inl (ValueError ''register safe event types'')
      else let controls = heartbeat_control grp now (ob_controls db); tbl = ob_messages db in
      if group_paused grp controls then Inr (None, db\<lparr>ob_controls := controls\<rparr>)
      else
        let tbl1 = expire_rows locked now types tbl;
            due = select_rows (\<lambda>m. leased_due now types tbl1 m \<and> \<not> locked (om_id m))
                    (\<lambda>m. (om_available_at m, om_id m)) 1 tbl1
        in case due of
          [] \<Rightarrow> Inr (None, \<lparr>ob_messages = tbl1, ob_controls = controls\<rparr>)
        | m # _ \<Rightarrow>
            let deadline = claim_deadline now s m in
            if deadline \<le> now
            then Inr (None, \<lparr>ob_messages = update_ids om_id [om_id m] (too_old_row deadline) tbl1,
                             ob_controls = controls\<rparr>)
            else let m' = lease_row now token s m in
              bind_r (row_event m') (\<lambda>ev.
              Inr (Some \<lparr>cl_message_id = om_id m', cl_token = token, cl_event = ev,
                     cl_attempts = om_attempts m', cl_retry_budget = om_retry_budget m',
                     cl_deadline = deadline, cl_receipts = om_delivery_receipts m'\<rparr>,
                   \<lparr>ob_messages = update_ids om_id [om_id m] (lease_row now token s) tbl1,
                    ob_controls = controls\<rparr>)))"

definition owns :: "uuid \<Rightarrow> instant \<Rightarrow> outbox_message \<Rightarrow> bool" where
  "owns token t m \<longleftrightarrow> om_claim_token m = Some token \<and> om_status m = OProcessing \<and>
     (case om_lease_expires_at m of None \<Rightarrow> False | Some x \<Rightarrow> t < x)"

definition owned :: "instant \<Rightarrow> uuid \<Rightarrow> uuid \<Rightarrow> outbox_message list \<Rightarrow> outbox_message option" where
  "owned t mid token tbl = find (\<lambda>m. om_id m = mid \<and> owns token t m) tbl"

definition fingerprint_re :: regex where
  "fingerprint_re = ClsRep [(CHR ''a'', CHR ''f''), (CHR ''0'', CHR ''9'')] 64 64"

definition release :: "outbox_message \<Rightarrow> outbox_message" where
  "release m = m\<lparr>om_claim_token := None, om_lease_expires_at := None\<rparr>"

definition blocked_row :: "outbox_message \<Rightarrow> outbox_message" where
  "blocked_row m = release (m\<lparr>om_status := OBlocked, om_last_error_code := Some ''delivery_content_changed''\<rparr>)"

definition late_row :: "instant \<Rightarrow> outbox_message \<Rightarrow> outbox_message" where
  "late_row deadline m = release (m\<lparr>om_deadline_at := Some deadline,
     om_status := if has_fingerprint m then OUncertain else OSkipped,
     om_last_error_code := Some ''delivery_expired''\<rparr>)"

definition bind ::
  "instant \<Rightarrow> instant \<Rightarrow> string \<Rightarrow> delivery_claim \<Rightarrow> string \<Rightarrow> instant \<Rightarrow> outbox_db \<Rightarrow> exn + (bool \<times> outbox_db)" where
  "bind t now grp c fingerprint expires_at db =
     (if \<not> fullmatch fingerprint_re fingerprint then Inl (ValueError ''invalid delivery fingerprint'')
      else let upd = (\<lambda>f. update_ids om_id [cl_message_id c] f (ob_messages db)) in
      case owned t (cl_message_id c) (cl_token c) (ob_messages db) of
        None \<Rightarrow> Inr (False, db)
      | Some m \<Rightarrow>
          if om_delivery_fingerprint m \<noteq> None \<and> om_delivery_fingerprint m \<noteq> Some fingerprint
          then Inr (False, \<lparr>ob_messages = upd blocked_row, ob_controls = pause_group grp (ob_controls db)\<rparr>)
          else let deadline = min (cl_deadline c) expires_at in
            if deadline \<le> now then Inr (False, db\<lparr>ob_messages := upd (late_row deadline)\<rparr>)
            else Inr (True, db\<lparr>ob_messages := upd (\<lambda>m. m\<lparr>om_deadline_at := Some deadline,
                   om_delivery_fingerprint := Some fingerprint\<rparr>)\<rparr>))"

text \<open>The row \<open>finish\<close> writes: \<open>delay\<close> after \<open>now\<close>, falling back to the deadline of the claim.\<close>

definition finish_row ::
  "delivery_outcome \<times> duration \<times> instant \<times> instant \<Rightarrow> instant \<Rightarrow> outbox_message \<Rightarrow> outbox_message" where
  "finish_row a t m = (case a of (result, delay, deadline0, now) \<Rightarrow>
     let st = next_status result (om_attempts m) (om_retry_budget m);
         avail = now + delay;
         deadline = (case om_deadline_at m of Some d \<Rightarrow> d | None \<Rightarrow> deadline0);
         st' = (if st = OFailed \<and> deadline \<le> avail
                then (if has_fingerprint m then OUncertain else ODead) else st)
     in (release (m\<lparr>om_delivery_receipts := om_delivery_receipts m ++ do_receipts result,
          om_status := st', om_available_at := avail, om_last_error_code := Some (do_code result),
          om_published_at := if st' = OPublished then Some now else None\<rparr>))\<lparr>om_claimed_at := None\<rparr>)"

definition finish_rows ::
  "delivery_outcome \<times> duration \<times> instant \<times> instant \<Rightarrow> uuid \<Rightarrow> uuid \<Rightarrow> instant \<Rightarrow> outbox_message list \<Rightarrow>
   bool \<times> outbox_message list" where
  "finish_rows a mid token t tbl = (case owned t mid token tbl of
     None \<Rightarrow> (False, tbl)
   | Some m \<Rightarrow> (True, update_ids om_id [mid] (finish_row a t) tbl))"

definition finish ::
  "instant \<Rightarrow> instant \<Rightarrow> string \<Rightarrow> delivery_claim \<Rightarrow> delivery_outcome \<Rightarrow> duration \<Rightarrow> outbox_db \<Rightarrow> bool \<times> outbox_db" where
  "finish t now grp c result delay db =
     (let a = (result, delay, cl_deadline c, now) in
      case finish_rows a (cl_message_id c) (cl_token c) t (ob_messages db) of (b, tbl) \<Rightarrow>
        (b, \<lparr>ob_messages = tbl,
             ob_controls = (case owned t (cl_message_id c) (cl_token c) (ob_messages db) of
                None \<Rightarrow> ob_controls db
              | Some m \<Rightarrow> if om_status (finish_row a t m) = OBlocked
                          then pause_group grp (ob_controls db) else ob_controls db)\<rparr>))"

section \<open>Concrete values\<close>

definition demo_leased :: outbox_message where
  "demo_leased = (demo_message 1 1 OProcessing)\<lparr>om_attempts := 1, om_claim_token := Some 7,
     om_lease_expires_at := Some 100, om_deadline_at := Some (secs 60)\<rparr>"

definition demo_claim :: delivery_claim where
  "demo_claim = \<lparr>cl_message_id = 1, cl_token = 7, cl_event = None, cl_attempts = 1, cl_retry_budget = 5,
     cl_deadline = secs 60, cl_receipts = Map.empty\<rparr>"

definition demo_accepted :: delivery_outcome where
  "demo_accepted = \<lparr>do_kind = Accepted, do_code = ''ok'', do_retry_after = 0, do_receipts = Map.empty\<rparr>"

section \<open>Facts\<close>

lemmas leased_row_defs = expire_row_def too_old_row_def lease_row_def blocked_row_def late_row_def
  finish_row_def release_def Let_def

lemma leased_row_keys [simp]:
  "om_id (expire_row m) = om_id m" "om_id (too_old_row d m) = om_id m" "om_id (lease_row n k s m) = om_id m"
  "om_id (blocked_row m) = om_id m" "om_id (late_row d m) = om_id m" "om_id (finish_row a t m) = om_id m"
  "om_id (stale_row t m) = om_id m"
  by (auto simp: leased_row_defs stale_row_def split: prod.splits)

lemma owned_Some_iff:
  assumes "unique_key om_id tbl"
  shows "owned t mid k tbl = Some m \<longleftrightarrow> m \<in> set tbl \<and> om_id m = mid \<and> owns k t m"
proof
  assume "owned t mid k tbl = Some m"
  then show "m \<in> set tbl \<and> om_id m = mid \<and> owns k t m"
    by (auto simp: owned_def find_Some_iff)
next
  assume m: "m \<in> set tbl \<and> om_id m = mid \<and> owns k t m"
  then obtain x where x: "owned t mid k tbl = Some x"
    by (cases "owned t mid k tbl") (auto simp: owned_def find_None_iff)
  then have "x \<in> set tbl" "om_id x = mid" by (auto simp: owned_def find_Some_iff)
  with m assms have "x = m" by (auto dest: unique_keyD)
  with x show "owned t mid k tbl = Some m" by simp
qed

lemma owned_None_iff: "owned t mid k tbl = None \<longleftrightarrow> (\<forall>m \<in> set tbl. \<not> (om_id m = mid \<and> owns k t m))"
  by (auto simp: owned_def find_None_iff)

lemma finish_rows_update:
  assumes u: "unique_key om_id tbl"
  shows "finish_rows a mid k t tbl = (\<exists>m \<in> set tbl. om_id m = mid \<and> owns k t m,
     update_where (\<lambda>m. om_id m = mid \<and> owns k t m) (finish_row a t) tbl)"
proof (cases "owned t mid k tbl")
  case None
  then have no: "\<forall>m \<in> set tbl. \<not> (om_id m = mid \<and> owns k t m)" by (simp add: owned_None_iff)
  then have "update_where (\<lambda>m. om_id m = mid \<and> owns k t m) (finish_row a t) tbl = tbl"
    by (intro update_where_none) auto
  with None no show ?thesis by (auto simp: finish_rows_def)
next
  case (Some m)
  then have m: "m \<in> set tbl" "om_id m = mid" "owns k t m" by (simp_all add: owned_Some_iff [OF u])
  have "update_ids om_id [mid] (finish_row a t) tbl =
      update_where (\<lambda>m. om_id m = mid \<and> owns k t m) (finish_row a t) tbl"
    unfolding update_ids_def by (rule update_where_cong) (use m u in \<open>auto dest: unique_keyD\<close>)
  with Some m show ?thesis by (auto simp: finish_rows_def)
qed

interpretation finish_fence: lease_fence om_id owns finish_rows finish_row
  by unfold_locales (auto simp: finish_rows_update owns_def leased_row_defs split: prod.splits)

lemma finish_snd: "ob_messages (snd (finish t now g c r d db)) =
    snd (finish_rows (r, d, cl_deadline c, now) (cl_message_id c) (cl_token c) t (ob_messages db))"
  "fst (finish t now g c r d db) =
    fst (finish_rows (r, d, cl_deadline c, now) (cl_message_id c) (cl_token c) t (ob_messages db))"
  by (simp_all add: finish_def Let_def case_prod_unfold)

lemma group_paused_heartbeat:
  "group_paused g (heartbeat_control g' now cs) = group_paused g cs"
  by (auto simp: group_paused_def heartbeat_control_def get_row_update_ids get_row_append get_row_single
      split: option.splits)

lemma group_paused_pause:
  "get_row wc_worker_group cs g = Some c \<Longrightarrow> group_paused g (pause_group g cs)"
  by (simp add: group_paused_def pause_group_def get_row_update_ids)

text \<open>Expiry touches only rows whose budget is over, and what a claim did, case by case.\<close>

lemma expire_rows_eq:
  assumes "unique_key om_id tbl"
  shows "\<exists>P. expire_rows locked now types tbl = update_where P expire_row tbl \<and>
    (\<forall>m. P m \<longrightarrow> budget_expired now types m)"
  unfolding expire_rows_def Let_def update_ids_selected [OF assms] by blast

lemma unique_expire_rows: "unique_key om_id (expire_rows locked now types tbl) = unique_key om_id tbl"
  by (simp add: expire_rows_def Let_def unique_key_update_ids)

lemma leased_claim_cases:
  assumes c: "leased_claim locked now token g types s db = Inr (c, db')"
  obtains (idle) "c = None" "ob_messages db' = ob_messages db"
  | (expired) "c = None" "ob_messages db' = expire_rows locked now types (ob_messages db)"
  | (too_old) m where "c = None" "m \<in> set (expire_rows locked now types (ob_messages db))"
      "leased_due now types (expire_rows locked now types (ob_messages db)) m"
      "ob_messages db' = update_ids om_id [om_id m] (too_old_row (claim_deadline now s m))
         (expire_rows locked now types (ob_messages db))"
  | (leased) m ev where "m \<in> set (expire_rows locked now types (ob_messages db))"
      "leased_due now types (expire_rows locked now types (ob_messages db)) m"
      "now < claim_deadline now s m" "\<not> group_paused g (ob_controls db)"
      "row_event (lease_row now token s m) = Inr ev"
      "c = Some \<lparr>cl_message_id = om_id m, cl_token = token, cl_event = ev,
         cl_attempts = om_attempts (lease_row now token s m), cl_retry_budget = om_retry_budget (lease_row now token s m),
         cl_deadline = claim_deadline now s m, cl_receipts = om_delivery_receipts m\<rparr>"
      "ob_messages db' = update_ids om_id [om_id m] (lease_row now token s)
         (expire_rows locked now types (ob_messages db))"
proof -
  let ?t1 = "expire_rows locked now types (ob_messages db)"
  let ?P = "\<lambda>m. leased_due now types ?t1 m \<and> \<not> locked (om_id m)"
  let ?due = "select_rows ?P (\<lambda>m. (om_available_at m, om_id m)) 1 ?t1"
  note c' = c [unfolded leased_claim_def Let_def group_paused_heartbeat]
  show thesis
  proof (cases "group_paused g (ob_controls db)")
    case True
    with c' show thesis by (intro idle) (auto split: if_splits)
  next
    case False
    show thesis
    proof (cases ?due)
      case Nil
      with c' False show thesis by (intro expired) (auto split: if_splits)
    next
      case (Cons m ms)
      have m: "m \<in> set ?t1" "leased_due now types ?t1 m"
        using set_select_rows_subset [of m ?P "\<lambda>m. (om_available_at m, om_id m)" 1 ?t1] Cons by simp_all
      show thesis
      proof (cases "claim_deadline now s m \<le> now")
        case True
        with c' False Cons show thesis by (intro too_old [OF _ m]) (auto split: if_splits)
      next
        case late: False
        from c' False Cons late obtain ev where "row_event (lease_row now token s m) = Inr ev"
          by (auto simp: result_simps split: if_splits)
        with c' False Cons late show thesis
          by (intro leased [OF m, of ev]) (auto simp: result_simps lease_row_def split: if_splits)
      qed
    qed
  qed
qed

lemma expire_rows_row:
  assumes u: "unique_key om_id tbl" and m: "m' \<in> set (expire_rows locked now types tbl)"
  obtains m where "m \<in> set tbl" "om_id m = om_id m'"
    "m' = m \<or> m' = expire_row m \<and> budget_expired now types m"
proof -
  obtain P where P: "expire_rows locked now types tbl = update_where P expire_row tbl"
    "\<And>m. P m \<Longrightarrow> budget_expired now types m" using expire_rows_eq [OF u, of locked now types] by blast
  from m obtain m0 where "m0 \<in> set tbl" "m' = (if P m0 then expire_row m0 else m0)"
    by (auto simp: P update_where_def)
  with P that show thesis by (auto split: if_splits)
qed

lemma leased_due_not_expired:
  assumes "unique_key om_id tbl" "m \<in> set (expire_rows locked now types tbl)" "leased_due now types tbl' m"
  shows "m \<in> set tbl"
  using assms(1,2) by (rule expire_rows_row) (use assms(3) in
    \<open>auto simp: leased_due_def expire_row_def lease_over_def split: if_splits\<close>)

lemma get_row_expire_rows:
  assumes u: "unique_key om_id tbl" and r: "get_row om_id tbl i = Some m" and n: "\<not> budget_expired now types m"
  shows "get_row om_id (expire_rows locked now types tbl) i = Some m"
proof -
  obtain P where P: "expire_rows locked now types tbl = update_where P expire_row tbl"
    "\<And>m. P m \<Longrightarrow> budget_expired now types m" using expire_rows_eq [OF u, of locked now types] by blast
  then show ?thesis using r n by (auto simp: get_row_update_where)
qed

text \<open>A claim by anyone leaves a row under a live lease alone.\<close>

lemma live_lease_claim:
  assumes u: "unique_key om_id (ob_messages db)" and r: "get_row om_id (ob_messages db) i = Some m"
    and own: "owns k t m" and lc: "leased_claim locked t token g types s db = Inr (c, db')"
  shows "get_row om_id (ob_messages db') i = Some m"
proof -
  let ?t1 = "expire_rows locked t types (ob_messages db)"
  have nb: "\<not> budget_expired t types m" and nd: "\<not> leased_due t types ?t1 m"
    using own by (auto simp: owns_def budget_expired_def leased_due_def lease_over_def split: option.splits)
  have g1: "get_row om_id ?t1 i = Some m" by (rule get_row_expire_rows [OF u r nb])
  have other: "om_id m' \<noteq> i" if "m' \<in> set ?t1" "leased_due t types ?t1 m'" for m'
  proof
    assume "om_id m' = i"
    then have "get_row om_id ?t1 i = Some m'" using that(1) u
      by (metis get_row_unique unique_expire_rows)
    with g1 that(2) nd show False by simp
  qed
  show "get_row om_id (ob_messages db') i = Some m"
    using lc
  proof (cases rule: leased_claim_cases)
    case (too_old m')
    with g1 other show ?thesis by (auto simp: get_row_update_ids)
  next
    case (leased m' ev)
    with g1 other show ?thesis by (auto simp: get_row_update_ids)
  qed (use r g1 in auto)
qed

text \<open>What the holder of a new lease and the next steps on it find in the table.\<close>

lemma leased_claim_row:
  assumes u: "unique_key om_id (ob_messages db)"
    and lc: "leased_claim locked now token g types s db = Inr (Some c, db')"
  shows "\<exists>m ev. get_row om_id (ob_messages db') (cl_message_id c) = Some (lease_row now token s m) \<and>
    cl_token c = token \<and> cl_attempts c = om_attempts m + 1 \<and> cl_event c = ev \<and> row_event (lease_row now token s m) = Inr ev \<and>
    om_event_type m \<in> set types \<and> m \<in> set (ob_messages db)"
  using lc
proof (cases rule: leased_claim_cases)
  case (leased m ev)
  have "get_row om_id (expire_rows locked now types (ob_messages db)) (om_id m) = Some m"
    by (rule get_row_unique [OF _ leased(1)]) (simp add: unique_expire_rows u)
  with leased leased_due_not_expired [OF u leased(1,2)] show ?thesis
    by (auto simp: get_row_update_ids leased_due_def lease_row_def intro!: exI [of _ m])
qed simp_all

lemma unique_leased_claim:
  "leased_claim locked now token g types s db = Inr (c, db') \<Longrightarrow>
    unique_key om_id (ob_messages db') = unique_key om_id (ob_messages db)"
  by (erule leased_claim_cases) (simp_all add: unique_key_update_ids unique_expire_rows)

lemma bind_rows:
  assumes u: "unique_key om_id (ob_messages db)" and b: "bind t now g c fp ex db = Inr (ok, db')"
  shows "unique_key om_id (ob_messages db') \<and>
    (\<forall>i. i \<noteq> cl_message_id c \<longrightarrow> get_row om_id (ob_messages db') i = get_row om_id (ob_messages db) i) \<and>
    (ok \<longrightarrow> (\<exists>m. get_row om_id (ob_messages db) (cl_message_id c) = Some m \<and> owns (cl_token c) t m \<and>
      now < min (cl_deadline c) ex \<and>
      get_row om_id (ob_messages db') (cl_message_id c) =
        Some (m\<lparr>om_deadline_at := Some (min (cl_deadline c) ex), om_delivery_fingerprint := Some fp\<rparr>)))"
proof (cases "owned t (cl_message_id c) (cl_token c) (ob_messages db)")
  case None
  with b u show ?thesis by (auto simp: bind_def Let_def split: if_splits)
next
  case (Some m)
  then have m: "m \<in> set (ob_messages db)" "om_id m = cl_message_id c" "owns (cl_token c) t m"
    by (simp_all add: owned_Some_iff [OF u])
  then have "get_row om_id (ob_messages db) (cl_message_id c) = Some m" using get_row_unique [OF u m(1)] by simp
  with b u Some m show ?thesis
    by (auto simp: bind_def Let_def unique_key_update_ids get_row_update_ids split: if_splits)
qed

lemma finish_rows_frame:
  assumes u: "unique_key om_id (ob_messages db)" and f: "finish t now g c r d db = (b, db')"
  shows "unique_key om_id (ob_messages db') \<and>
    (\<forall>i. i \<noteq> cl_message_id c \<longrightarrow> get_row om_id (ob_messages db') i = get_row om_id (ob_messages db) i) \<and>
    (b \<longleftrightarrow> (\<exists>m \<in> set (ob_messages db). om_id m = cl_message_id c \<and> owns (cl_token c) t m))"
proof -
  have fr: "finish_rows (r, d, cl_deadline c, now) (cl_message_id c) (cl_token c) t (ob_messages db) = (b, ob_messages db')"
    using finish_snd [of t now g c r d db] f by (simp add: prod_eq_iff)
  from finish_fence.settle_spec [OF u fr] show ?thesis by blast
qed

section \<open>Properties\<close>

text \<open>
  Only the holder of the live lease ends a delivery, and only once. \<open>finish\<close> returns true exactly
  when the message is processing under the token of the claim and the lease has not expired;
  otherwise the message table is unchanged. Other messages never change, and after a success no claim,
  with whatever token, can finish the message until it is leased again.
\<close>

lemma finish_fenced:
  assumes u: "unique_key om_id (ob_messages db)" and f: "finish t now g c r d db = (b, db')"
  shows "(b \<longleftrightarrow> (\<exists>m x. get_row om_id (ob_messages db) (cl_message_id c) = Some m \<and> om_status m = OProcessing \<and>
        om_claim_token m = Some (cl_token c) \<and> om_lease_expires_at m = Some x \<and> t < x)) \<and>
    (\<not> b \<longrightarrow> ob_messages db' = ob_messages db) \<and>
    (\<forall>i. i \<noteq> cl_message_id c \<longrightarrow> get_row om_id (ob_messages db') i = get_row om_id (ob_messages db) i) \<and>
    (b \<longrightarrow> (\<forall>c2 t2 now2 g2 r2 d2. cl_message_id c2 = cl_message_id c \<longrightarrow> \<not> fst (finish t2 now2 g2 c2 r2 d2 db')))"
proof -
  let ?a = "(r, d, cl_deadline c, now)"
  have fr: "finish_rows ?a (cl_message_id c) (cl_token c) t (ob_messages db) = (b, ob_messages db')"
    using finish_snd [of t now g c r d db] f by (simp add: prod_eq_iff)
  note spec = finish_fence.settle_spec [OF u fr]
  have "(\<exists>m \<in> set (ob_messages db). om_id m = cl_message_id c \<and> owns (cl_token c) t m) \<longleftrightarrow>
    (\<exists>m x. get_row om_id (ob_messages db) (cl_message_id c) = Some m \<and> om_status m = OProcessing \<and>
        om_claim_token m = Some (cl_token c) \<and> om_lease_expires_at m = Some x \<and> t < x)"
    by (auto simp: get_row_unique_iff [OF u] owns_def split: option.splits)
  moreover have "\<not> fst (finish t2 now2 g2 c2 r2 d2 db')" if "b" "cl_message_id c2 = cl_message_id c"
    for c2 t2 now2 g2 r2 d2
    using spec(5) that by (simp only: finish_snd finish_fence.settle_iff [OF spec(1)]) blast
  ultimately show ?thesis using spec(2-4) by blast
qed

text \<open>
  A lease is exclusive, granted in order, and within budget. When a worker claims a message,
  the message was due: free and available, or under a lease that had expired; its worker group was not
  paused; every earlier version of its aggregate had been published or skipped; and the row now is
  processing under the new token for the lease time, with attempts within its retry budget and a
  deadline in the future.
\<close>

lemma leased_claim_spec:
  assumes u: "unique_key om_id (ob_messages db)" and s: "validate_settings s = Inr s'"
    and inv: "\<forall>m \<in> set (ob_messages db). 0 \<le> om_attempts m"
    and c: "leased_claim locked now token g types s db = Inr (Some c, db')"
  shows "\<exists>m. get_row om_id (ob_messages db) (cl_message_id c) = Some m \<and>
    get_row om_id (ob_messages db') (cl_message_id c) = Some (lease_row now token s m) \<and>
    cl_token c = token \<and> owns token now (lease_row now token s m) \<and>
    (\<forall>k. \<not> owns k now m) \<and> om_event_type m \<in> set types \<and> \<not> group_paused g (ob_controls db) \<and>
    ((om_status m = OPending \<or> om_status m = OFailed) \<and> om_available_at m \<le> now \<or> lease_over now m) \<and>
    (\<forall>e \<in> set (ob_messages db). earlier_version e m \<longrightarrow> om_status e = OPublished \<or> om_status e = OSkipped) \<and>
    cl_attempts c = om_attempts m + 1 \<and> cl_attempts c \<le> cl_retry_budget c \<and> now < cl_deadline c"
  using c
proof (cases rule: leased_claim_cases)
  case (leased m ev)
  let ?t1 = "expire_rows locked now types (ob_messages db)"
  have m: "m \<in> set (ob_messages db)" by (rule leased_due_not_expired [OF u leased(1,2)])
  have g0: "get_row om_id (ob_messages db) (om_id m) = Some m" by (rule get_row_unique [OF u m])
  have g1: "get_row om_id ?t1 (om_id m) = Some m"
    by (rule get_row_unique [OF _ leased(1)]) (simp add: unique_expire_rows u)
  have ws: "1 \<le> ws_max_attempts s" "30 \<le> ws_lease_seconds s"
    using s by (auto simp: validate_settings_def result_simps)
  have earlier: "om_status e = OPublished \<or> om_status e = OSkipped"
    if e: "e \<in> set (ob_messages db)" "earlier_version e m" for e
  proof (rule ccontr)
    assume neg: "\<not> ?thesis"
    have ge: "get_row om_id (ob_messages db) (om_id e) = Some e" by (rule get_row_unique [OF u e(1)])
    obtain P where P: "?t1 = update_where P expire_row (ob_messages db)"
      using expire_rows_eq [OF u, of locked now types] by blast
    then obtain e' where e': "e' \<in> set ?t1" "e' = e \<or> e' = expire_row e"
      using e(1) by (auto simp: update_where_def)
    have "earlier_version e' m" "om_status e' \<noteq> OPublished" "om_status e' \<noteq> OSkipped"
      using e' e neg by (auto simp: earlier_version_def expire_row_def split: if_splits)
    with leased(2) e'(1) show False by (auto simp: leased_due_def list_ex_iff)
  qed
  have "owns token now (lease_row now token s m)" "\<forall>k. \<not> owns k now m"
    using leased(2) ws by (auto simp: owns_def lease_row_def leased_due_def lease_over_def secs_def split: option.splits)
  moreover have "om_attempts m + 1 \<le> om_retry_budget (lease_row now token s m)"
    using leased(2) ws inv m by (auto simp: lease_row_def leased_due_def)
  ultimately show ?thesis
    using leased g0 g1 earlier by (auto simp: get_row_update_ids leased_due_def lease_row_def)
qed simp_all

text \<open>
  While a lease is live the message is out of reach of everyone else. A further claim by any
  worker of any group, a batch claim, the recovery of stale claims and \<open>mark_published\<close> all leave its
  row exactly as it is.
\<close>

lemma live_lease_untouched:
  assumes u: "unique_key om_id (ob_messages db)" and r: "get_row om_id (ob_messages db) i = Some m"
    and own: "owns k t m"
  shows "(\<forall>locked token g types s c db'. leased_claim locked t token g types s db = Inr (c, db') \<longrightarrow>
       get_row om_id (ob_messages db') i = Some m) \<and>
    (\<forall>n locked clock limit now types rows tbl'.
       claim_batch n locked clock limit now types (ob_messages db) = Inr (rows, tbl') \<longrightarrow> get_row om_id tbl' i = Some m) \<and>
    (\<forall>locked clock sb av limit n tbl'.
       recover_stale_claims locked clock sb av limit (ob_messages db) = Inr (n, tbl') \<longrightarrow> get_row om_id tbl' i = Some m) \<and>
    (\<forall>clock pa b tbl'. mark_published clock i pa (ob_messages db) = Inr (b, tbl') \<longrightarrow> \<not> b \<and> tbl' = ob_messages db)"
proof (intro conjI allI impI)
  fix locked token g types s c db'
  assume "leased_claim locked t token g types s db = Inr (c, db')"
  then show "get_row om_id (ob_messages db') i = Some m" by (rule live_lease_claim [OF u r own])
next
  fix n locked clock limit now types rows tbl'
  assume "claim_batch n locked clock limit now types (ob_messages db) = Inr (rows, tbl')"
  then show "get_row om_id tbl' i = Some m"
    using r own by (auto simp: claim_batch_def claim_batch_rows_def result_simps Let_def update_ids_selected [OF u]
        get_row_update_where batch_due_def owns_def)
next
  fix locked clock sb av limit n tbl'
  assume "recover_stale_claims locked clock sb av limit (ob_messages db) = Inr (n, tbl')"
  then show "get_row om_id tbl' i = Some m"
    using r own by (auto simp: recover_stale_claims_def result_simps Let_def update_ids_selected [OF u]
        get_row_update_where stale_claim_def owns_def)
next
  fix clock pa b tbl'
  assume "mark_published clock i pa (ob_messages db) = Inr (b, tbl')"
  then show "\<not> b" "tbl' = ob_messages db"
    using r own by (auto simp: mark_published_def owns_def)
qed

text \<open>
  \<open>mark_failed\<close> is the exception: it does not look at the claim token, and fails a message under a live
  lease while leaving token and expiry in place.
\<close>

lemma mark_failed_ignores_lease:
  "owns 7 50 demo_leased \<and>
   (\<exists>m. mark_failed 1 (VStr ''x'') (Aware 60 0) [demo_leased] = Inr (True, [m]) \<and>
      om_status m = OFailed \<and> om_claim_token m = Some 7)"
  by (simp add: owns_def demo_leased_def demo_message_def mark_failed_def ob_validate_error_code_def
      require_utc_def get_row_def update_ids_def update_where_def regex_eval)

text \<open>
  C13: once content has been bound to a message it cannot change under a retry. Binding different
  content is refused, blocks the message, pauses the worker group, after which no worker of the
  group gets a claim until it is resumed; binding never replaces a stored fingerprint; and binding
  succeeds only for the live lease, before both the deadline and the expiry of the content.
\<close>

theorem bind_content_fixed:
  assumes u: "unique_key om_id (ob_messages db)"
    and b: "bind t now g c fp ex db = Inr (ok, db')"
    and r: "get_row om_id (ob_messages db) (cl_message_id c) = Some m"
  shows "(\<forall>f. om_delivery_fingerprint m = Some f \<longrightarrow>
       (\<exists>m'. get_row om_id (ob_messages db') (cl_message_id c) = Some m' \<and> om_delivery_fingerprint m' = Some f)) \<and>
    (ok \<longrightarrow> owns (cl_token c) t m \<and> now < ex \<and> now < cl_deadline c \<and>
       (\<exists>m'. get_row om_id (ob_messages db') (cl_message_id c) = Some m' \<and>
          om_delivery_fingerprint m' = Some fp \<and> owns (cl_token c) t m')) \<and>
    (\<forall>f w. om_delivery_fingerprint m = Some f \<and> f \<noteq> fp \<and> owns (cl_token c) t m \<and>
       get_row wc_worker_group (ob_controls db) g = Some w \<longrightarrow>
       \<not> ok \<and> (\<exists>m'. get_row om_id (ob_messages db') (cl_message_id c) = Some m' \<and> om_status m' = OBlocked) \<and>
       group_paused g (ob_controls db') \<and>
       (\<forall>locked n k types s c' db''. leased_claim locked n k g types s db' = Inr (c', db'') \<longrightarrow> c' = None))"
proof -
  have m: "m \<in> set (ob_messages db)" "om_id m = cl_message_id c" using r by (auto dest: get_row_SomeD)
  have own: "owned t (cl_message_id c) (cl_token c) (ob_messages db) = (if owns (cl_token c) t m then Some m else None)"
    using m u by (auto simp: owned_Some_iff owned_None_iff dest: unique_keyD)
  show ?thesis
    using b r own group_paused_pause [of "ob_controls db" g]
    by (cases db) (auto simp: bind_def Let_def get_row_update_ids leased_row_defs owns_def leased_claim_def
        group_paused_heartbeat split: if_splits)
qed

theorem bind_content_fixed_witness:
  "\<exists>db'. bind 50 51 ''g'' demo_claim (replicate 64 CHR ''b'') 200
      \<lparr>ob_messages = [demo_leased\<lparr>om_delivery_fingerprint := Some (replicate 64 CHR ''a'')\<rparr>],
       ob_controls = [\<lparr>wc_worker_group = ''g'', wc_paused = False, wc_heartbeat_at = 0\<rparr>]\<rparr> = Inr (False, db') \<and>
    group_paused ''g'' (ob_controls db')"
proof -
  let ?m = "demo_leased\<lparr>om_delivery_fingerprint := Some (replicate 64 CHR ''a'')\<rparr>"
  let ?db = "\<lparr>ob_messages = [?m], ob_controls = [\<lparr>wc_worker_group = ''g'', wc_paused = False, wc_heartbeat_at = 0\<rparr>]\<rparr>"
  have u: "unique_key om_id (ob_messages ?db)" by (simp add: unique_key_def)
  have fp: "fullmatch fingerprint_re (replicate 64 CHR ''b'')"
    by (simp add: fullmatch_iff_lang fingerprint_re_def in_class_def list_all_iff)
  have ne: "replicate 64 CHR ''a'' \<noteq> replicate 64 CHR ''b''" by (simp add: replicate_eq_replicate)
  have own: "owns (cl_token demo_claim) 50 ?m" by (simp add: owns_def demo_claim_def demo_leased_def demo_message_def)
  have r: "get_row om_id (ob_messages ?db) (cl_message_id demo_claim) = Some ?m"
    by (simp add: get_row_def demo_claim_def demo_leased_def demo_message_def)
  have w: "get_row wc_worker_group (ob_controls ?db) ''g'' = Some \<lparr>wc_worker_group = ''g'', wc_paused = False, wc_heartbeat_at = 0\<rparr>"
    by (simp add: get_row_def)
  obtain ok db' where b: "bind 50 51 ''g'' demo_claim (replicate 64 CHR ''b'') 200 ?db = Inr (ok, db')"
    using fp by (cases "bind 50 51 ''g'' demo_claim (replicate 64 CHR ''b'') 200 ?db")
      (auto simp: bind_def Let_def split: if_splits option.splits)
  from bind_content_fixed [OF u b r] ne own w have "\<not> ok \<and> group_paused ''g'' (ob_controls db')" by simp
  with b show ?thesis by auto
qed

end
