(* ===== verification/Internal_Worker.thy ===== *)
theory Internal_Worker
  imports Outbox
begin

text \<open>
  The worker for events handled inside the database: \<open>outbox/internal_worker.py\<close>. Claim, handler and
  result share one transaction, the handler runs in a savepoint. The database is the message table and
  the rest of the tables, of an arbitrary type; a handler (\<open>InternalOutboxHandler\<close>) reads and changes both
  or raises. A transaction that is not committed leaves the database as it was.
\<close>

section \<open>Operations\<close>

record 'd worker_store =
  wd_data :: 'd
  wd_messages :: "outbox_message list"

type_synonym 'd internal_handler = "domain_event \<Rightarrow> 'd worker_store \<Rightarrow> exn + 'd worker_store"

record 'd internal_worker =
  iw_handlers :: "(string \<times> 'd internal_handler) list"
  iw_settings :: outbox_settings

definition mk_internal_worker ::
  "(string \<times> 'd internal_handler) list \<Rightarrow> outbox_settings \<Rightarrow> exn + 'd internal_worker" where
  "mk_internal_worker hs s =
     (if hs = [] \<or> list_ex (\<lambda>(n, h). \<not> fullmatch snake_re n) hs
      then Inl (ValueError ''register at least one handler with a safe event name'')
      else Inr \<lparr>iw_handlers = hs, iw_settings = s\<rparr>)"

text \<open>What one call reads: rows locked by others, the clock at the claim and at the result, the jitter.\<close>

record poll_input =
  pi_locked :: "uuid \<Rightarrow> bool"
  pi_claim_time :: instant
  pi_result_time :: instant
  pi_rnd :: "int \<Rightarrow> duration"

definition transition :: "bool \<times> outbox_message list \<Rightarrow> 'd worker_store \<Rightarrow> exn + (bool \<times> 'd worker_store)" where
  "transition r st = (case r of (changed, tbl) \<Rightarrow>
     if \<not> changed then Inl (RuntimeError ''ordinary outbox transition was not applied'')
     else Inr (True, st\<lparr>wd_messages := tbl\<rparr>))"

definition call_handler :: "'d internal_worker \<Rightarrow> outbox_message \<Rightarrow> 'd worker_store \<Rightarrow> exn + 'd worker_store" where
  "call_handler iw row st = (case map_of (iw_handlers iw) (om_event_type row) of
     None \<Rightarrow> Inl (KeyError (om_event_type row))
   | Some h \<Rightarrow> bind_r (to_event row) (\<lambda>e. h e st))"

definition handle_row :: "'d internal_worker \<Rightarrow> poll_input \<Rightarrow> outbox_message \<Rightarrow> 'd worker_store \<Rightarrow> exn + (bool \<times> 'd worker_store)" where
  "handle_row iw i row st = (case call_handler iw row st of
     Inl e \<Rightarrow>
       bind_r (mk_delivery_outcome Retry ''internal_handler_failed'' 0 Map.empty) (\<lambda>out.
       bind_r (next_delay (pi_rnd i) (om_attempts row) out (iw_settings iw)) (\<lambda>delay.
       bind_r (mark_failed (om_id row) (VStr ''internal_handler_failed'') (Aware (pi_result_time i + delay) 0) (wd_messages st)) (\<lambda>r.
       transition r st)))
   | Inr st' \<Rightarrow> bind_r (mark_published (pi_result_time i) (om_id row) None (wd_messages st')) (\<lambda>r. transition r st'))"

definition internal_process_one :: "'d internal_worker \<Rightarrow> poll_input \<Rightarrow> 'd worker_store \<Rightarrow> exn + (bool \<times> 'd worker_store)" where
  "internal_process_one iw i st =
     bind_r (outbox_repository (VInt (ws_max_attempts (iw_settings iw)))) (\<lambda>n.
     bind_r (claim_batch n (pi_locked i) (pi_claim_time i) (VInt 1) None (VTuple (map (VStr \<circ> fst) (iw_handlers iw))) (wd_messages st)) (\<lambda>(rows, tbl).
     case rows of
       [] \<Rightarrow> Inr (False, st)
     | row # _ \<Rightarrow> handle_row iw i row (st\<lparr>wd_messages := tbl\<rparr>)))"

text \<open>
  The loop of \<open>run\<close>: \<open>stop k\<close> tells whether the stop event is set before round \<open>k\<close>, the waiting between
  rounds is time the inputs reflect. The result lists what the rounds returned.
\<close>

fun internal_rounds :: "'d internal_worker \<Rightarrow> bool \<Rightarrow> (nat \<Rightarrow> bool) \<Rightarrow> poll_input list \<Rightarrow> nat \<Rightarrow> 'd worker_store \<Rightarrow> exn + (bool list \<times> 'd worker_store)" where
  "internal_rounds iw once stop [] k st = Inr ([], st)"
| "internal_rounds iw once stop (i # is) k st =
     (if stop k then Inr ([], st)
      else bind_r (internal_process_one iw i st) (\<lambda>(handled, st1).
        if once then Inr ([handled], st1)
        else bind_r (internal_rounds iw once stop is (Suc k) st1) (\<lambda>(hs, st2). Inr (handled # hs, st2))))"

section \<open>Facts\<close>

definition worker_ready :: "'d internal_worker \<Rightarrow> bool" where
  "worker_ready iw \<longleftrightarrow> iw_handlers iw \<noteq> [] \<and> list_all (\<lambda>(n, h). length n \<le> 100 \<and> fullmatch snake_re n) (iw_handlers iw) \<and>
     (case validate_settings (iw_settings iw) of Inl e \<Rightarrow> False | Inr s \<Rightarrow> True)"

text \<open>The contract of handlers: they may publish further messages but leave the others alone.\<close>

definition handlers_append :: "'d internal_worker \<Rightarrow> bool" where
  "handlers_append iw \<longleftrightarrow> (\<forall>n h e st st'. (n, h) \<in> set (iw_handlers iw) \<and> h e st = Inr st' \<longrightarrow>
     (\<exists>new. wd_messages st' = wd_messages st @ new))"

text \<open>What \<open>SystemRandom().uniform(0, c)\<close> promises.\<close>

definition jitter_ok :: "poll_input \<Rightarrow> bool" where
  "jitter_ok i \<longleftrightarrow> (\<forall>c. 0 \<le> c \<longrightarrow> 0 \<le> pi_rnd i c \<and> pi_rnd i c \<le> secs c)"

definition event_names :: "'d internal_worker \<Rightarrow> string list" where
  "event_names iw = map fst (iw_handlers iw)"

definition first_due :: "'d internal_worker \<Rightarrow> poll_input \<Rightarrow> outbox_message list \<Rightarrow> outbox_message list" where
  "first_due iw i tbl = select_rows (\<lambda>m. batch_due (ws_max_attempts (iw_settings iw)) (pi_claim_time i) (Some (event_names iw)) tbl m \<and>
     \<not> pi_locked i (om_id m)) batch_order 1 tbl"

definition published_row :: "instant \<Rightarrow> outbox_message \<Rightarrow> outbox_message" where
  "published_row t m = m\<lparr>om_status := OPublished, om_claimed_at := None, om_published_at := Some t, om_last_error_code := None\<rparr>"

definition failed_row :: "instant \<Rightarrow> outbox_message \<Rightarrow> outbox_message" where
  "failed_row t m = m\<lparr>om_status := OFailed, om_claimed_at := None, om_published_at := None,
     om_last_error_code := Some ''internal_handler_failed'', om_available_at := t\<rparr>"

lemma worker_ready_settings:
  assumes "worker_ready iw"
  obtains s where "validate_settings (iw_settings iw) = Inr s" "1 \<le> ws_max_attempts (iw_settings iw)"
    "ws_max_attempts (iw_settings iw) \<le> 100"
  using assms by (auto simp: worker_ready_def validate_settings_def result_simps split: sum.splits if_splits)

lemma ready_event_types:
  assumes "worker_ready iw"
  shows "validate_event_types (VTuple (map (VStr \<circ> fst) (iw_handlers iw))) = Inr (Some (event_names iw))"
  using assms
  by (auto simp: validate_event_types_def worker_ready_def list_all_iff list_ex_iff event_names_def)

lemma process_one_eq:
  assumes "worker_ready iw"
  shows "internal_process_one iw i st = (case first_due iw i (wd_messages st) of
     [] \<Rightarrow> Inr (False, st)
   | m # _ \<Rightarrow> handle_row iw i (batch_row (pi_claim_time i) m)
       (st\<lparr>wd_messages := update_ids om_id [om_id m] (batch_row (pi_claim_time i)) (wd_messages st)\<rparr>))"
proof -
  have n: "1 \<le> ws_max_attempts (iw_settings iw)" "ws_max_attempts (iw_settings iw) \<le> 100"
    using worker_ready_settings [OF assms] by metis+
  have l: "length (first_due iw i (wd_messages st)) \<le> 1"
    unfolding first_due_def by (rule length_select_rows_le)
  show ?thesis
    using n ready_event_types [OF assms] l
    by (cases "first_due iw i (wd_messages st)")
      (auto simp: internal_process_one_def outbox_repository_def claim_batch_def ob_validate_limit_def utc_or_now_def
        require_utc_def claim_batch_rows_def first_due_def Let_def)
qed

lemma handle_row_published:
  assumes c: "call_handler iw row st = Inr st'" and r: "get_row om_id (wd_messages st') (om_id row) = Some row"
    and p: "om_status row = OProcessing" "om_claim_token row = None"
  shows "handle_row iw i row st = Inr (True, st'\<lparr>wd_messages := update_ids om_id [om_id row] (published_row (pi_result_time i)) (wd_messages st')\<rparr>)"
  using assms by (simp add: handle_row_def mark_published_def utc_or_now_def require_utc_def transition_def published_row_def [abs_def])

lemma handle_row_failed:
  assumes s: "validate_settings (iw_settings iw) = Inr s" and j: "jitter_ok i"
    and c: "call_handler iw row st = Inl e" and r: "get_row om_id (wd_messages st) (om_id row) = Some row"
    and p: "om_status row = OProcessing" "1 \<le> om_attempts row"
  shows "\<exists>t. pi_result_time i + secs 1 \<le> t \<and> t \<le> pi_result_time i + secs 3600 \<and>
    handle_row iw i row st = Inr (True, st\<lparr>wd_messages := update_ids om_id [om_id row] (failed_row t) (wd_messages st)\<rparr>)"
proof -
  define out where "out = \<lparr>do_kind = Retry, do_code = ''internal_handler_failed'', do_retry_after = 0, do_receipts = Map.empty\<rparr>"
  have o: "mk_delivery_outcome Retry ''internal_handler_failed'' 0 Map.empty = Inr out"
    by (simp add: out_def mk_delivery_outcome_def outcome_code_re_def regex_eval)
  obtain delay where d: "next_delay (pi_rnd i) (om_attempts row) out (iw_settings iw) = Inr delay"
    and b: "secs 1 \<le> delay" "delay \<le> secs 3600"
  proof -
    have "pi_rnd i (retry_ceiling (om_attempts row) (iw_settings iw)) \<le> secs 3600"
      using spec [OF j [unfolded jitter_ok_def], of "retry_ceiling (om_attempts row) (iw_settings iw)"]
        retry_ceiling_bounds [OF s p(2)] by (simp add: secs_def)
    then show thesis using that p(2) by (auto simp: next_delay_def out_def secs_def)
  qed
  have e: "ob_validate_error_code (VStr ''internal_handler_failed'') = Inr ''internal_handler_failed''"
    by (simp add: ob_validate_error_code_def regex_eval)
  show ?thesis
    using b r p c
    by (intro exI [of _ "pi_result_time i + delay"])
      (simp add: handle_row_def o d e mark_failed_def require_utc_def transition_def failed_row_def [abs_def])
qed


lemma first_due_Nil: "first_due iw i tbl = [] \<Longrightarrow> m \<in> set tbl \<Longrightarrow>
    batch_due (ws_max_attempts (iw_settings iw)) (pi_claim_time i) (Some (event_names iw)) tbl m \<Longrightarrow> pi_locked i (om_id m)"
  using select_rows_all [of "\<lambda>m. batch_due (ws_max_attempts (iw_settings iw)) (pi_claim_time i) (Some (event_names iw)) tbl m \<and>
     \<not> pi_locked i (om_id m)" batch_order 1 tbl m]
  by (auto simp: first_due_def)

lemma first_due_Cons:
  assumes "first_due iw i tbl = m # ms"
  shows "m \<in> set tbl" "batch_due (ws_max_attempts (iw_settings iw)) (pi_claim_time i) (Some (event_names iw)) tbl m"
    "\<not> pi_locked i (om_id m)"
proof -
  have "m \<in> set (first_due iw i tbl)" using assms by simp
  from set_select_rows_subset [OF this [unfolded first_due_def]]
  show "m \<in> set tbl" "batch_due (ws_max_attempts (iw_settings iw)) (pi_claim_time i) (Some (event_names iw)) tbl m"
    "\<not> pi_locked i (om_id m)" by simp_all
qed

text \<open>The row as the handler finds it, after the claim.\<close>

lemma claimed_row:
  assumes u: "unique_key om_id tbl" and f: "first_due iw i tbl = m # ms"
  shows "get_row om_id (update_ids om_id [om_id m] (batch_row t) tbl) (om_id m) = Some (batch_row t m)"
    "om_status (batch_row t m) = OProcessing" "om_claim_token (batch_row t m) = None"
    "om_attempts (batch_row t m) = om_attempts m + 1"
  using get_row_unique [OF u first_due_Cons(1) [OF f]] first_due_Cons(2) [OF f]
  by (auto simp: get_row_update_ids batch_row_def batch_due_def)

lemma call_handler_appends:
  assumes "handlers_append iw" "call_handler iw row st = Inr st'"
  shows "\<exists>new. wd_messages st' = wd_messages st @ new"
  using assms by (fastforce simp: handlers_append_def call_handler_def result_simps dest: map_of_SomeD split: option.splits)

text \<open>What one call does, as two relations: nothing to do, or one message handled.\<close>

definition idle_round :: "'d internal_worker \<Rightarrow> poll_input \<Rightarrow> 'd worker_store \<Rightarrow> 'd worker_store \<Rightarrow> bool" where
  "idle_round iw i st st' \<longleftrightarrow> st' = st \<and> (\<forall>m \<in> set (wd_messages st).
     batch_due (ws_max_attempts (iw_settings iw)) (pi_claim_time i) (Some (event_names iw)) (wd_messages st) m \<longrightarrow> pi_locked i (om_id m))"

definition handled_round :: "'d internal_worker \<Rightarrow> poll_input \<Rightarrow> outbox_message \<Rightarrow> 'd worker_store \<Rightarrow> 'd worker_store \<Rightarrow> bool" where
  "handled_round iw i m st st' \<longleftrightarrow>
     (let row = batch_row (pi_claim_time i) m;
          st1 = st\<lparr>wd_messages := update_ids om_id [om_id m] (batch_row (pi_claim_time i)) (wd_messages st)\<rparr> in
      case call_handler iw row st1 of
        Inr st2 \<Rightarrow> wd_data st' = wd_data st2 \<and>
          wd_messages st' = update_ids om_id [om_id m] (published_row (pi_result_time i)) (wd_messages st2) \<and>
          get_row om_id (wd_messages st') (om_id m) = Some (published_row (pi_result_time i) row)
      | Inl e \<Rightarrow> wd_data st' = wd_data st \<and>
          (\<exists>t. pi_result_time i + secs 1 \<le> t \<and> t \<le> pi_result_time i + secs 3600 \<and>
             wd_messages st' = update_ids om_id [om_id m] (failed_row t) (wd_messages st1) \<and>
             get_row om_id (wd_messages st') (om_id m) = Some (failed_row t row)))"

lemma handled_roundI:
  assumes w: "worker_ready iw" and h: "handlers_append iw" and j: "jitter_ok i"
    and u: "unique_key om_id (wd_messages st)" and a: "0 \<le> om_attempts m"
    and f: "first_due iw i (wd_messages st) = m # ms"
  shows "\<exists>st'. handle_row iw i (batch_row (pi_claim_time i) m)
      (st\<lparr>wd_messages := update_ids om_id [om_id m] (batch_row (pi_claim_time i)) (wd_messages st)\<rparr>) = Inr (True, st') \<and>
    handled_round iw i m st st'"
proof -
  let ?row = "batch_row (pi_claim_time i) m"
  let ?st = "st\<lparr>wd_messages := update_ids om_id [om_id m] (batch_row (pi_claim_time i)) (wd_messages st)\<rparr>"
  note c = claimed_row [OF u f, of "pi_claim_time i"]
  obtain s where s: "validate_settings (iw_settings iw) = Inr s" using w by (rule worker_ready_settings)
  show ?thesis
  proof (cases "call_handler iw ?row ?st")
    case (Inl e)
    from handle_row_failed [OF s j Inl] c a obtain t where t: "pi_result_time i + secs 1 \<le> t" "t \<le> pi_result_time i + secs 3600"
      "handle_row iw i ?row ?st = Inr (True, ?st\<lparr>wd_messages := update_ids om_id [om_id m] (failed_row t) (wd_messages ?st)\<rparr>)"
      by auto
    with c Inl show ?thesis by (auto simp: handled_round_def Let_def get_row_update_ids failed_row_def)
  next
    case (Inr st2)
    obtain new where new: "wd_messages st2 = wd_messages ?st @ new" using call_handler_appends [OF h Inr] by blast
    then have "get_row om_id (wd_messages st2) (om_id ?row) = Some ?row" using c(1) by (simp add: get_row_append)
    with handle_row_published [OF Inr this c(2,3)] Inr show ?thesis
      by (auto simp: handled_round_def Let_def get_row_update_ids published_row_def)
  qed
qed

lemma process_one_cases:
  assumes w: "worker_ready iw" and h: "handlers_append iw" and j: "jitter_ok i"
    and c: "outbox_constraints (wd_messages st)"
  obtains (idle) "internal_process_one iw i st = Inr (False, st)" "idle_round iw i st st"
  | (handled) m st' where "internal_process_one iw i st = Inr (True, st')" "m \<in> set (wd_messages st)"
      "batch_due (ws_max_attempts (iw_settings iw)) (pi_claim_time i) (Some (event_names iw)) (wd_messages st) m"
      "\<not> pi_locked i (om_id m)" "handled_round iw i m st st'"
proof (cases "first_due iw i (wd_messages st)")
  case Nil
  then show thesis using first_due_Nil [OF Nil] by (intro idle) (auto simp: process_one_eq [OF w] idle_round_def)
next
  case (Cons m ms)
  have u: "unique_key om_id (wd_messages st)" and a: "0 \<le> om_attempts m"
    using c first_due_Cons(1) [OF Cons] by (auto simp: outbox_constraints_def)
  from handled_roundI [OF w h j u a Cons] obtain st' where "internal_process_one iw i st = Inr (True, st')"
    "handled_round iw i m st st'" by (auto simp: process_one_eq [OF w] Cons)
  with first_due_Cons [OF Cons] show thesis by (intro handled)
qed

text \<open>Attempts left in a table; a round that handles a message uses one up.\<close>

definition attempts_left :: "'d internal_worker \<Rightarrow> outbox_message list \<Rightarrow> nat" where
  "attempts_left iw tbl = sum_list (map (\<lambda>m. nat (ws_max_attempts (iw_settings iw) - om_attempts m)) tbl)"

definition handlers_quiet :: "'d internal_worker \<Rightarrow> bool" where
  "handlers_quiet iw \<longleftrightarrow> (\<forall>n h e st st'. (n, h) \<in> set (iw_handlers iw) \<and> h e st = Inr st' \<longrightarrow> wd_messages st' = wd_messages st)"

lemma sum_list_map_less:
  fixes g :: "'a \<Rightarrow> nat"
  shows "\<forall>x \<in> set xs. g (F x) \<le> g x \<Longrightarrow> m \<in> set xs \<Longrightarrow> g (F m) < g m \<Longrightarrow>
    sum_list (map (\<lambda>x. g (F x)) xs) < sum_list (map g xs)"
proof (induction xs)
  case (Cons x xs)
  have le: "sum_list (map (\<lambda>x. g (F x)) xs) \<le> sum_list (map g xs)"
    by (rule sum_list_mono) (use Cons.prems(1) in auto)
  show ?case
  proof (cases "m = x")
    case True
    with Cons.prems le show ?thesis by simp
  next
    case False
    with Cons have "sum_list (map (\<lambda>x. g (F x)) xs) < sum_list (map g xs)" by simp
    with Cons.prems(1) show ?thesis by (simp add: add_le_less_mono)
  qed
qed simp

lemma update_ids_twice:
  "(\<And>m. om_id (f m) = om_id m) \<Longrightarrow> update_ids om_id ks g (update_ids om_id ks f tbl) = update_ids om_id ks (g \<circ> f) tbl"
  by (auto simp: update_ids_def update_where_def)

lemma row_after_keys [simp]:
  "om_id (published_row t m) = om_id m" "om_attempts (published_row t m) = om_attempts m"
  "om_id (failed_row t m) = om_id m" "om_attempts (failed_row t m) = om_attempts m"
  "om_attempts (batch_row t m) = om_attempts m + 1"
  by (simp_all add: published_row_def failed_row_def batch_row_def)

text \<open>The table after a round of quiet handlers: one row went through claim and result.\<close>

lemma quiet_round:
  assumes q: "handlers_quiet iw" and r: "handled_round iw i m st st'"
  shows "\<exists>g. (g = published_row (pi_result_time i) \<or> (\<exists>t. g = failed_row t)) \<and>
    wd_messages st' = update_ids om_id [om_id m] (g \<circ> batch_row (pi_claim_time i)) (wd_messages st)"
proof -
  let ?row = "batch_row (pi_claim_time i) m"
  let ?st = "st\<lparr>wd_messages := update_ids om_id [om_id m] (batch_row (pi_claim_time i)) (wd_messages st)\<rparr>"
  show ?thesis
  proof (cases "call_handler iw ?row ?st")
    case (Inl e)
    with r show ?thesis by (auto simp: handled_round_def Let_def update_ids_twice)
  next
    case (Inr st2)
    then have "wd_messages st2 = wd_messages ?st"
      using q by (fastforce simp: handlers_quiet_def call_handler_def result_simps dest: map_of_SomeD split: option.splits)
    with Inr r show ?thesis by (auto simp: handled_round_def Let_def update_ids_twice)
  qed
qed

lemma round_uses_attempt:
  assumes g: "g = published_row t \<or> (\<exists>t. g = failed_row t)" and m: "m \<in> set tbl" "om_attempts m < ws_max_attempts (iw_settings iw)"
  shows "attempts_left iw (update_ids om_id [om_id m] (g \<circ> batch_row t') tbl) < attempts_left iw tbl"
proof -
  let ?F = "\<lambda>r. if om_id r \<in> set [om_id m] then (g \<circ> batch_row t') r else r"
  have a: "om_attempts ((g \<circ> batch_row t') r) = om_attempts r + 1" for r
    using g by auto
  have "sum_list (map (\<lambda>x. nat (ws_max_attempts (iw_settings iw) - om_attempts (?F x))) tbl) <
      sum_list (map (\<lambda>x. nat (ws_max_attempts (iw_settings iw) - om_attempts x)) tbl)"
    by (rule sum_list_map_less [where m = m]) (use m in \<open>auto simp: a simp del: comp_apply\<close>)
  then show ?thesis by (simp add: attempts_left_def update_ids_def update_where_def comp_def cong: if_cong)
qed

lemma round_keeps_constraints:
  assumes g: "g = published_row t \<or> (\<exists>t. g = failed_row t)" and c: "outbox_constraints tbl"
  shows "outbox_constraints (update_ids om_id ks (g \<circ> batch_row t') tbl)"
proof -
  have k: "om_id ((g \<circ> batch_row t') m) = om_id m" "om_event_id ((g \<circ> batch_row t') m) = om_event_id m"
    "om_idempotency_key ((g \<circ> batch_row t') m) = om_idempotency_key m"
    "om_aggregate_version ((g \<circ> batch_row t') m) = om_aggregate_version m" "om_attempts ((g \<circ> batch_row t') m) = om_attempts m + 1"
    "om_retry_budget ((g \<circ> batch_row t') m) = om_retry_budget m" "lease_pair_valid ((g \<circ> batch_row t') m) = lease_pair_valid m" for m
    using g by (auto simp: published_row_def failed_row_def batch_row_def lease_pair_valid_def)
  have "\<forall>m \<in> set (update_ids om_id ks (g \<circ> batch_row t') tbl). 0 < om_aggregate_version m \<and> 0 \<le> om_attempts m \<and>
      0 < om_retry_budget m \<and> lease_pair_valid m"
    unfolding update_ids_def by (rule ball_update_whereI) (use c in \<open>auto simp: k outbox_constraints_def simp del: comp_apply\<close>)
  then show ?thesis using c k by (simp add: outbox_constraints_def unique_key_update_ids del: comp_apply)
qed


lemma rounds_drain:
  assumes w: "worker_ready iw" and q: "handlers_quiet iw"
  shows "list_all jitter_ok is \<Longrightarrow> outbox_constraints (wd_messages st) \<Longrightarrow>
    \<exists>hs st'. internal_rounds iw once stop is k st = Inr (hs, st') \<and> outbox_constraints (wd_messages st') \<and>
      length (filter (\<lambda>b. b) hs) + attempts_left iw (wd_messages st') \<le> attempts_left iw (wd_messages st)"
proof (induction "is" arbitrary: k st)
  case (Cons i "is")
  have h: "handlers_append iw" using q by (fastforce simp: handlers_quiet_def handlers_append_def)
  have j: "jitter_ok i" and js: "list_all jitter_ok is"
    using Cons.prems(1) by auto
  show ?case
  proof (cases "stop k")
    case True
    with Cons.prems(2) show ?thesis by simp
  next
    case go: False
    obtain b st1 where one: "internal_process_one iw i st = Inr (b, st1)" and c1: "outbox_constraints (wd_messages st1)"
      and less: "(if b then 1 else 0) + attempts_left iw (wd_messages st1) \<le> attempts_left iw (wd_messages st)"
      using w h j Cons.prems(2)
    proof (cases rule: process_one_cases)
      case idle
      with Cons.prems(2) show thesis by (intro that [of False st]) simp_all
    next
      case (handled m st')
      from quiet_round [OF q handled(5)] obtain g where g: "g = published_row (pi_result_time i) \<or> (\<exists>t. g = failed_row t)"
        and tbl: "wd_messages st' = update_ids om_id [om_id m] (g \<circ> batch_row (pi_claim_time i)) (wd_messages st)" by blast
      have "om_attempts m < ws_max_attempts (iw_settings iw)" using handled(3) by (simp add: batch_due_def)
      from round_uses_attempt [OF g handled(2) this] round_keeps_constraints [OF g Cons.prems(2)] handled(1) show thesis
        by (intro that [of True st']) (simp_all add: tbl Suc_leI del: comp_apply)
    qed
    from Cons.IH [OF js c1, of "Suc k"] obtain hs st2 where "internal_rounds iw once stop is (Suc k) st1 = Inr (hs, st2)"
      "outbox_constraints (wd_messages st2)" "length (filter (\<lambda>b. b) hs) + attempts_left iw (wd_messages st2) \<le> attempts_left iw (wd_messages st1)"
      by blast
    with go one c1 less show ?thesis by (cases once) (auto split: if_splits)
  qed
qed simp

section \<open>Concrete values\<close>

definition demo_internal :: "nat internal_worker" where
  "demo_internal = \<lparr>iw_handlers = [(''paid'', \<lambda>e st. Inr (st\<lparr>wd_data := Suc (wd_data st)\<rparr>))], iw_settings = default_settings\<rparr>"

definition demo_store :: "nat worker_store" where
  "demo_store = \<lparr>wd_data = 0, wd_messages = [demo_message 1 1 OPending]\<rparr>"

definition demo_poll :: poll_input where
  "demo_poll = \<lparr>pi_locked = \<lambda>_. False, pi_claim_time = 5, pi_result_time = 6, pi_rnd = \<lambda>c. 0\<rparr>"

lemma demo_internal_ready:
  "worker_ready demo_internal" "handlers_quiet demo_internal" "handlers_append demo_internal"
  "outbox_constraints (wd_messages demo_store)"
  by (auto simp: worker_ready_def demo_internal_def validate_settings_def default_settings_def secs_def millis_def regex_eval
      handlers_quiet_def handlers_append_def demo_store_def outbox_constraints_def unique_key_def demo_message_def lease_pair_valid_def)

section \<open>Properties\<close>

text \<open>
  C18: what a round of the internal worker does. With valid settings and event names, jitter within its ceiling
  and handlers that leave existing messages alone, a call never raises. Either no message of the worker's types
  is due and unlocked, and nothing changes; or one such message is handled: if its handler succeeds, its effects
  are kept and the message is published with them; if the handler, or the reading of the event, raises, every
  effect of the handler is undone and only the message changes, to failed and due again after a delay between
  one second and one hour.
\<close>

theorem internal_round_exact:
  assumes w: "worker_ready iw" and h: "handlers_append iw" and j: "jitter_ok i"
    and c: "outbox_constraints (wd_messages st)"
  shows "\<exists>b st'. internal_process_one iw i st = Inr (b, st') \<and>
    (if b then \<exists>m \<in> set (wd_messages st).
         batch_due (ws_max_attempts (iw_settings iw)) (pi_claim_time i) (Some (event_names iw)) (wd_messages st) m \<and>
         \<not> pi_locked i (om_id m) \<and> handled_round iw i m st st'
     else idle_round iw i st st')"
  using w h j c
proof (cases rule: process_one_cases)
  case (handled m st')
  then show ?thesis by (intro exI [of _ True] exI [of _ st']) auto
qed auto

theorem internal_round_exact_witness:
  "\<exists>st' m. internal_process_one demo_internal demo_poll demo_store = Inr (True, st') \<and> wd_data st' = 1 \<and>
    handled_round demo_internal demo_poll m demo_store st'"
proof -
  have j: "jitter_ok demo_poll" by (simp add: jitter_ok_def demo_poll_def secs_def)
  have e: "case internal_process_one demo_internal demo_poll demo_store of Inl e \<Rightarrow> False | Inr (b, st') \<Rightarrow> b \<and> wd_data st' = 1"
    by code_simp
  obtain b st' where "internal_process_one demo_internal demo_poll demo_store = Inr (b, st')"
    "if b then \<exists>m \<in> set (wd_messages demo_store).
         batch_due (ws_max_attempts (iw_settings demo_internal)) (pi_claim_time demo_poll) (Some (event_names demo_internal)) (wd_messages demo_store) m \<and>
         \<not> pi_locked demo_poll (om_id m) \<and> handled_round demo_internal demo_poll m demo_store st'
     else idle_round demo_internal demo_poll demo_store st'"
    using internal_round_exact [OF demo_internal_ready(1,3) j demo_internal_ready(4)] by blast
  with e show ?thesis by auto
qed



end
