(* ===== verification/Tx_Programs.thy ===== *)
theory Tx_Programs
  imports Unit_Of_Work
begin

text \<open>
  Application services as programs over a unit of work. A program gets the unit of work, may read and
  change the working database, talk to the world outside (Redis), commit and register callbacks, and
  returns a value or raises. \<open>run_tx\<close> is the request around it: \<open>async with\<close> a fresh unit of work.

  \<open>valid I P p Q\<close> is the triple the proofs use: started with the assertion \<open>P\<close> on the working
  database, \<open>p\<close> keeps the invariant \<open>I\<close> on the working and on the committed database, and if it
  returns a value \<open>x\<close>, the working database satisfies \<open>Q x\<close>. The rules follow the structure of programs.
\<close>

named_theorems valid_rules \<open>rules for triples of programs\<close>

section \<open>Programs\<close>

type_synonym ('a, 'db, 'w) prog = "('db, 'w) uow \<Rightarrow> (exn + 'a) \<times> ('db, 'w) uow"

definition ret :: "'a \<Rightarrow> ('a, 'db, 'w) prog" where
  "ret x s = (Inr x, s)"

definition throw :: "exn \<Rightarrow> ('a, 'db, 'w) prog" where
  "throw e s = (Inl e, s)"

definition bnd :: "('a, 'db, 'w) prog \<Rightarrow> ('a \<Rightarrow> ('b, 'db, 'w) prog) \<Rightarrow> ('b, 'db, 'w) prog" where
  "bnd p f s = (case p s of (Inl e, s') \<Rightarrow> (Inl e, s') | (Inr x, s') \<Rightarrow> f x s')"

text \<open>A computation that may raise and does not touch the session.\<close>

definition lift_r :: "exn + 'a \<Rightarrow> ('a, 'db, 'w) prog" where
  "lift_r r s = (r, s)"

text \<open>A statement on the session: it may raise, read and change the working database.\<close>

definition session_op :: "('db \<Rightarrow> exn + ('a \<times> 'db)) \<Rightarrow> ('a, 'db, 'w) prog" where
  "session_op f s =
     (if \<not> active s then (Inl inactive_error, s)
      else (case f (working s) of
        Inl e \<Rightarrow> (Inl e, s\<lparr>in_tx := True\<rparr>)
      | Inr (x, db) \<Rightarrow> (Inr x, s\<lparr>working := db, in_tx := True\<rparr>)))"

definition query :: "('db \<Rightarrow> 'a) \<Rightarrow> ('a, 'db, 'w) prog" where
  "query f = session_op (\<lambda>db. Inr (f db, db))"

definition modify :: "('db \<Rightarrow> 'db) \<Rightarrow> (unit, 'db, 'w) prog" where
  "modify f = session_op (\<lambda>db. Inr ((), f db))"

definition commit :: "(unit, 'db, 'w) prog" where
  "commit = uow_commit (\<lambda>db. None)"

definition rollback :: "(unit, 'db, 'w) prog" where
  "rollback = uow_rollback"

definition after_commit :: "'w callback \<Rightarrow> (unit, 'db, 'w) prog" where
  "after_commit c = uow_after_commit (Some c)"

text \<open>An effect outside the transaction, at once.\<close>

definition outside :: "('w \<Rightarrow> (exn + 'a) \<times> 'w) \<Rightarrow> ('a, 'db, 'w) prog" where
  "outside f s = (case f (external s) of (r, w) \<Rightarrow> (r, s\<lparr>external := w\<rparr>))"

text \<open>\<open>try: p except E: h\<close>, where \<open>E\<close> is a set of exceptions.\<close>

definition catch :: "('a, 'db, 'w) prog \<Rightarrow> (exn \<Rightarrow> bool) \<Rightarrow> (exn \<Rightarrow> ('a, 'db, 'w) prog) \<Rightarrow> ('a, 'db, 'w) prog" where
  "catch p E h s = (case p s of (Inl e, s') \<Rightarrow> if E e then h e s' else (Inl e, s') | (Inr x, s') \<Rightarrow> (Inr x, s'))"

definition guarded :: "bool \<Rightarrow> (unit, 'db, 'w) prog \<Rightarrow> (unit, 'db, 'w) prog" where
  "guarded b p = (if b then p else ret ())"

definition run_tx :: "('a, 'db, 'w) prog \<Rightarrow> 'db \<Rightarrow> 'w \<Rightarrow> (exn + 'a) \<times> 'db \<times> 'w" where
  "run_tx p db w = (case uow_enter (new_uow db w) of
     (Inl e, s) \<Rightarrow> (Inl e, durable s, external s)
   | (Inr _, s) \<Rightarrow> (case p s of (r, s') \<Rightarrow>
       (let s'' = snd (uow_exit s') in (r, durable s'', external s''))))"

section \<open>Triples\<close>

definition valid ::
  "('db \<Rightarrow> bool) \<Rightarrow> ('db \<Rightarrow> bool) \<Rightarrow> ('a, 'db, 'w) prog \<Rightarrow> ('a \<Rightarrow> 'db \<Rightarrow> bool) \<Rightarrow> bool" where
  "valid I P p Q \<longleftrightarrow> (\<forall>s r s'. active s \<and> I (durable s) \<and> I (working s) \<and> P (working s) \<and> p s = (r, s') \<longrightarrow>
     active s' \<and> I (durable s') \<and> I (working s') \<and> (case r of Inl e \<Rightarrow> True | Inr x \<Rightarrow> Q x (working s')))"

lemma valid_ret [valid_rules]: "(\<And>db. I db \<Longrightarrow> P db \<Longrightarrow> Q x db) \<Longrightarrow> valid I P (ret x) Q"
  by (auto simp: valid_def ret_def)

lemma valid_throw [valid_rules]: "valid I P (throw e) Q"
  by (auto simp: valid_def throw_def)

lemma valid_lift_r [valid_rules]: "(\<And>x db. r = Inr x \<Longrightarrow> I db \<Longrightarrow> P db \<Longrightarrow> Q x db) \<Longrightarrow> valid I P (lift_r r) Q"
  by (auto simp: valid_def lift_r_def split: sum.splits)

lemma valid_bnd:
  assumes "valid I P p R" and "\<And>x. valid I (R x) (f x) Q"
  shows "valid I P (bnd p f) Q"
  unfolding valid_def
proof (intro allI impI)
  fix s r s'
  assume a: "active s \<and> I (durable s) \<and> I (working s) \<and> P (working s) \<and> bnd p f s = (r, s')"
  obtain r1 s1 where p: "p s = (r1, s1)" by fastforce
  have s1: "active s1 \<and> I (durable s1) \<and> I (working s1) \<and> (case r1 of Inl e \<Rightarrow> True | Inr x \<Rightarrow> R x (working s1))"
    using assms(1) a p unfolding valid_def by blast
  show "active s' \<and> I (durable s') \<and> I (working s') \<and> (case r of Inl e \<Rightarrow> True | Inr x \<Rightarrow> Q x (working s'))"
  proof (cases r1)
    case (Inl e)
    with a p s1 show ?thesis by (auto simp: bnd_def)
  next
    case (Inr x)
    with a p s1 have "f x s1 = (r, s')" "R x (working s1)" by (simp_all add: bnd_def)
    with assms(2) [of x] s1 show ?thesis unfolding valid_def by blast
  qed
qed

lemma valid_query: "valid I P (query f) (\<lambda>x db. P db \<and> x = f db)"
  by (auto simp: valid_def query_def session_op_def)

lemma valid_query_bnd [valid_rules]:
  "(\<And>x. valid I (\<lambda>db. P db \<and> x = f db) (g x) Q) \<Longrightarrow> valid I P (bnd (query f) g) Q"
  by (rule valid_bnd [OF valid_query])

lemma valid_session_op:
  "(\<And>db x db'. I db \<Longrightarrow> P db \<Longrightarrow> f db = Inr (x, db') \<Longrightarrow> I db' \<and> Q x db') \<Longrightarrow> valid I P (session_op f) Q"
  by (auto simp: valid_def session_op_def split: sum.splits prod.splits if_splits)

lemma valid_modify:
  "(\<And>db. I db \<Longrightarrow> P db \<Longrightarrow> I (f db) \<and> Q () (f db)) \<Longrightarrow> valid I P (modify f) Q"
  unfolding modify_def by (rule valid_session_op) auto

lemma valid_commit [valid_rules]: "valid I P commit (\<lambda>x. P)"
  by (auto simp: valid_def commit_def uow_commit_def split: prod.splits sum.splits)

lemma valid_after_commit [valid_rules]: "valid I P (after_commit c) (\<lambda>x. P)"
  by (auto simp: valid_def after_commit_def uow_after_commit_def)

lemma valid_outside [valid_rules]: "valid I P (outside f) (\<lambda>x. P)"
  by (auto simp: valid_def outside_def split: prod.splits sum.splits)

lemma valid_catch:
  assumes "valid I P p Q" and "\<And>e. E e \<Longrightarrow> valid I (\<lambda>db. True) (h e) Q"
  shows "valid I P (catch p E h) Q"
  unfolding valid_def
proof (intro allI impI)
  fix s r s'
  assume a: "active s \<and> I (durable s) \<and> I (working s) \<and> P (working s) \<and> catch p E h s = (r, s')"
  obtain r1 s1 where p: "p s = (r1, s1)" by fastforce
  have s1: "active s1 \<and> I (durable s1) \<and> I (working s1) \<and> (case r1 of Inl e \<Rightarrow> True | Inr x \<Rightarrow> Q x (working s1))"
    using assms(1) a p unfolding valid_def by blast
  show "active s' \<and> I (durable s') \<and> I (working s') \<and> (case r of Inl e \<Rightarrow> True | Inr x \<Rightarrow> Q x (working s'))"
  proof (cases "\<exists>e. r1 = Inl e \<and> E e")
    case True
    then obtain e where e: "r1 = Inl e" "E e" by blast
    with a p have "h e s1 = (r, s')" by (simp add: catch_def)
    with assms(2) [OF e(2)] s1 show ?thesis unfolding valid_def by blast
  next
    case False
    with a p s1 show ?thesis by (cases r1) (auto simp: catch_def split: if_splits)
  qed
qed

lemma valid_guarded: "valid I P p (\<lambda>x. Q) \<Longrightarrow> (\<And>db. P db \<Longrightarrow> Q db) \<Longrightarrow> valid I P (guarded b p) (\<lambda>x. Q)"
  by (auto simp: guarded_def intro: valid_ret)

lemma valid_weaken:
  assumes "valid I P p Q" and "\<And>db. I db \<Longrightarrow> P' db \<Longrightarrow> P db" and "\<And>x db. I db \<Longrightarrow> Q x db \<Longrightarrow> Q' x db"
  shows "valid I P' p Q'"
  unfolding valid_def
proof (intro allI impI)
  fix s r s'
  assume a: "active s \<and> I (durable s) \<and> I (working s) \<and> P' (working s) \<and> p s = (r, s')"
  then have "P (working s)" using assms(2) by blast
  with a assms(1) have "active s' \<and> I (durable s') \<and> I (working s') \<and> (case r of Inl e \<Rightarrow> True | Inr x \<Rightarrow> Q x (working s'))"
    unfolding valid_def by blast
  with assms(3) show "active s' \<and> I (durable s') \<and> I (working s') \<and> (case r of Inl e \<Rightarrow> True | Inr x \<Rightarrow> Q' x (working s'))"
    by (auto split: sum.splits)
qed

lemma valid_if [valid_rules]:
  "(b \<Longrightarrow> valid I P p Q) \<Longrightarrow> (\<not> b \<Longrightarrow> valid I P q Q) \<Longrightarrow> valid I P (if b then p else q) Q"
  by simp

text \<open>What a triple says about a whole request: the committed database keeps the invariant.\<close>

lemma valid_run_tx:
  assumes "valid I (\<lambda>db. True) p Q" and "I db" and "run_tx p db w = (r, db', w')"
  shows "I db'"
proof -
  let ?s0 = "(new_uow db w)\<lparr>used := True, active := True, working := db, needs_rollback := True\<rparr>"
  have en: "uow_enter (new_uow db w) = (Inr (), ?s0)" by (simp add: uow_enter_def new_uow_def)
  obtain q s' where p: "p ?s0 = (q, s')" by fastforce
  have "active s' \<and> I (durable s')"
  proof -
    have "active ?s0 \<and> I (durable ?s0) \<and> I (working ?s0) \<and> True \<and> p ?s0 = (q, s')"
      using assms(2) p by (simp add: new_uow_def)
    with assms(1) show ?thesis unfolding valid_def by blast
  qed
  moreover have "db' = durable (snd (uow_exit s'))"
    using assms(3) p by (simp add: run_tx_def en Let_def)
  ultimately show ?thesis by (auto simp: uow_exit_def session_rollback_def Let_def)
qed

text \<open>A body that raises without having committed leaves the committed database as it was.\<close>

lemma valid_False: "valid I (\<lambda>db. False) p Q"
  by (simp add: valid_def)

section \<open>Programs that keep an invariant\<close>

named_theorems keeps_rules \<open>introduction rules for keeps\<close>

definition keeps :: "('db \<Rightarrow> bool) \<Rightarrow> ('a, 'db, 'w) prog \<Rightarrow> bool" where
  "keeps I p \<longleftrightarrow> valid I (\<lambda>db. True) p (\<lambda>x db. True)"

lemma keepsI: "valid I (\<lambda>db. True) p Q \<Longrightarrow> keeps I p"
  unfolding keeps_def by (rule valid_weaken) auto

lemma keeps_valid: "keeps I p \<Longrightarrow> valid I P p (\<lambda>x db. True)"
  unfolding keeps_def by (rule valid_weaken) auto

lemma keeps_ret [keeps_rules]: "keeps I (ret x)"
  unfolding keeps_def by (rule valid_ret) simp

lemma keeps_throw [keeps_rules]: "keeps I (throw e)"
  unfolding keeps_def by (rule valid_throw)

lemma keeps_lift_r [keeps_rules]: "keeps I (lift_r r)"
  unfolding keeps_def by (rule valid_lift_r) simp

lemma keeps_query [keeps_rules]: "keeps I (query f)"
  by (rule keepsI [OF valid_query])

lemma keeps_commit [keeps_rules]: "keeps I commit"
  unfolding keeps_def by (rule valid_commit)

lemma keeps_after_commit [keeps_rules]: "keeps I (after_commit c)"
  unfolding keeps_def by (rule valid_after_commit)

lemma keeps_outside [keeps_rules]: "keeps I (outside f)"
  unfolding keeps_def by (rule valid_outside)

lemma keeps_bnd [keeps_rules]: "keeps I p \<Longrightarrow> (\<And>x. keeps I (f x)) \<Longrightarrow> keeps I (bnd p f)"
  unfolding keeps_def by (rule valid_bnd)

lemma keeps_catch [keeps_rules]: "keeps I p \<Longrightarrow> (\<And>e. keeps I (h e)) \<Longrightarrow> keeps I (catch p E h)"
  unfolding keeps_def by (rule valid_catch)

lemma keeps_if [keeps_rules]: "keeps I p \<Longrightarrow> keeps I q \<Longrightarrow> keeps I (if b then p else q)"
  by simp

lemma keeps_option [keeps_rules]:
  "keeps I p \<Longrightarrow> (\<And>x. keeps I (f x)) \<Longrightarrow> keeps I (case v of None \<Rightarrow> p | Some x \<Rightarrow> f x)"
  by (cases v) simp_all

lemma keeps_prod [keeps_rules]: "(\<And>x y. keeps I (f x y)) \<Longrightarrow> keeps I (case v of (x, y) \<Rightarrow> f x y)"
  by (cases v) simp

lemma keeps_session_op:
  "(\<And>db x db'. I db \<Longrightarrow> f db = Inr (x, db') \<Longrightarrow> I db') \<Longrightarrow> keeps I (session_op f)"
  unfolding keeps_def by (rule valid_session_op) auto

lemma keeps_modify: "(\<And>db. I db \<Longrightarrow> I (f db)) \<Longrightarrow> keeps I (modify f)"
  unfolding keeps_def by (rule valid_modify) auto

lemma keeps_run_tx: "keeps I p \<Longrightarrow> I db \<Longrightarrow> run_tx p db w = (r, db', w') \<Longrightarrow> I db'"
  unfolding keeps_def by (rule valid_run_tx)

text \<open>A read that later steps rely on.\<close>

lemma keeps_query_bnd: "(\<And>x. valid I (\<lambda>db. x = f db) (g x) (\<lambda>y db. True)) \<Longrightarrow> keeps I (bnd (query f) g)"
  unfolding keeps_def by (rule valid_query_bnd) simp

lemma valid_bnd_keeps: "valid I P p Q \<Longrightarrow> (\<And>x. keeps I (f x)) \<Longrightarrow> valid I P (bnd p f) (\<lambda>y db. True)"
  by (rule valid_bnd [where R = Q]) (simp_all add: keeps_valid)

lemma keeps_lift_bnd: "(\<And>x. r = Inr x \<Longrightarrow> keeps I (f x)) \<Longrightarrow> keeps I (bnd (lift_r r) f)"
proof (cases r)
  case (Inl e)
  then have "bnd (lift_r r) f = throw e" by (simp add: fun_eq_iff bnd_def lift_r_def throw_def)
  then show ?thesis by (simp add: keeps_throw)
next
  case (Inr x)
  then have "bnd (lift_r r) f = f x" by (simp add: fun_eq_iff bnd_def lift_r_def)
  moreover assume "\<And>x. r = Inr x \<Longrightarrow> keeps I (f x)"
  ultimately show ?thesis using Inr by simp
qed

lemma keeps_guarded [keeps_rules]: "keeps I p \<Longrightarrow> keeps I (guarded b p)"
  by (simp add: guarded_def keeps_ret)

lemma keeps_rollback [keeps_rules]: "keeps I rollback"
  by (auto simp: keeps_def valid_def rollback_def uow_rollback_def session_rollback_def)

lemma keeps_sum [keeps_rules]:
  "(\<And>x. keeps I (f x)) \<Longrightarrow> (\<And>y. keeps I (g y)) \<Longrightarrow> keeps I (case v of Inl x \<Rightarrow> f x | Inr y \<Rightarrow> g y)"
  by (cases v) simp_all

section \<open>Successful runs\<close>

named_theorems run_simps \<open>inversion of runs that return a value\<close>

lemma ret_Inr [run_simps]: "ret x s = (Inr y, s') \<longleftrightarrow> y = x \<and> s' = s"
  by (auto simp: ret_def)

lemma throw_Inr [run_simps]: "throw e s \<noteq> (Inr y, s')"
  by (simp add: throw_def)

lemma lift_r_Inr [run_simps]: "lift_r r s = (Inr y, s') \<longleftrightarrow> r = Inr y \<and> s' = s"
  by (auto simp: lift_r_def)

lemma bnd_Inr [run_simps]: "bnd p f s = (Inr y, s') \<longleftrightarrow> (\<exists>x s1. p s = (Inr x, s1) \<and> f x s1 = (Inr y, s'))"
  by (auto simp: bnd_def split: prod.splits sum.splits)

lemma session_op_Inr [run_simps]:
  "session_op f s = (Inr x, s') \<longleftrightarrow> active s \<and> (\<exists>db. f (working s) = Inr (x, db) \<and> s' = s\<lparr>working := db, in_tx := True\<rparr>)"
  by (auto simp: session_op_def split: sum.splits prod.splits)

lemma query_Inr [run_simps]: "query f s = (Inr x, s') \<longleftrightarrow> active s \<and> x = f (working s) \<and> s' = s\<lparr>in_tx := True\<rparr>"
  by (auto simp: query_def session_op_Inr)

lemma modify_Inr [run_simps]: "modify f s = (Inr u, s') \<longleftrightarrow> active s \<and> s' = s\<lparr>working := f (working s), in_tx := True\<rparr>"
  by (auto simp: modify_def session_op_Inr)

lemma commit_Inr [run_simps]:
  "commit s = (Inr u, s') \<longleftrightarrow> active s \<and> (\<exists>w. run_callbacks (callbacks s) (external s) = (Inr (), w) \<and>
     s' = s\<lparr>durable := working s, in_tx := False, needs_rollback := False, callbacks := [], external := w\<rparr>)"
  by (auto simp: commit_def uow_commit_def split: prod.splits)

lemma after_commit_Inr [run_simps]:
  "after_commit c s = (Inr u, s') \<longleftrightarrow> active s \<and> s' = s\<lparr>callbacks := callbacks s @ [c]\<rparr>"
  by (auto simp: after_commit_def uow_after_commit_def)

lemma catch_Inr [run_simps]:
  "catch p E h s = (Inr x, s') \<longleftrightarrow> p s = (Inr x, s') \<or> (\<exists>e s1. p s = (Inl e, s1) \<and> E e \<and> h e s1 = (Inr x, s'))"
  by (auto simp: catch_def split: prod.splits sum.splits)

lemma guarded_Inr [run_simps]:
  "guarded b p s = (Inr u, s') \<longleftrightarrow> (if b then p s = (Inr u, s') else s' = s)"
  by (simp add: guarded_def ret_Inr)

lemma rollback_Inr [run_simps]:
  "rollback s = (Inr u, s') \<longleftrightarrow> active s \<and> s' = s\<lparr>working := durable s, in_tx := False, callbacks := [], needs_rollback := False\<rparr>"
  by (auto simp: rollback_def uow_rollback_def session_rollback_def)

lemma option_Inr [run_simps]:
  "(case v of None \<Rightarrow> p | Some x \<Rightarrow> f x) s = (Inr y, s') \<longleftrightarrow>
    (v = None \<and> p s = (Inr y, s')) \<or> (\<exists>x. v = Some x \<and> f x s = (Inr y, s'))"
  by (cases v) simp_all

lemma if_Inr [run_simps]:
  "(if b then p else q) s = (Inr y, s') \<longleftrightarrow> (b \<and> p s = (Inr y, s')) \<or> (\<not> b \<and> q s = (Inr y, s'))"
  by simp

lemma prod_Inr [run_simps]:
  "(case v of (a, b) \<Rightarrow> f a b) s = (Inr y, s') \<longleftrightarrow> (\<exists>a b. v = (a, b) \<and> f a b s = (Inr y, s'))"
  by (cases v) simp

text \<open>A request that returns a value has run its program from a fresh unit of work.\<close>

definition started :: "'db \<Rightarrow> 'w \<Rightarrow> ('db, 'w) uow" where
  "started db w = \<lparr>durable = db, working = db, external = w, callbacks = [], active = True,
     used = True, needs_rollback = True, in_tx = False\<rparr>"

lemma run_tx_started:
  "run_tx p db w = (case p (started db w) of (r, s) \<Rightarrow> (r, durable (snd (uow_exit s)), external (snd (uow_exit s))))"
  by (simp add: run_tx_def uow_enter_def new_uow_def started_def Let_def)

lemma exit_keeps [simp]: "durable (snd (uow_exit s)) = durable s" "external (snd (uow_exit s)) = external s"
  by (simp_all add: uow_exit_def session_rollback_def Let_def)

lemma started_simps [simp]: "durable (started db w) = db" "working (started db w) = db"
  "external (started db w) = w" "callbacks (started db w) = []" "active (started db w)"
  by (simp_all add: started_def)

lemma run_tx_eq:
  "run_tx p db w = (r, db', w') \<longleftrightarrow> (\<exists>s'. p (started db w) = (r, s') \<and> db' = durable s' \<and> w' = external s')"
  by (auto simp: run_tx_started split: prod.splits)

end
