(* ===== verification/Timestamps.thy ===== *)
theory Timestamps
  imports Core_Types
begin

text \<open>
  \<open>serialize_utc\<close> of \<open>core/types.py\<close>: ISO 8601 text of an instant. The proleptic Gregorian calendar of
  Python's \<open>datetime\<close> is computed from the day number: an era has 146097 days, years are counted
  from March so that the leap day is the last of its year.
\<close>

section \<open>Calendar\<close>

definition civil_of_days :: "int \<Rightarrow> int \<times> int \<times> int" where
  "civil_of_days days =
     (let z = days + 719468; era = z div 146097; doe = z mod 146097;
          yoe = (doe - doe div 1460 + doe div 36524 - doe div 146096) div 365;
          doy = doe - (365 * yoe + yoe div 4 - yoe div 100);
          mp = (5 * doy + 2) div 153;
          d = doy - (153 * mp + 2) div 5 + 1;
          m = (if mp < 10 then mp + 3 else mp - 9)
      in (yoe + era * 400 + (if m \<le> 2 then 1 else 0), m, d))"

text \<open>A number padded with zeros to a width.\<close>

definition zero_pad :: "nat \<Rightarrow> int \<Rightarrow> string" where
  "zero_pad w n = (let s = nat_digits (nat n) in replicate (w - length s) (CHR ''0'') @ s)"

text \<open>\<open>isoformat()\<close> of a UTC datetime, with its offset written \<open>Z\<close>; microseconds only if there are any.\<close>

definition iso_utc :: "instant \<Rightarrow> string" where
  "iso_utc t =
     (let s = t div 1000000; us = t mod 1000000; days = s div 86400; r = s mod 86400
      in case civil_of_days days of (y, m, d) \<Rightarrow>
        zero_pad 4 y @ ''-'' @ zero_pad 2 m @ ''-'' @ zero_pad 2 d @ ''T'' @
        zero_pad 2 (r div 3600) @ '':'' @ zero_pad 2 (r div 60 mod 60) @ '':'' @ zero_pad 2 (r mod 60) @
        (if us = 0 then [] else ''.'' @ zero_pad 6 us) @ ''Z'')"

definition serialize_utc :: "pyval \<Rightarrow> exn + string" where
  "serialize_utc v = bind_r (require_utc v) (\<lambda>t. Inr (iso_utc t))"

section \<open>Facts\<close>

text \<open>A leap day, 2024-02-29T12:30:05.000007, as an example.\<close>

lemma iso_leap_day: "iso_utc 1709209805000007 = ''2024-02-29T12:30:05.000007Z''"
  by code_simp

lemma nat_digits_length: "n < 10 ^ Suc k \<Longrightarrow> length (nat_digits n) \<le> Suc k"
proof (induction k arbitrary: n)
  case 0
  then show ?case by (simp add: nat_digits.simps)
next
  case (Suc k)
  show ?case
  proof (cases "n < 10")
    case True
    then show ?thesis by (simp add: nat_digits.simps)
  next
    case False
    have "n div 10 < 10 ^ Suc k" using Suc.prems by (simp add: div_less_iff_less_mult mult.commute)
    from Suc.IH [OF this] False show ?thesis by (simp add: nat_digits.simps [of n])
  qed
qed

lemma zero_pad_length:
  assumes "0 \<le> n" "n < 10 ^ w" "0 < w"
  shows "length (zero_pad w n) = w"
proof -
  obtain k where w: "w = Suc k" using assms(3) by (cases w) auto
  have "nat n < 10 ^ w" using assms(1,2) by (simp add: nat_less_iff)
  then have "length (nat_digits (nat n)) \<le> w" unfolding w by (rule nat_digits_length)
  then show ?thesis by (simp add: zero_pad_def Let_def)
qed

end
