(* ===== verification/Audit_Trail.thy ===== *)
theory Audit_Trail
  imports Timestamps Json
begin

text \<open>
  The audit trail: \<open>audit/model.py\<close>, \<open>audit/service.py\<close> and \<open>audit/events.py\<close>. A recorded value is a
  \<open>pyval\<close>; the metadata of a record is the list of its items. The text \<open>json.dumps\<close> writes for a float
  is the interpreter's shortest representation, the argument \<open>fr\<close>; strings are over the code points
  0 to 255, so a character takes one or two bytes of UTF-8.
\<close>

section \<open>Model\<close>

datatype actor_kind = Customer_Actor | Administrator_Actor | System_Actor | Anonymous_Actor
datatype audit_outcome = Audit_Succeeded | Audit_Denied | Audit_Failed

record audit_actor =
  aa_kind :: actor_kind
  aa_actor_id :: "uuid option"

record audit_record =
  ar_id :: uuid
  ar_actor_kind :: actor_kind
  ar_actor_id :: "uuid option"
  ar_action :: string
  ar_target_type :: string
  ar_target_id :: uuid
  ar_outcome :: audit_outcome
  ar_occurred_at :: instant
  ar_correlation_id :: string
  ar_metadata :: "(string \<times> pyval) list"

text \<open>\<open>AuditActor.__post_init__\<close>; \<open>actor_id\<close> is the value passed in.\<close>

definition mk_audit_actor :: "actor_kind \<Rightarrow> pyval \<Rightarrow> exn + audit_actor" where
  "mk_audit_actor kind actor_id =
     (if kind = Customer_Actor \<or> kind = Administrator_Actor
      then (if actor_id = VNone
            then Inl (ValueError ''customer and administrator audit actors require actor_id'')
            else (case actor_id of VUuid x \<Rightarrow> Inr \<lparr>aa_kind = kind, aa_actor_id = Some x\<rparr>
                  | _ \<Rightarrow> Inl (TypeError ''actor_id must be a UUID'')))
      else (if actor_id \<noteq> VNone
            then Inl (ValueError ''system and anonymous audit actors cannot have actor_id'')
            else Inr \<lparr>aa_kind = kind, aa_actor_id = None\<rparr>))"

section \<open>Sanitising metadata\<close>

definition redacted_value :: string where "redacted_value = ''[REDACTED]''"
definition max_metadata_bytes :: nat where "max_metadata_bytes = 16384"
definition max_metadata_depth :: int where "max_metadata_depth = 4"
definition max_mapping_fields :: nat where "max_mapping_fields = 50"
definition max_list_items :: nat where "max_list_items = 20"
definition max_total_values :: int where "max_total_values = 100"
definition max_string_length :: nat where "max_string_length = 500"

definition sensitive_metadata_key_parts :: "string list" where
  "sensitive_metadata_key_parts =
     [''address'', ''authorization'', ''body'', ''card'', ''cardholder'', ''connection'', ''cookie'',
      ''credential'', ''cvc'', ''cvv'', ''email'', ''hash'', ''ip'', ''otp'', ''pan'', ''password'',
      ''passwd'', ''payload'', ''phone'', ''secret'', ''session'', ''token'']"

text \<open>\<open>re.sub(r"(?<=[a-z0-9])(?=[A-Z])", "_", key)\<close>: an underscore between a word and a capital.\<close>

fun split_camel :: "string \<Rightarrow> string" where
  "split_camel (a # b # s) =
     (if in_class lower_digit a \<and> in_class [(CHR ''A'', CHR ''Z'')] b
      then a # CHR ''_'' # split_camel (b # s) else a # split_camel (b # s))"
| "split_camel s = s"

text \<open>\<open>re.findall(r"[a-z0-9]+", s)\<close>: the maximal runs of lowercase letters and digits.\<close>

fun word_runs :: "string \<Rightarrow> string \<Rightarrow> string list" where
  "word_runs w [] = (if w = [] then [] else [w])"
| "word_runs w (c # s) =
     (if in_class lower_digit c then word_runs (w @ [c]) s
      else (if w = [] then word_runs [] s else w # word_runs [] s))"

definition is_sensitive_key :: "case_map \<Rightarrow> string \<Rightarrow> bool" where
  "is_sensitive_key u key = list_ex (\<lambda>p. p \<in> set sensitive_metadata_key_parts)
     (word_runs [] (py_casefold u (split_camel key)))"

definition safe_key_re :: regex where
  "safe_key_re = Seq (Cls lower) (ClsRep (lower_digit @ [(CHR ''_'', CHR ''_'')]) 0 99)"

definition validate_allowed_keys :: "string list \<Rightarrow> exn + unit" where
  "validate_allowed_keys ks =
     (if max_total_values < int (length (remdups ks)) then Inl (ValueError ''too many allowed audit metadata keys'')
      else if list_ex (\<lambda>k. \<not> fullmatch safe_key_re k) ks
        then Inl (ValueError ''allowed audit metadata keys must use safe snake case'')
      else Inr ())"

text \<open>
  The recursion of \<open>_sanitize_value\<close> and \<open>_sanitize_mapping\<close>, with the shared budget threaded through
  in evaluation order. \<open>sanitize_items\<close> is the loop over the items of a mapping at depth \<open>d\<close>,
  \<open>sanitize_list\<close> the loop over the items of a list whose elements are at depth \<open>d\<close>.
\<close>

definition consume_budget :: "int \<Rightarrow> exn + int" where
  "consume_budget b = (if b - 1 < 0 then Inl (ValueError ''audit metadata contains too many values'') else Inr (b - 1))"

definition validate_depth :: "int \<Rightarrow> exn + unit" where
  "validate_depth d = require (d \<le> max_metadata_depth) (ValueError ''audit metadata exceeds the nesting limit'')"

fun sanitize_value :: "case_map \<Rightarrow> string list \<Rightarrow> pyval \<Rightarrow> int \<Rightarrow> int \<Rightarrow> exn + (pyval \<times> int)"
  and sanitize_list :: "case_map \<Rightarrow> string list \<Rightarrow> pyval list \<Rightarrow> int \<Rightarrow> int \<Rightarrow> exn + (pyval list \<times> int)"
  and sanitize_items ::
    "case_map \<Rightarrow> string list \<Rightarrow> (pyval \<times> pyval) list \<Rightarrow> int \<Rightarrow> int \<Rightarrow> exn + ((string \<times> pyval) list \<times> int)"
where
  "sanitize_value u al v d b =
     bind_r (validate_depth d) (\<lambda>_. case v of
        VNone \<Rightarrow> Inr (v, b)
      | VBool x \<Rightarrow> Inr (v, b)
      | VInt n \<Rightarrow> Inr (v, b)
      | VFloat f \<Rightarrow> (case f of Finite m e \<Rightarrow> Inr (v, b)
          | _ \<Rightarrow> Inl (ValueError ''audit metadata numbers must be finite''))
      | VStr s \<Rightarrow> Inr (VStr (take max_string_length s), b)
      | VUuid x \<Rightarrow> Inr (VStr (uuid_str x), b)
      | VDatetime t \<Rightarrow> bind_r (serialize_utc v) (\<lambda>s. Inr (VStr s, b))
      | VDict kvs \<Rightarrow>
          if max_mapping_fields < length kvs
          then Inl (ValueError ''audit metadata mapping contains too many fields'')
          else bind_r (sanitize_items u al kvs d b) (\<lambda>(ys, b'). Inr (VDict (str_items ys), b'))
      | VList xs \<Rightarrow>
          if max_list_items < length xs then Inl (ValueError ''audit metadata list contains too many items'')
          else bind_r (sanitize_list u al xs (d + 1) b) (\<lambda>(ys, b'). Inr (VList ys, b'))
      | VTuple xs \<Rightarrow>
          if max_list_items < length xs then Inl (ValueError ''audit metadata list contains too many items'')
          else bind_r (sanitize_list u al xs (d + 1) b) (\<lambda>(ys, b'). Inr (VList ys, b'))
      | VTimedelta x \<Rightarrow> Inl (TypeError ''audit metadata contains an unsupported value'')
      | VOther \<Rightarrow> Inl (TypeError ''audit metadata contains an unsupported value''))"
| "sanitize_list u al [] d b = Inr ([], b)"
| "sanitize_list u al (x # xs) d b =
     bind_r (consume_budget b) (\<lambda>b1.
     bind_r (sanitize_value u al x d b1) (\<lambda>(y, b2).
     bind_r (sanitize_list u al xs d b2) (\<lambda>(ys, b3). Inr (y # ys, b3))))"
| "sanitize_items u al [] d b = Inr ([], b)"
| "sanitize_items u al ((k, x) # kvs) d b = (case k of
     VStr s \<Rightarrow>
       if s \<notin> set al then sanitize_items u al kvs d b
       else bind_r (consume_budget b) (\<lambda>b1.
         if is_sensitive_key u s
         then bind_r (sanitize_items u al kvs d b1) (\<lambda>(ys, b2). Inr ((s, VStr redacted_value) # ys, b2))
         else bind_r (sanitize_value u al x (d + 1) b1) (\<lambda>(y, b2).
           bind_r (sanitize_items u al kvs d b2) (\<lambda>(ys, b3). Inr ((s, y) # ys, b3))))
   | _ \<Rightarrow> Inl (TypeError ''audit metadata keys must be strings''))"

declare sanitize_value.simps [simp del]

text \<open>\<open>json.dumps(..., ensure_ascii=False, separators=(",", ":"))\<close> and its length in UTF-8.\<close>

definition json_char :: "char \<Rightarrow> string" where
  "json_char c = (if c = CHR 0x22 then [CHR 0x5C, CHR 0x22]
     else if c = CHR 0x5C then [CHR 0x5C, CHR 0x5C]
     else if ord c = 10 then [CHR 0x5C, CHR ''n'']
     else if ord c = 13 then [CHR 0x5C, CHR ''r'']
     else if ord c = 9 then [CHR 0x5C, CHR ''t'']
     else if ord c = 8 then [CHR 0x5C, CHR ''b'']
     else if ord c = 12 then [CHR 0x5C, CHR ''f'']
     else if ord c < 32 then CHR 0x5C # ''u00'' @ hex_fixed 2 (ord c)
     else [c])"

definition json_string :: "string \<Rightarrow> string" where
  "json_string s = [CHR 0x22] @ concat (map json_char s) @ [CHR 0x22]"

fun json_dumps :: "(pyfloat \<Rightarrow> string) \<Rightarrow> pyval \<Rightarrow> string" where
  "json_dumps fr VNone = ''null''"
| "json_dumps fr (VBool b) = (if b then ''true'' else ''false'')"
| "json_dumps fr (VInt n) = py_str_int n"
| "json_dumps fr (VFloat f) = fr f"
| "json_dumps fr (VStr s) = json_string s"
| "json_dumps fr (VList xs) = ''['' @ py_join '','' (map (json_dumps fr) xs) @ '']''"
| "json_dumps fr (VTuple xs) = ''['' @ py_join '','' (map (json_dumps fr) xs) @ '']''"
| "json_dumps fr (VDict kvs) =
     ''{'' @ py_join '','' (map (\<lambda>(k, v). (case k of VStr s \<Rightarrow> json_string s | _ \<Rightarrow> []) @ '':'' @ json_dumps fr v) kvs) @ ''}''"
| "json_dumps fr _ = []"

definition utf8_length :: "string \<Rightarrow> nat" where
  "utf8_length s = sum_list (map (\<lambda>c. if is_ascii c then 1 else 2) s)"

definition sanitize_audit_metadata ::
  "case_map \<Rightarrow> (pyfloat \<Rightarrow> string) \<Rightarrow> pyval \<Rightarrow> string list \<Rightarrow> exn + (string \<times> pyval) list" where
  "sanitize_audit_metadata u fr metadata allowed = (case metadata of
     VDict kvs \<Rightarrow>
       bind_r (validate_allowed_keys allowed) (\<lambda>_.
       bind_r (validate_depth 0) (\<lambda>_.
       if max_mapping_fields < length kvs
       then Inl (ValueError ''audit metadata mapping contains too many fields'')
       else bind_r (sanitize_items u allowed kvs 0 max_total_values) (\<lambda>(ys, b).
         if max_metadata_bytes < utf8_length (json_dumps fr (VDict (str_items ys)))
         then Inl (ValueError ''audit metadata exceeds the byte limit'')
         else Inr ys)))
   | _ \<Rightarrow> Inl (TypeError ''audit metadata must be a mapping''))"

section \<open>Recording\<close>

definition safe_name_re :: regex where
  "safe_name_re = Seq (Cls lower) (Seq (Star (Cls lower_digit))
     (Star (Seq (Cls [(CHR ''.'', CHR ''.''), (CHR ''_'', CHR ''_''), (CHR '':'', CHR '':''), (CHR ''-'', CHR ''-'')])
        (plus_re (Cls lower_digit)))))"

definition validate_name :: "string \<Rightarrow> pyval \<Rightarrow> exn + string" where
  "validate_name name v =
     (let e = Inl (ValueError (name @ '' must use 1-100 safe lowercase characters'')) in
      case v of VStr s \<Rightarrow> if 100 < length s \<or> \<not> fullmatch safe_name_re s then e else Inr s | _ \<Rightarrow> e)"

definition validate_correlation_id :: "pyval \<Rightarrow> exn + string" where
  "validate_correlation_id v = (let e = Inl (ValueError ''correlation_id must use 1-128 safe characters'') in
     case v of VStr s \<Rightarrow> if fullmatch (key_re 127) s then Inr s else e | _ \<Rightarrow> e)"

text \<open>\<open>record\<close> stages a row: the new record, with the primary key \<open>uuid4\<close> gives.\<close>

definition record_audit ::
  "case_map \<Rightarrow> (pyfloat \<Rightarrow> string) \<Rightarrow> instant \<Rightarrow> uuid \<Rightarrow> audit_actor \<Rightarrow> pyval \<Rightarrow> pyval \<Rightarrow> pyval \<Rightarrow> audit_outcome \<Rightarrow>
   pyval \<Rightarrow> string list \<Rightarrow> pyval \<Rightarrow> py_datetime option \<Rightarrow> exn + audit_record" where
  "record_audit u fr clock new_id actor action target_type target_id result metadata allowed correlation_id occurred =
     bind_r (validate_name ''action'' action) (\<lambda>a.
     bind_r (validate_name ''target_type'' target_type) (\<lambda>ty.
     bind_r (case target_id of VUuid x \<Rightarrow> Inr x | _ \<Rightarrow> Inl (TypeError ''target_id must be a UUID'')) (\<lambda>tid.
     bind_r (validate_correlation_id correlation_id) (\<lambda>c.
     bind_r (utc_or_now clock occurred) (\<lambda>t.
     bind_r (sanitize_audit_metadata u fr metadata allowed) (\<lambda>md.
     Inr \<lparr>ar_id = new_id, ar_actor_kind = aa_kind actor, ar_actor_id = aa_actor_id actor, ar_action = a,
       ar_target_type = ty, ar_target_id = tid, ar_outcome = result, ar_occurred_at = t,
       ar_correlation_id = c, ar_metadata = md\<rparr>))))))"

text \<open>
  A typed audit event (\<open>BaseAuditEvent\<close>): its class attributes and its declared metadata;
  \<open>to_record\<close> reads the clock.
\<close>

record audit_event =
  ae_actor :: audit_actor
  ae_action :: string
  ae_target_type :: string
  ae_target_id :: uuid
  ae_outcome :: audit_outcome
  ae_metadata :: "(string \<times> pyval) list"
  ae_allowed_keys :: "string list"
  ae_correlation_id :: string

definition record_event ::
  "case_map \<Rightarrow> (pyfloat \<Rightarrow> string) \<Rightarrow> instant \<Rightarrow> uuid \<Rightarrow> audit_event \<Rightarrow> exn + audit_record" where
  "record_event u fr clock new_id e =
     record_audit u fr clock new_id (ae_actor e) (VStr (ae_action e)) (VStr (ae_target_type e))
       (VUuid (ae_target_id e)) (ae_outcome e) (VDict (str_items (ae_metadata e))) (ae_allowed_keys e)
       (VStr (ae_correlation_id e)) (Some (Aware clock 0))"

section \<open>Queries\<close>

record audit_filters =
  af_action :: "string option"
  af_actor_kind :: "actor_kind option"
  af_actor_id :: "uuid option"
  af_target_type :: "string option"
  af_target_id :: "uuid option"
  af_outcome :: "audit_outcome option"
  af_correlation_id :: "string option"
  af_occurred_from :: "instant option"
  af_occurred_to :: "instant option"

text \<open>\<open>AuditFilters.__post_init__\<close> over already typed identifiers and kinds.\<close>

definition check_optional :: "('a \<Rightarrow> exn + 'b) \<Rightarrow> 'a option \<Rightarrow> exn + 'b option" where
  "check_optional f x = (case x of None \<Rightarrow> Inr None | Some v \<Rightarrow> bind_r (f v) (\<lambda>y. Inr (Some y)))"

definition mk_audit_filters ::
  "string option \<Rightarrow> actor_kind option \<Rightarrow> uuid option \<Rightarrow> string option \<Rightarrow> uuid option \<Rightarrow> audit_outcome option \<Rightarrow>
   string option \<Rightarrow> py_datetime option \<Rightarrow> py_datetime option \<Rightarrow> exn + audit_filters" where
  "mk_audit_filters action kind actor_id target_type target_id result correlation from to =
     bind_r (check_optional (\<lambda>s. validate_name ''action'' (VStr s)) action) (\<lambda>a.
     bind_r (check_optional (\<lambda>s. validate_name ''target_type'' (VStr s)) target_type) (\<lambda>ty.
     bind_r (check_optional (\<lambda>s. validate_correlation_id (VStr s)) correlation) (\<lambda>c.
     bind_r (check_optional (\<lambda>d. require_utc (VDatetime d)) from) (\<lambda>f.
     bind_r (check_optional (\<lambda>d. require_utc (VDatetime d)) to) (\<lambda>t.
     if f \<noteq> None \<and> t \<noteq> None \<and> the t < the f
     then Inl (ValueError ''occurred_from must not be after occurred_to'')
     else Inr \<lparr>af_action = a, af_actor_kind = kind, af_actor_id = actor_id, af_target_type = ty,
       af_target_id = target_id, af_outcome = result, af_correlation_id = c, af_occurred_from = f,
       af_occurred_to = t\<rparr>)))))"

definition opt_eq :: "'a option \<Rightarrow> 'a \<Rightarrow> bool" where
  "opt_eq f x = (case f of None \<Rightarrow> True | Some y \<Rightarrow> x = y)"

definition conditions :: "audit_filters \<Rightarrow> audit_record \<Rightarrow> bool" where
  "conditions f r \<longleftrightarrow> opt_eq (af_action f) (ar_action r) \<and> opt_eq (af_actor_kind f) (ar_actor_kind r) \<and>
     (case af_actor_id f of None \<Rightarrow> True | Some x \<Rightarrow> ar_actor_id r = Some x) \<and>
     opt_eq (af_target_type f) (ar_target_type r) \<and> opt_eq (af_target_id f) (ar_target_id r) \<and>
     opt_eq (af_outcome f) (ar_outcome r) \<and> opt_eq (af_correlation_id f) (ar_correlation_id r) \<and>
     (case af_occurred_from f of None \<Rightarrow> True | Some t \<Rightarrow> t \<le> ar_occurred_at r) \<and>
     (case af_occurred_to f of None \<Rightarrow> True | Some t \<Rightarrow> ar_occurred_at r \<le> t)"

text \<open>Newest first: \<open>ORDER BY occurred_at DESC, id DESC\<close>.\<close>

definition newest_first :: "audit_record list \<Rightarrow> audit_record list" where
  "newest_first rs = rev (sort_key (\<lambda>r. (ar_occurred_at r, ar_id r)) rs)"

definition query_records :: "audit_filters \<Rightarrow> page_request \<Rightarrow> audit_record list \<Rightarrow> exn + audit_record page" where
  "query_records f p tbl = paginate (newest_first (filter (conditions f) tbl)) p"

section \<open>What sanitised metadata satisfies\<close>

text \<open>Every value under a sensitive key, at any level, is the redaction mark.\<close>

fun redacted_all :: "case_map \<Rightarrow> pyval \<Rightarrow> bool" where
  "redacted_all u (VList xs) = list_all (redacted_all u) xs"
| "redacted_all u (VTuple xs) = list_all (redacted_all u) xs"
| "redacted_all u (VDict kvs) = list_all (\<lambda>(k, v). (case k of VStr s \<Rightarrow> is_sensitive_key u s \<longrightarrow> v = VStr redacted_value
       | _ \<Rightarrow> True) \<and> redacted_all u v) kvs"
| "redacted_all u _ = True"

definition audit_leaf :: "pyval \<Rightarrow> bool" where
  "audit_leaf v \<longleftrightarrow> json_scalar 500 v \<or> (\<exists>t. v = VStr (iso_utc t))"

definition audit_value :: "case_map \<Rightarrow> string list \<Rightarrow> int \<Rightarrow> pyval \<Rightarrow> bool" where
  "audit_value u al d y \<longleftrightarrow> depth_le (max_metadata_depth - d + 2) y \<and> keys_all (\<lambda>k. k \<in> set al) y \<and>
     redacted_all u y \<and> leaves_all audit_leaf y"

lemma consume_budget_Inr: "consume_budget b = Inr b' \<longleftrightarrow> b' = b - 1 \<and> 1 \<le> b"
  by (auto simp: consume_budget_def)

lemma audit_leaf_simps [simp]:
  "audit_leaf VNone" "audit_leaf (VBool b)" "audit_leaf (VInt n)" "audit_leaf (VFloat (Finite m e))"
  "audit_leaf (VStr (take max_string_length s))" "audit_leaf (VStr (uuid_str x))" "audit_leaf (VStr (iso_utc t))"
  "audit_leaf (VStr redacted_value)"
  by (auto simp: audit_leaf_def json_scalar_def max_string_length_def redacted_value_def)

lemma audit_value_scalar:
  "d \<le> max_metadata_depth + 1 \<Longrightarrow> \<not> is_container y \<Longrightarrow> audit_leaf y \<Longrightarrow> audit_value u al d y \<and> json_nodes y = 1"
  by (cases y) (auto simp: audit_value_def is_container_def)

lemma sanitize_scalar:
  assumes "sanitize_value u al v d b = Inr (y, b')" "\<not> is_container v"
  shows "audit_value u al d y \<and> json_nodes y = 1 \<and> b' = b"
proof -
  have "d \<le> max_metadata_depth \<and> \<not> is_container y \<and> audit_leaf y \<and> b' = b"
    using assms(1) [unfolded sanitize_value.simps] assms(2) by (cases v)
      (auto simp: result_simps validate_depth_def serialize_utc_def is_container_def
        split: pyfloat.splits)
  then show ?thesis using audit_value_scalar [of d y u al] by simp
qed

lemma audit_value_list: "d \<le> max_metadata_depth \<Longrightarrow> list_all (audit_value u al (d + 1)) ys \<Longrightarrow> audit_value u al d (VList ys)"
  by (auto simp: audit_value_def list_all_iff algebra_simps)

lemma audit_value_dict:
  "d \<le> max_metadata_depth \<Longrightarrow>
    list_all (\<lambda>(k, y). k \<in> set al \<and> (is_sensitive_key u k \<longrightarrow> y = VStr redacted_value) \<and> audit_value u al (d + 1) y) its \<Longrightarrow>
    audit_value u al d (VDict (str_items its))"
  by (auto simp: audit_value_def list_all_iff algebra_simps)

lemma sanitized:
  "sanitize_value u al v d b = Inr (y, b1) \<Longrightarrow>
     audit_value u al d y \<and> b1 = b - (int (json_nodes y) - 1) \<and> (0 \<le> b \<longrightarrow> 0 \<le> b1)"
  "sanitize_list u al xs d b = Inr (ys, b2) \<Longrightarrow>
     list_all (audit_value u al d) ys \<and> b2 = b - int (sum_list (map json_nodes ys)) \<and> (0 \<le> b \<longrightarrow> 0 \<le> b2)"
  "sanitize_items u al kvs d b = Inr (its, b3) \<Longrightarrow> d \<le> max_metadata_depth \<Longrightarrow>
     list_all (\<lambda>(k, y). k \<in> set al \<and> (is_sensitive_key u k \<longrightarrow> y = VStr redacted_value) \<and> audit_value u al (d + 1) y) its \<and>
     b3 = b - int (sum_list (map (\<lambda>(k, y). json_nodes y) its)) \<and> (0 \<le> b \<longrightarrow> 0 \<le> b3)"
proof (induction u al v d b and u al xs d b and u al kvs d b arbitrary: y b1 and ys b2 and its b3
    rule: sanitize_value_sanitize_list_sanitize_items.induct)
  case (1 u al v d b)
  show ?case
  proof (cases "is_container v")
    case False
    with sanitize_scalar [OF "1.prems"] show ?thesis by simp
  next
    case True
    have d: "d \<le> max_metadata_depth"
      using "1.prems" by (auto simp: sanitize_value.simps [of _ _ v] validate_depth_def result_simps)
    from True consider xs where "v = VList xs \<or> v = VTuple xs" | kvs where "v = VDict kvs"
      by (cases v) (auto simp: is_container_def)
    then show ?thesis
    proof cases
      case (1 xs)
      then obtain ys where ys: "sanitize_list u al xs (d + 1) b = Inr (ys, b1)" "y = VList ys"
        and l: "\<not> max_list_items < length xs"
        using "1.prems" [unfolded sanitize_value.simps] by (auto simp: result_simps split: if_splits)
      have "list_all (audit_value u al (d + 1)) ys \<and> b1 = b - int (sum_list (map json_nodes ys)) \<and> (0 \<le> b \<longrightarrow> 0 \<le> b1)"
        using 1 "1.IH" d l ys(1) by (auto simp: validate_depth_def)
      then show ?thesis using audit_value_list [OF d] ys(2) by auto
    next
      case (2 kvs)
      then obtain its where its: "sanitize_items u al kvs d b = Inr (its, b1)" "y = VDict (str_items its)"
        and l: "\<not> max_mapping_fields < length kvs"
        using "1.prems" [unfolded sanitize_value.simps] by (auto simp: result_simps split: if_splits)
      have "list_all (\<lambda>(k, y). k \<in> set al \<and> (is_sensitive_key u k \<longrightarrow> y = VStr redacted_value) \<and> audit_value u al (d + 1) y) its \<and>
          b1 = b - int (sum_list (map (\<lambda>(k, y). json_nodes y) its)) \<and> (0 \<le> b \<longrightarrow> 0 \<le> b1)"
        using 2 "1.IH" d l its(1) by (auto simp: validate_depth_def)
      then show ?thesis using audit_value_dict [OF d] its(2) by (auto simp: case_prod_unfold comp_def)
    qed
  qed
next
  case (3 u al x xs d b)
  then show ?case by (fastforce simp: result_simps consume_budget_Inr)
next
  case (5 u al k x kvs d b)
  show ?case
  proof (cases "\<exists>s. k = VStr s \<and> s \<in> set al")
    case False
    then obtain s where s: "k = VStr s" "s \<notin> set al" and r: "sanitize_items u al kvs d b = Inr (its, b3)"
      using "5.prems"(1) by (auto split: pyval.splits if_splits)
    from "5.IH"(1) [OF s r "5.prems"(2)] show ?thesis .
  next
    case True
    then obtain s where s: "k = VStr s" "s \<in> set al" by blast
    have red: "audit_value u al (d + 1) (VStr redacted_value)"
      using "5.prems"(2) by (auto intro!: audit_value_scalar [THEN conjunct1] simp: is_container_def)
    show ?thesis
    proof (cases "is_sensitive_key u s")
      case True
      with 5 s red show ?thesis by (fastforce simp: result_simps consume_budget_Inr)
    next
      case False
      with 5 s show ?thesis by (fastforce simp: result_simps consume_budget_Inr)
    qed
  qed
qed simp_all

section \<open>Properties\<close>

text \<open>
  C33: whatever metadata a caller passes, what is stored in the audit trail is allow-listed, redacted
  and bounded. Every key at every level is one of the allowed keys; a value under a key that names
  something sensitive is the redaction mark; there are at most 100 values, nested at most 5 deep;
  strings have at most 500 characters or are timestamps; and the encoded record has at most 16384
  bytes.
\<close>

theorem audit_metadata_safe:
  assumes "sanitize_audit_metadata u fr metadata allowed = Inr ys"
  shows "sum_list (map (\<lambda>(k, y). json_nodes y) ys) \<le> 100 \<and>
    list_all (\<lambda>(k, y). k \<in> set allowed \<and> (is_sensitive_key u k \<longrightarrow> y = VStr redacted_value) \<and>
      depth_le 5 y \<and> keys_all (\<lambda>k. k \<in> set allowed) y \<and> redacted_all u y \<and> leaves_all audit_leaf y) ys \<and>
    list_all (fullmatch safe_key_re) allowed \<and>
    utf8_length (json_dumps fr (VDict (str_items ys))) \<le> 16384"
proof -
  obtain kvs b where s: "sanitize_items u allowed kvs 0 max_total_values = Inr (ys, b)"
    and k: "list_all (fullmatch safe_key_re) allowed"
    and n: "utf8_length (json_dumps fr (VDict (str_items ys))) \<le> 16384"
    using assms by (cases metadata) (auto simp: sanitize_audit_metadata_def result_simps validate_allowed_keys_def
        max_metadata_bytes_def list_all_iff list_ex_iff split: if_splits)
  have "list_all (\<lambda>(k, y). k \<in> set allowed \<and> (is_sensitive_key u k \<longrightarrow> y = VStr redacted_value) \<and> audit_value u allowed 1 y) ys \<and>
      b = 100 - int (sum_list (map (\<lambda>(k, y). json_nodes y) ys)) \<and> 0 \<le> b"
    using sanitized(3) [OF s] by (simp add: max_metadata_depth_def max_total_values_def)
  with k n show ?thesis by (auto simp: audit_value_def max_metadata_depth_def list_all_iff)
qed

theorem audit_metadata_safe_witness:
  "\<exists>ys. sanitize_audit_metadata (\<lambda>c. [c]) (\<lambda>f. []) (VDict [(VStr ''old'', VInt 1), (VStr ''user_token'', VInt 7),
      (VStr ''dropped'', VNone)]) [''old'', ''user_token''] = Inr ys \<and>
    ys = [(''old'', VInt 1), (''user_token'', VStr redacted_value)] \<and>
    sum_list (map (\<lambda>(k, y). json_nodes y) ys) \<le> 100"
proof -
  let ?md = "VDict [(VStr ''old'', VInt 1), (VStr ''user_token'', VInt 7), (VStr ''dropped'', VNone)]"
  have "sanitize_audit_metadata (\<lambda>c. [c]) (\<lambda>f. []) ?md [''old'', ''user_token''] =
      Inr [(''old'', VInt 1), (''user_token'', VStr redacted_value)]"
    by code_simp
  from audit_metadata_safe [OF this] this show ?thesis by simp
qed

text \<open>Recording keeps what it was given, and records are only ever added.\<close>

lemma record_audit_Inr:
  "record_audit u fr clock i actor (VStr a) (VStr ty) (VUuid x) oc (VDict []) [] (VStr cid) None = Inr r \<longleftrightarrow>
     validate_name ''action'' (VStr a) = Inr a \<and> validate_name ''target_type'' (VStr ty) = Inr ty \<and>
     validate_correlation_id (VStr cid) = Inr cid \<and>
     r = \<lparr>ar_id = i, ar_actor_kind = aa_kind actor, ar_actor_id = aa_actor_id actor, ar_action = a,
       ar_target_type = ty, ar_target_id = x, ar_outcome = oc, ar_occurred_at = clock,
       ar_correlation_id = cid, ar_metadata = []\<rparr>"
  by (auto simp: record_audit_def result_simps validate_name_def validate_correlation_id_def utc_or_now_def
      require_utc_def sanitize_audit_metadata_def validate_allowed_keys_def validate_depth_def max_metadata_depth_def
      max_total_values_def max_mapping_fields_def max_metadata_bytes_def utf8_length_def Let_def split: if_splits)

end
