(* ===== verification/Identity.thy ===== *)
theory Identity
  imports Tx_Programs Audit_Trail Outbox
begin

text \<open>
  Identities, sessions and permissions: \<open>users/model.py\<close>, \<open>users/address.py\<close>, \<open>users/repository.py\<close>,
  \<open>auth/model.py\<close>, \<open>auth/challenge_model.py\<close>, \<open>auth/settings.py\<close>, \<open>auth/sessions.py\<close> and
  \<open>auth/permissions.py\<close>.

  \<open>identity_db\<close> holds the tables these modules share. The functions of third-party packages and of
  the interpreter's cryptography are the fields of the argument \<open>ident_env\<close>: e-mail validation,
  SHA-256, HMAC, Argon2, the reading of UUID texts, the breach lookup. Advisory and row locks order
  whole transactions, and transactions here are atomic, so taking a lock changes nothing. Redis is a
  store that is either reachable or not; a key may disappear from it at any time, which the theorems
  cover by quantifying over its contents. Clock readings, secrets and fresh identifiers are arguments.
\<close>

section \<open>Tables\<close>

datatype role = Customer | Admin

definition role_value :: "role \<Rightarrow> string" where
  "role_value r = (case r of Customer \<Rightarrow> ''customer'' | Admin \<Rightarrow> ''admin'')"

text \<open>\<open>Role(value)\<close>; None is the \<open>ValueError\<close>.\<close>

definition role_of :: "string \<Rightarrow> role option" where
  "role_of s = (if s = ''customer'' then Some Customer else if s = ''admin'' then Some Admin else None)"

record user =
  us_id :: uuid
  us_email :: string
  us_display_name :: string
  us_phone :: "string option"
  us_role :: string
  us_is_active :: bool
  us_email_verified_at :: "instant option"
  us_created_at :: instant

record auth_session =
  as_id :: uuid
  as_user_id :: uuid
  as_secret_hash :: string
  as_created_at :: instant
  as_authenticated_at :: instant
  as_expires_at :: instant
  as_revoked_at :: "instant option"

record external_identity =
  ei_id :: uuid
  ei_user_id :: uuid
  ei_provider :: string
  ei_subject :: string
  ei_email_snapshot :: "string option"
  ei_email_verified :: bool
  ei_last_login_at :: instant

datatype challenge_purpose = Registration | Password_Reset

definition purpose_value :: "challenge_purpose \<Rightarrow> string" where
  "purpose_value p = (case p of Registration \<Rightarrow> ''registration'' | Password_Reset \<Rightarrow> ''password_reset'')"

record password_credential =
  pc_user_id :: uuid
  pc_password_hash :: string

record email_challenge =
  ec_id :: uuid
  ec_email :: string
  ec_purpose :: string
  ec_key_version :: string
  ec_code_hash :: string
  ec_attempts :: int
  ec_created_at :: instant
  ec_expires_at :: instant
  ec_consumed_at :: "instant option"

record address =
  ad_id :: uuid
  ad_user_id :: uuid
  ad_kind :: string
  ad_recipient :: string
  ad_line1 :: string
  ad_line2 :: "string option"
  ad_city :: string
  ad_region :: string
  ad_postal_code :: "string option"
  ad_country_code :: string
  ad_phone :: "string option"
  ad_is_default :: bool
  ad_created_at :: instant

record identity_db =
  id_users :: "user list"
  id_sessions :: "auth_session list"
  id_identities :: "external_identity list"
  id_credentials :: "password_credential list"
  id_challenges :: "email_challenge list"
  id_addresses :: "address list"
  id_audit :: "audit_record list"
  id_outbox :: "outbox_message list"

record cache_world =
  cw_up :: bool
  cw_store :: "string \<rightharpoonup> string"

record auth_settings =
  st_session_seconds :: int
  st_cache_seconds :: int
  st_challenge_seconds :: int
  st_challenge_attempts :: int
  st_resend_seconds :: int
  st_recent_auth_seconds :: int
  st_allowed_origins :: "string list"
  st_challenge_keys :: "string \<rightharpoonup> string"
  st_active_challenge_key :: string

text \<open>The field bounds and \<open>validate_keys\<close>; \<open>versions\<close> lists the configured key versions.\<close>

definition validate_auth_settings :: "string list \<Rightarrow> auth_settings \<Rightarrow> exn + auth_settings" where
  "validate_auth_settings versions s =
     bind_r (require (300 \<le> st_session_seconds s \<and> st_session_seconds s \<le> 2592000 \<and>
        1 \<le> st_cache_seconds s \<and> st_cache_seconds s \<le> 300 \<and>
        120 \<le> st_challenge_seconds s \<and> st_challenge_seconds s \<le> 900 \<and>
        1 \<le> st_challenge_attempts s \<and> st_challenge_attempts s \<le> 10 \<and>
        30 \<le> st_resend_seconds s \<and> st_resend_seconds s \<le> 300 \<and>
        60 \<le> st_recent_auth_seconds s \<and> st_recent_auth_seconds s \<le> 900)
       (ValueError ''field out of range'')) (\<lambda>_.
     bind_r (require (versions = [] \<or> st_challenge_keys s (st_active_challenge_key s) \<noteq> None)
       (ValueError ''active challenge key is missing'')) (\<lambda>_.
     bind_r (require (versions = [] \<or> list_all (\<lambda>v. case st_challenge_keys s v of None \<Rightarrow> True | Some k \<Rightarrow> 32 \<le> length k) versions)
       (ValueError ''challenge keys require at least 32 random characters'')) (\<lambda>_.
     bind_r (require (\<not> list_ex (\<lambda>or. py_endswith or ''/'' \<or> CHR ''*'' \<in> set or) (st_allowed_origins s))
       (ValueError ''use exact origins without wildcards or trailing slashes'')) (\<lambda>_. Inr s))))"

record ident_env =
  en_case :: case_map
  en_float :: "pyfloat \<Rightarrow> string"
  en_validate_email :: "string \<Rightarrow> string option"
  en_sha256 :: "string \<Rightarrow> string"
  en_hmac :: "string \<Rightarrow> string \<Rightarrow> nat"
  en_parse_uuid :: "string \<Rightarrow> uuid option"
  en_argon_hash :: "string \<Rightarrow> string"
  en_argon_verify :: "string \<Rightarrow> string \<Rightarrow> bool"
  en_argon_needs_rehash :: "string \<Rightarrow> bool"
  en_is_breached :: "string \<Rightarrow> exn + bool"

type_synonym 'a id_prog = "('a, identity_db, cache_world) prog"

section \<open>Users\<close>

definition normalize_email :: "ident_env \<Rightarrow> string \<Rightarrow> exn + string" where
  "normalize_email en s = (case en_validate_email en (py_strip s) of
     None \<Rightarrow> Inl (app_error InvalidEmailError)
   | Some n \<Rightarrow> Inr (py_casefold (en_case en) n))"

definition find_user_by_email :: "ident_env \<Rightarrow> string \<Rightarrow> user option id_prog" where
  "find_user_by_email en email =
     bnd (lift_r (normalize_email en email)) (\<lambda>e. query (\<lambda>db. get_row us_email (id_users db) e))"

definition find_user_by_id :: "uuid \<Rightarrow> user option id_prog" where
  "find_user_by_id i = query (\<lambda>db. get_row us_id (id_users db) i)"

text \<open>The flush inserts the row, unless the unique index on \<open>email\<close> (or the key) is violated.\<close>

definition insert_user :: "user \<Rightarrow> user id_prog" where
  "insert_user x = session_op (\<lambda>db.
     if us_email x \<in> us_email ` set (id_users db) \<or> us_id x \<in> us_id ` set (id_users db)
     then Inl (IntegrityError ''users'')
     else Inr (x, db\<lparr>id_users := id_users db @ [x]\<rparr>))"

definition create_customer :: "ident_env \<Rightarrow> instant \<Rightarrow> uuid \<Rightarrow> string \<Rightarrow> user id_prog" where
  "create_customer en now new_id email =
     bnd (lift_r (normalize_email en email)) (\<lambda>e.
     insert_user \<lparr>us_id = new_id, us_email = e, us_display_name = [], us_phone = None,
       us_role = role_value Customer, us_is_active = True, us_email_verified_at = None, us_created_at = now\<rparr>)"

definition update_user :: "uuid \<Rightarrow> (user \<Rightarrow> user) \<Rightarrow> identity_db \<Rightarrow> identity_db" where
  "update_user i f db = db\<lparr>id_users := update_ids us_id [i] f (id_users db)\<rparr>"

section \<open>Sessions\<close>

record actor =
  ac_user_id :: uuid
  ac_session_id :: uuid
  ac_role :: role
  ac_authenticated_at :: instant

definition session_key :: "string \<Rightarrow> string \<Rightarrow> string" where
  "session_key ns h = ''ekumidayomi:'' @ ns @ '':auth:v1:session:'' @ h"

definition secret_re :: regex where
  "secret_re = ClsRep (alnum @ [(CHR ''_'', CHR ''_''), (CHR ''-'', CHR ''-'')]) 43 43"

definition redis_get :: "string \<Rightarrow> string option id_prog" where
  "redis_get k = outside (\<lambda>w. (if cw_up w then Inr (cw_store w k) else Inl RedisError, w))"

definition redis_set :: "string \<Rightarrow> string \<Rightarrow> unit id_prog" where
  "redis_set k v = outside (\<lambda>w. if cw_up w then (Inr (), w\<lparr>cw_store := (cw_store w)(k \<mapsto> v)\<rparr>) else (Inl RedisError, w))"

definition issue_session ::
  "ident_env \<Rightarrow> auth_settings \<Rightarrow> instant \<Rightarrow> string \<Rightarrow> uuid \<Rightarrow> user \<Rightarrow> string id_prog" where
  "issue_session en st now secret new_id x =
     (if \<not> us_is_active x \<or> us_email_verified_at x = None then throw (app_error AuthenticationRequiredError)
      else bnd (session_op (\<lambda>db.
        if en_sha256 en secret \<in> as_secret_hash ` set (id_sessions db) \<or> new_id \<in> as_id ` set (id_sessions db)
        then Inl (IntegrityError ''auth_sessions'')
        else Inr ((), db\<lparr>id_sessions := id_sessions db @ [\<lparr>as_id = new_id, as_user_id = us_id x,
            as_secret_hash = en_sha256 en secret, as_created_at = now, as_authenticated_at = now,
            as_expires_at = now + secs (st_session_seconds st), as_revoked_at = None\<rparr>]\<rparr>))) (\<lambda>_. ret secret))"

text \<open>The rows of \<open>SELECT auth_sessions JOIN users WHERE conditions\<close>, in table order.\<close>

definition live_rows :: "string \<Rightarrow> instant \<Rightarrow> identity_db \<Rightarrow> (auth_session \<times> user) list" where
  "live_rows h now db =
     filter (\<lambda>(r, x). as_secret_hash r = h \<and> as_revoked_at r = None \<and> now < as_expires_at r \<and>
         us_is_active x \<and> us_email_verified_at x \<noteq> None)
       (concat (map (\<lambda>r. map (\<lambda>x. (r, x)) (filter (\<lambda>x. us_id x = as_user_id r) (id_users db))) (id_sessions db)))"

definition first_row :: "'a list \<Rightarrow> 'a option" where
  "first_row xs = (case xs of [] \<Rightarrow> None | x # _ \<Rightarrow> Some x)"

definition is_redis_value_error :: "exn \<Rightarrow> bool" where
  "is_redis_value_error e = (case e of RedisError \<Rightarrow> True | ValueError _ \<Rightarrow> True | TypeError _ \<Rightarrow> True | _ \<Rightarrow> False)"

definition cached_hint :: "ident_env \<Rightarrow> string \<Rightarrow> uuid option id_prog" where
  "cached_hint en k = catch
     (bnd (redis_get k) (\<lambda>cached. case cached of
        None \<Rightarrow> ret None
      | Some c \<Rightarrow> if c = [] then ret None
          else (case en_parse_uuid en c of
            None \<Rightarrow> throw (ValueError ''badly formed hexadecimal UUID string'')
          | Some x \<Rightarrow> ret (Some x))))
     is_redis_value_error (\<lambda>_. ret None)"

definition resolve ::
  "ident_env \<Rightarrow> string \<Rightarrow> instant \<Rightarrow> string option \<Rightarrow> actor id_prog" where
  "resolve en ns now secret = (case secret of
     None \<Rightarrow> throw (app_error AuthenticationRequiredError)
   | Some sec \<Rightarrow>
       if \<not> fullmatch secret_re sec then throw (app_error AuthenticationRequiredError)
       else let h = en_sha256 en sec in
         bnd (cached_hint en (session_key ns h)) (\<lambda>hint.
         bnd (case hint of
                None \<Rightarrow> ret None
              | Some i \<Rightarrow> query (\<lambda>db. first_row (filter (\<lambda>(r, x). as_id r = i) (live_rows h now db)))) (\<lambda>res1.
         bnd (case res1 of
                Some rx \<Rightarrow> ret (Some rx)
              | None \<Rightarrow> query (\<lambda>db. first_row (live_rows h now db))) (\<lambda>res.
         case res of
           None \<Rightarrow> throw (app_error AuthenticationRequiredError)
         | Some (r, x) \<Rightarrow> (case role_of (us_role x) of
             None \<Rightarrow> throw (app_error AuthenticationRequiredError)
           | Some ro \<Rightarrow>
               bnd (catch (redis_set (session_key ns h) (uuid_str (as_id r))) (\<lambda>e. e = RedisError) (\<lambda>_. ret ())) (\<lambda>_.
               ret \<lparr>ac_user_id = us_id x, ac_session_id = as_id r, ac_role = ro,
                 ac_authenticated_at = as_authenticated_at r\<rparr>))))))"

definition revocable :: "uuid \<Rightarrow> uuid option \<Rightarrow> auth_session \<Rightarrow> bool" where
  "revocable user_id session_id r \<longleftrightarrow> as_user_id r = user_id \<and> as_revoked_at r = None \<and>
     (case session_id of None \<Rightarrow> True | Some i \<Rightarrow> as_id r = i)"

definition drop_keys :: "string list \<Rightarrow> cache_world callback" where
  "drop_keys ks w = (None, if cw_up w then w\<lparr>cw_store := cw_store w |` (- set ks)\<rparr> else w)"

definition revoke :: "string \<Rightarrow> instant \<Rightarrow> uuid \<Rightarrow> uuid option \<Rightarrow> unit id_prog" where
  "revoke ns now user_id session_id =
     bnd (session_op (\<lambda>db. Inr
        (map as_secret_hash (filter (revocable user_id session_id) (id_sessions db)),
         db\<lparr>id_sessions := update_where (revocable user_id session_id) (\<lambda>r. r\<lparr>as_revoked_at := Some now\<rparr>) (id_sessions db)\<rparr>)))
     (\<lambda>hashes. after_commit (drop_keys (map (session_key ns) hashes)))"

section \<open>Permissions\<close>

datatype permission = Profile_Write | Users_Read | Users_Manage | Audit_Read

definition permissions :: "role \<Rightarrow> permission set" where
  "permissions r = (case r of Customer \<Rightarrow> {Profile_Write}
     | Admin \<Rightarrow> {Profile_Write, Users_Read, Users_Manage, Audit_Read})"

definition authorize ::
  "instant \<Rightarrow> instant \<Rightarrow> actor \<Rightarrow> permission \<Rightarrow> int option \<Rightarrow> user id_prog" where
  "authorize now now2 ac perm recent =
     bnd (find_user_by_id (ac_user_id ac)) (\<lambda>xo.
     bnd (query (\<lambda>db. get_row as_id (id_sessions db) (ac_session_id ac))) (\<lambda>ro.
     case (xo, ro) of
       (Some x, Some r) \<Rightarrow>
         if \<not> us_is_active x \<or> us_email_verified_at x = None \<or> as_user_id r \<noteq> us_id x \<or>
            as_revoked_at r \<noteq> None \<or> as_expires_at r \<le> now
         then throw (app_error AuthenticationRequiredError)
         else (case role_of (us_role x) of
           None \<Rightarrow> throw (app_error PermissionDeniedError)
         | Some rl \<Rightarrow>
             if perm \<notin> permissions rl then throw (app_error PermissionDeniedError)
             else if (case recent of None \<Rightarrow> False | Some n \<Rightarrow> secs n < now2 - as_authenticated_at r)
               then throw (app_error ReauthenticationRequiredError)
             else ret x)
     | _ \<Rightarrow> throw (app_error AuthenticationRequiredError)))"

text \<open>Staging an audit record in the transaction.\<close>

definition audit :: "exn + audit_record \<Rightarrow> unit id_prog" where
  "audit r = bnd (lift_r r) (\<lambda>a. modify (\<lambda>db. db\<lparr>id_audit := id_audit db @ [a]\<rparr>))"

section \<open>Invariant\<close>

text \<open>The unique keys and the partial unique index on default addresses.\<close>

definition id_ok :: "identity_db \<Rightarrow> bool" where
  "id_ok db \<longleftrightarrow> unique_key us_id (id_users db) \<and> unique_key us_email (id_users db) \<and>
     unique_key as_id (id_sessions db) \<and> unique_key as_secret_hash (id_sessions db) \<and>
     unique_key pc_user_id (id_credentials db) \<and>
     unique_key ec_id (id_challenges db) \<and> unique_key (\<lambda>c. (ec_email c, ec_purpose c)) (id_challenges db) \<and>
     unique_key ei_id (id_identities db) \<and>
     unique_key (\<lambda>e. (ei_provider e, ei_subject e)) (id_identities db) \<and>
     unique_key (\<lambda>e. (ei_user_id e, ei_provider e)) (id_identities db) \<and>
     unique_key ad_id (id_addresses db) \<and>
     unique_key (\<lambda>a. (ad_user_id a, ad_kind a)) (filter ad_is_default (id_addresses db))"

definition empty_db :: identity_db where
  "empty_db = \<lparr>id_users = [], id_sessions = [], id_identities = [], id_credentials = [], id_challenges = [],
     id_addresses = [], id_audit = [], id_outbox = []\<rparr>"

definition active_admin :: "user \<Rightarrow> bool" where
  "active_admin x \<longleftrightarrow> us_role x = role_value Admin \<and> us_is_active x \<and> us_email_verified_at x \<noteq> None"

definition has_admin :: "identity_db \<Rightarrow> bool" where
  "has_admin db \<longleftrightarrow> list_ex active_admin (id_users db)"

section \<open>Concrete values\<close>

definition demo_user :: user where
  "demo_user = \<lparr>us_id = 1, us_email = ''a@b.c'', us_display_name = [], us_phone = None, us_role = ''admin'',
     us_is_active = True, us_email_verified_at = Some 0, us_created_at = 0\<rparr>"

definition demo_session :: auth_session where
  "demo_session = \<lparr>as_id = 2, as_user_id = 1, as_secret_hash = replicate 43 CHR ''x'', as_created_at = 0,
     as_authenticated_at = 0, as_expires_at = 100, as_revoked_at = None\<rparr>"

definition demo_db :: identity_db where
  "demo_db = empty_db\<lparr>id_users := [demo_user], id_sessions := [demo_session]\<rparr>"

definition demo_env :: ident_env where
  "demo_env = \<lparr>en_case = (\<lambda>c. [c]), en_float = (\<lambda>f. []), en_validate_email = Some, en_sha256 = (\<lambda>s. s),
     en_hmac = (\<lambda>k m. 0), en_parse_uuid = (\<lambda>s. None), en_argon_hash = (\<lambda>p. p), en_argon_verify = (\<lambda>h p. h = p),
     en_argon_needs_rehash = (\<lambda>h. False), en_is_breached = (\<lambda>p. Inr False)\<rparr>"

definition demo_actor :: actor where
  "demo_actor = \<lparr>ac_user_id = 1, ac_session_id = 2, ac_role = Admin, ac_authenticated_at = 0\<rparr>"

section \<open>Evaluation of programs\<close>

lemmas prog_defs = ret_def throw_def bnd_def lift_r_def query_def modify_def session_op_def outside_def
  catch_def commit_def after_commit_def uow_commit_def uow_after_commit_def guarded_def rollback_def uow_rollback_def
  session_rollback_def

section \<open>Sessions: facts\<close>

lemma first_row_unique:
  "(\<And>a b. a \<in> set xs \<Longrightarrow> b \<in> set xs \<Longrightarrow> a = b) \<Longrightarrow> first_row xs = Some y \<longleftrightarrow> y \<in> set xs"
  by (cases xs) (auto simp: first_row_def)

lemma first_row_None: "first_row xs = None \<longleftrightarrow> xs = []"
  by (auto simp: first_row_def split: list.splits)

lemma in_live_rows:
  "(r, x) \<in> set (live_rows h now db) \<longleftrightarrow> r \<in> set (id_sessions db) \<and> x \<in> set (id_users db) \<and>
     us_id x = as_user_id r \<and> as_secret_hash r = h \<and> as_revoked_at r = None \<and> now < as_expires_at r \<and>
     us_is_active x \<and> us_email_verified_at x \<noteq> None"
  by (auto simp: live_rows_def)

lemma live_rows_single:
  assumes "id_ok db" "a \<in> set (live_rows h now db)" "b \<in> set (live_rows h now db)"
  shows "a = b"
proof -
  have u: "unique_key as_secret_hash (id_sessions db)" "unique_key us_id (id_users db)"
    using assms(1) by (simp_all add: id_ok_def)
  obtain r x r' x' where ab: "a = (r, x)" "b = (r', x')" by (cases a, cases b)
  have "r = r'" using assms(2,3) ab unique_keyD [OF u(1)] by (auto simp: in_live_rows)
  moreover have "x = x'" using calculation assms(2,3) ab unique_keyD [OF u(2)] by (auto simp: in_live_rows)
  ultimately show ?thesis using ab by simp
qed

lemma cached_hint_pure: "\<exists>hint. cached_hint en k s = (Inr hint, s)"
  by (auto simp: cached_hint_def prog_defs redis_get_def is_redis_value_error_def split: option.splits)

definition resolve_spec :: "ident_env \<Rightarrow> instant \<Rightarrow> string option \<Rightarrow> identity_db \<Rightarrow> exn + actor" where
  "resolve_spec en now secret db =
     (case secret of None \<Rightarrow> Inl (app_error AuthenticationRequiredError)
      | Some sec \<Rightarrow> if \<not> fullmatch secret_re sec then Inl (app_error AuthenticationRequiredError)
        else (case first_row (live_rows (en_sha256 en sec) now db) of
          None \<Rightarrow> Inl (app_error AuthenticationRequiredError)
        | Some (r, x) \<Rightarrow> (case role_of (us_role x) of
            None \<Rightarrow> Inl (app_error AuthenticationRequiredError)
          | Some ro \<Rightarrow> Inr \<lparr>ac_user_id = us_id x, ac_session_id = as_id r, ac_role = ro,
              ac_authenticated_at = as_authenticated_at r\<rparr>)))"

text \<open>A step that only reads the session or talks to the cache.\<close>

definition same_db :: "('db, 'w) uow \<Rightarrow> ('db, 'w) uow \<Rightarrow> bool" where
  "same_db s s' \<longleftrightarrow> durable s' = durable s \<and> working s' = working s \<and> callbacks s' = callbacks s \<and>
     active s' = active s \<and> needs_rollback s' = needs_rollback s"

text \<open>Whatever the cache says, the answer is that of the database, and nothing durable changes.\<close>

lemma resolve_refines:
  assumes ok: "id_ok (working s)" and a: "active s"
  shows "\<exists>s'. resolve en ns now secret s = (resolve_spec en now secret (working s), s') \<and> same_db s s'"
proof (cases "\<exists>sec. secret = Some sec \<and> fullmatch secret_re sec")
  case False
  then have "resolve en ns now secret s = (resolve_spec en now secret (working s), s)"
    by (auto simp: resolve_def resolve_spec_def throw_def split: option.splits)
  then show ?thesis by (simp add: same_db_def)
next
  case True
  then obtain sec where sec: "secret = Some sec" "fullmatch secret_re sec" by blast
  define h where "h = en_sha256 en sec"
  define rows where "rows = live_rows h now (working s)"
  have single: "\<And>p q. p \<in> set rows \<Longrightarrow> q \<in> set rows \<Longrightarrow> p = q"
    unfolding rows_def using live_rows_single [OF ok] .
  obtain hint where hint: "cached_hint en (session_key ns h) s = (Inr hint, s)" using cached_hint_pure by blast
  have hit: "first_row rows = Some y" if "first_row (filter P rows) = Some y" for P y
  proof -
    have "y \<in> set (filter P rows)" using that by (cases "filter P rows") (auto simp: first_row_def)
    then show ?thesis using first_row_unique [OF single] by simp
  qed
  show ?thesis
    using sec hint hit a
    by (cases hint; cases "first_row rows")
      (auto simp: resolve_def resolve_spec_def Let_def h_def [symmetric] rows_def [symmetric] prog_defs redis_set_def
        same_db_def split: option.splits prod.splits)
qed

lemma resolve_spec_Inr:
  assumes "id_ok db"
  shows "resolve_spec en now secret db = Inr a \<longleftrightarrow>
    (\<exists>sec r x ro. secret = Some sec \<and> fullmatch secret_re sec \<and> (r, x) \<in> set (live_rows (en_sha256 en sec) now db) \<and>
       role_of (us_role x) = Some ro \<and>
       a = \<lparr>ac_user_id = us_id x, ac_session_id = as_id r, ac_role = ro, ac_authenticated_at = as_authenticated_at r\<rparr>)"
proof -
  have fr: "first_row (live_rows h now db) = Some p \<longleftrightarrow> p \<in> set (live_rows h now db)" for h p
    by (rule first_row_unique) (rule live_rows_single [OF assms])
  show ?thesis
    by (auto simp: resolve_spec_def fr [symmetric] split: option.splits)
qed

lemma authorize_eval:
  assumes "active s"
  shows "\<exists>s'. authorize now now2 ac perm recent s =
    (fst (authorize now now2 ac perm recent s), s') \<and> same_db s s'"
  using assms by (auto simp: authorize_def find_user_by_id_def prog_defs same_db_def split: option.splits)

lemma authorize_Inr:
  assumes "active s"
  shows "fst (authorize now now2 ac perm recent s) = Inr x \<longleftrightarrow>
    (\<exists>r rl. get_row us_id (id_users (working s)) (ac_user_id ac) = Some x \<and>
       get_row as_id (id_sessions (working s)) (ac_session_id ac) = Some r \<and>
       us_is_active x \<and> us_email_verified_at x \<noteq> None \<and> as_user_id r = us_id x \<and>
       as_revoked_at r = None \<and> now < as_expires_at r \<and>
       role_of (us_role x) = Some rl \<and> perm \<in> permissions rl \<and>
       (\<forall>n. recent = Some n \<longrightarrow> now2 - as_authenticated_at r \<le> secs n))"
  using assms by (auto simp: authorize_def find_user_by_id_def prog_defs split: option.splits)

lemma authorize_run:
  "active s \<Longrightarrow> authorize now now2 ac perm recent s = (Inr x, s') \<longleftrightarrow>
    (\<exists>r rl. get_row us_id (id_users (working s)) (ac_user_id ac) = Some x \<and>
       get_row as_id (id_sessions (working s)) (ac_session_id ac) = Some r \<and>
       us_is_active x \<and> us_email_verified_at x \<noteq> None \<and> as_user_id r = us_id x \<and>
       as_revoked_at r = None \<and> now < as_expires_at r \<and>
       role_of (us_role x) = Some rl \<and> perm \<in> permissions rl \<and>
       (\<forall>n. recent = Some n \<longrightarrow> now2 - as_authenticated_at r \<le> secs n)) \<and> s' = s\<lparr>in_tx := True\<rparr>"
  by (auto simp: authorize_def find_user_by_id_def prog_defs split: option.splits if_splits)

section \<open>The system invariant\<close>

text \<open>
  What every service keeps: the unique keys; the audit trail \<open>a0\<close> as it was at some moment stays a
  prefix of it; if \<open>adm\<close>, there is an active, verified administrator; no challenge has been tried more
  than \<open>n\<close> times; and no user has more than 20 addresses.
\<close>

definition sys_inv :: "int \<Rightarrow> audit_record list \<Rightarrow> bool \<Rightarrow> identity_db \<Rightarrow> bool" where
  "sys_inv n a0 adm db \<longleftrightarrow> id_ok db \<and> take (length a0) (id_audit db) = a0 \<and> (adm \<longrightarrow> has_admin db) \<and>
     (\<forall>c \<in> set (id_challenges db). 0 \<le> ec_attempts c \<and> ec_attempts c \<le> n) \<and>
     (\<forall>i. count_where (\<lambda>a. ad_user_id a = i) (id_addresses db) \<le> 20)"

lemma sys_inv_sessions:
  "sys_inv n a0 adm db \<Longrightarrow> unique_key as_id x \<Longrightarrow> unique_key as_secret_hash x \<Longrightarrow> sys_inv n a0 adm (db\<lparr>id_sessions := x\<rparr>)"
  by (simp add: sys_inv_def id_ok_def has_admin_def)

lemma sys_inv_credentials:
  "sys_inv n a0 adm db \<Longrightarrow> unique_key pc_user_id x \<Longrightarrow> sys_inv n a0 adm (db\<lparr>id_credentials := x\<rparr>)"
  by (simp add: sys_inv_def id_ok_def has_admin_def)

lemma sys_inv_challenges:
  "sys_inv n a0 adm db \<Longrightarrow> unique_key ec_id x \<Longrightarrow> unique_key (\<lambda>c. (ec_email c, ec_purpose c)) x \<Longrightarrow>
    (\<And>c. c \<in> set x \<Longrightarrow> 0 \<le> ec_attempts c \<and> ec_attempts c \<le> n) \<Longrightarrow> sys_inv n a0 adm (db\<lparr>id_challenges := x\<rparr>)"
  by (simp add: sys_inv_def id_ok_def has_admin_def)

lemma sys_inv_identities:
  "sys_inv n a0 adm db \<Longrightarrow> unique_key ei_id x \<Longrightarrow> unique_key (\<lambda>e. (ei_provider e, ei_subject e)) x \<Longrightarrow>
    unique_key (\<lambda>e. (ei_user_id e, ei_provider e)) x \<Longrightarrow> sys_inv n a0 adm (db\<lparr>id_identities := x\<rparr>)"
  by (simp add: sys_inv_def id_ok_def has_admin_def)

lemma sys_inv_identitiesD:
  assumes "sys_inv n a0 adm db"
  shows "unique_key ei_id (id_identities db)" "unique_key (\<lambda>e. (ei_provider e, ei_subject e)) (id_identities db)"
    "unique_key (\<lambda>e. (ei_user_id e, ei_provider e)) (id_identities db)"
  using assms by (simp_all add: sys_inv_def id_ok_def)

lemma sys_inv_outbox: "sys_inv n a0 adm (db\<lparr>id_outbox := x\<rparr>) = sys_inv n a0 adm db"
  by (simp add: sys_inv_def id_ok_def has_admin_def)

lemma sys_inv_audit: "sys_inv n a0 adm db \<Longrightarrow> sys_inv n a0 adm (db\<lparr>id_audit := id_audit db @ x\<rparr>)"
proof -
  assume s: "sys_inv n a0 adm db"
  then have "length a0 \<le> length (id_audit db)" by (auto simp: sys_inv_def dest: arg_cong [where f = length])
  with s show ?thesis by (simp add: sys_inv_def id_ok_def has_admin_def)
qed

lemma sys_inv_users:
  "sys_inv n a0 adm db \<Longrightarrow> unique_key us_id x \<Longrightarrow> unique_key us_email x \<Longrightarrow> (has_admin db \<Longrightarrow> list_ex active_admin x) \<Longrightarrow>
    sys_inv n a0 adm (db\<lparr>id_users := x\<rparr>)"
  by (simp add: sys_inv_def id_ok_def has_admin_def)

lemma sys_inv_unique:
  assumes "sys_inv n a0 adm db"
  shows "unique_key us_id (id_users db)" "unique_key us_email (id_users db)"
    "unique_key as_id (id_sessions db)" "unique_key as_secret_hash (id_sessions db)"
    "unique_key pc_user_id (id_credentials db)" "unique_key ec_id (id_challenges db)"
    "unique_key (\<lambda>c. (ec_email c, ec_purpose c)) (id_challenges db)"
  using assms by (simp_all add: sys_inv_def id_ok_def)

lemma sys_inv_attempts:
  "sys_inv n a0 adm db \<Longrightarrow> c \<in> set (id_challenges db) \<Longrightarrow> 0 \<le> ec_attempts c \<and> ec_attempts c \<le> n"
  by (simp add: sys_inv_def)

lemma in_update_idsE:
  assumes "x \<in> set (update_ids key ks f tbl)"
  obtains r where "r \<in> set tbl" "key r \<in> set ks" "x = f r" | "x \<in> set tbl" "key x \<notin> set ks"
  using assms by (auto simp: update_ids_def update_where_def split: if_splits)

text \<open>The statements the services are made of.\<close>

lemma keeps_insert_user [keeps_rules]: "keeps (sys_inv n a0 adm) (insert_user x)"
  unfolding insert_user_def
  by (rule keeps_session_op) (auto intro!: sys_inv_users simp: unique_key_append_row has_admin_def sys_inv_unique
      split: if_splits)

lemma keeps_find_user_by_email [keeps_rules]: "keeps I (find_user_by_email en e)"
  unfolding find_user_by_email_def by (intro keeps_rules)

lemma keeps_find_user_by_id [keeps_rules]: "keeps I (find_user_by_id i)"
  unfolding find_user_by_id_def by (intro keeps_rules)

lemma keeps_create_customer [keeps_rules]: "keeps (sys_inv n a0 adm) (create_customer en now i e)"
  unfolding create_customer_def by (intro keeps_rules)

lemma keeps_update_user:
  assumes "\<And>x. us_id (f x) = us_id x" "\<And>x. us_email (f x) = us_email x" "\<And>x. active_admin x \<Longrightarrow> active_admin (f x)"
  shows "keeps (sys_inv n a0 adm) (modify (update_user i f))"
proof (rule keeps_modify)
  fix db assume s: "sys_inv n a0 adm db"
  have "list_ex active_admin (update_ids us_id [i] f (id_users db))" if "has_admin db"
  proof -
    from that obtain x where "x \<in> set (id_users db)" "active_admin x" by (auto simp: has_admin_def list_ex_iff)
    then show ?thesis using assms(3) by (auto simp: list_ex_iff update_ids_def update_where_def)
  qed
  then show "sys_inv n a0 adm (update_user i f db)"
    using s assms(1,2) unfolding update_user_def
    by (intro sys_inv_users) (simp_all add: sys_inv_unique unique_key_update_ids)
qed

lemma keeps_issue_session [keeps_rules]: "keeps (sys_inv n a0 adm) (issue_session en st now sec i x)"
  unfolding issue_session_def
  by (intro keeps_rules keeps_session_op) (auto intro!: sys_inv_sessions simp: unique_key_append_row sys_inv_unique
      split: if_splits)

lemma keeps_cached_hint [keeps_rules]: "keeps I (cached_hint en k)"
  unfolding cached_hint_def redis_get_def by (intro keeps_rules)

lemma keeps_resolve [keeps_rules]: "keeps I (resolve en ns now secret)"
  unfolding resolve_def Let_def redis_set_def by (intro keeps_rules)

lemma keeps_revoke [keeps_rules]: "keeps (sys_inv n a0 adm) (revoke ns now i j)"
  unfolding revoke_def
  by (intro keeps_rules keeps_session_op) (auto intro!: sys_inv_sessions simp: unique_key_update_where sys_inv_unique)

lemma keeps_authorize [keeps_rules]: "keeps I (authorize now now2 ac perm recent)"
  unfolding authorize_def by (intro keeps_rules)

lemma keeps_audit [keeps_rules]: "keeps (sys_inv n a0 adm) (audit r)"
  unfolding audit_def by (intro keeps_rules keeps_modify sys_inv_audit)

section \<open>Properties\<close>

text \<open>
  C27: a presented secret identifies exactly the owner of a live session, and the cache has no say in
  it. Whatever Redis holds, or if it is down, \<open>resolve\<close> answers with the actor of the one session
  whose stored hash is that of the secret, which is neither revoked nor expired and belongs to an
  active, verified user with a known role; otherwise it demands authentication. The committed
  database is unchanged.
\<close>

theorem resolve_ignores_cache:
  assumes ok: "id_ok db" and r: "run_tx (resolve en ns now secret) db w = (r, db', w')"
  shows "db' = db \<and> (\<forall>a. r = Inr a \<longleftrightarrow>
    (\<exists>sec row x ro. secret = Some sec \<and> fullmatch secret_re sec \<and> row \<in> set (id_sessions db) \<and>
       x \<in> set (id_users db) \<and> us_id x = as_user_id row \<and> as_secret_hash row = en_sha256 en sec \<and>
       as_revoked_at row = None \<and> now < as_expires_at row \<and> us_is_active x \<and> us_email_verified_at x \<noteq> None \<and>
       role_of (us_role x) = Some ro \<and>
       a = \<lparr>ac_user_id = us_id x, ac_session_id = as_id row, ac_role = ro, ac_authenticated_at = as_authenticated_at row\<rparr>)) \<and>
    (\<forall>e. r = Inl e \<longrightarrow> e = app_error AuthenticationRequiredError)"
proof -
  obtain s' where s: "resolve en ns now secret (started db w) = (resolve_spec en now secret db, s')"
    "same_db (started db w) s'"
    using resolve_refines [of "started db w" en ns now secret] ok by auto
  then have "r = resolve_spec en now secret db" "db' = db"
    using r by (auto simp: run_tx_started same_db_def)
  moreover have "e = app_error AuthenticationRequiredError" if "resolve_spec en now secret db = Inl e" for e
    using that by (auto simp: resolve_spec_def split: option.splits if_splits)
  ultimately show ?thesis by (auto simp: resolve_spec_Inr [OF ok] in_live_rows)
qed

lemma demo_db_ok: "id_ok demo_db"
  by (simp add: id_ok_def demo_db_def empty_db_def unique_key_def)

theorem resolve_ignores_cache_witness:
  "fst (run_tx (resolve demo_env ''dev'' 50 (Some (replicate 43 CHR ''x''))) demo_db
     \<lparr>cw_up = True, cw_store = (\<lambda>k. Some ''garbage'')\<rparr>) = Inr demo_actor"
proof -
  obtain r db' w' where r: "run_tx (resolve demo_env ''dev'' 50 (Some (replicate 43 CHR ''x''))) demo_db
     \<lparr>cw_up = True, cw_store = (\<lambda>k. Some ''garbage'')\<rparr> = (r, db', w')" by (metis prod_cases3)
  have m: "fullmatch secret_re (replicate 43 CHR ''x'')"
    by (simp add: fullmatch_iff_lang secret_re_def in_class_def alnum_def list_all_iff)
  have "r = Inr demo_actor"
    using resolve_ignores_cache [OF demo_db_ok r] m
    by (simp add: demo_db_def empty_db_def demo_user_def demo_session_def demo_env_def demo_actor_def role_of_def)
  with r show ?thesis by simp
qed

text \<open>
  A permission is granted exactly to whom it belongs, from durable state alone. \<open>authorize\<close> returns
  the user only if the user exists, is active and verified, the session of the actor exists, belongs
  to that user and is neither revoked nor expired, the user's role carries the permission, and, when
  recent authentication is asked for, it is recent enough; customers hold only \<open>profile_write\<close>; and
  nothing is changed.
\<close>

lemma authorize_exact:
  assumes "run_tx (authorize now now2 ac perm recent) db w = (r, db', w')"
  shows "db' = db \<and> (\<forall>x. r = Inr x \<longleftrightarrow>
    (\<exists>row rl. get_row us_id (id_users db) (ac_user_id ac) = Some x \<and>
       get_row as_id (id_sessions db) (ac_session_id ac) = Some row \<and>
       us_is_active x \<and> us_email_verified_at x \<noteq> None \<and> as_user_id row = us_id x \<and>
       as_revoked_at row = None \<and> now < as_expires_at row \<and>
       role_of (us_role x) = Some rl \<and> (rl = Customer \<longrightarrow> perm = Profile_Write) \<and>
       (\<forall>n. recent = Some n \<longrightarrow> now2 - as_authenticated_at row \<le> secs n)))"
proof -
  obtain s' where s: "authorize now now2 ac perm recent (started db w) =
      (fst (authorize now now2 ac perm recent (started db w)), s')" "same_db (started db w) s'"
    using authorize_eval [of "started db w"] by fastforce
  then have r: "r = fst (authorize now now2 ac perm recent (started db w))" "db' = db"
    using assms by (auto simp: run_tx_started same_db_def split: prod.splits)
  have perm: "perm \<in> permissions rl \<longleftrightarrow> (rl = Customer \<longrightarrow> perm = Profile_Write)" for rl
    by (cases rl; cases perm) (auto simp: permissions_def)
  show ?thesis by (simp add: r authorize_Inr perm)
qed

end
