(* ===== verification/Challenges.thy ===== *)
theory Challenges
  imports Identity
begin

text \<open>
  E-mail challenges: \<open>auth/challenges.py\<close> and the audit events of \<open>auth/events.py\<close>. A challenge is a
  six-digit code derived from a server key and the challenge's identifier; only a keyed digest of
  it is stored. The \<open>uuid4\<close> values a call may need are the fields of \<open>fresh_ids\<close>.
\<close>

section \<open>Audit events\<close>

definition anonymous_actor :: audit_actor where
  "anonymous_actor = \<lparr>aa_kind = Anonymous_Actor, aa_actor_id = None\<rparr>"

definition registration_initiated :: "uuid \<Rightarrow> string \<Rightarrow> audit_event" where
  "registration_initiated target cid = \<lparr>ae_actor = anonymous_actor, ae_action = ''auth.registration_requested'',
     ae_target_type = ''registration_attempt'', ae_target_id = target, ae_outcome = Audit_Succeeded,
     ae_metadata = [], ae_allowed_keys = [], ae_correlation_id = cid\<rparr>"

definition challenge_issued :: "uuid \<Rightarrow> string \<Rightarrow> challenge_purpose \<Rightarrow> bool \<Rightarrow> audit_event" where
  "challenge_issued target cid purpose is_resend = \<lparr>ae_actor = anonymous_actor, ae_action = ''auth.challenge_issued'',
     ae_target_type = ''email_challenge'', ae_target_id = target, ae_outcome = Audit_Succeeded,
     ae_metadata = [(''purpose'', VStr (purpose_value purpose)), (''is_resend'', VBool is_resend)],
     ae_allowed_keys = [''purpose'', ''is_resend''], ae_correlation_id = cid\<rparr>"

definition challenge_verification_failed :: "uuid \<Rightarrow> string \<Rightarrow> challenge_purpose \<Rightarrow> audit_event" where
  "challenge_verification_failed target cid purpose = \<lparr>ae_actor = anonymous_actor,
     ae_action = ''auth.challenge_verification_failed'', ae_target_type = ''email_challenge'',
     ae_target_id = target, ae_outcome = Audit_Denied, ae_metadata = [(''purpose'', VStr (purpose_value purpose))],
     ae_allowed_keys = [''purpose''], ae_correlation_id = cid\<rparr>"

definition registration_completed :: "uuid \<Rightarrow> string \<Rightarrow> audit_event" where
  "registration_completed target cid = \<lparr>ae_actor = anonymous_actor, ae_action = ''auth.registration_completed'',
     ae_target_type = ''user'', ae_target_id = target, ae_outcome = Audit_Succeeded,
     ae_metadata = [], ae_allowed_keys = [], ae_correlation_id = cid\<rparr>"

section \<open>Codes\<close>

definition purpose_of :: "string \<Rightarrow> exn + challenge_purpose" where
  "purpose_of s = (if s = ''registration'' then Inr Registration
     else if s = ''password_reset'' then Inr Password_Reset else Inl (ValueError ''not a valid ChallengePurpose''))"

definition key_bytes :: "auth_settings \<Rightarrow> string \<Rightarrow> exn + string" where
  "key_bytes st version = (case st_challenge_keys st version of
     None \<Rightarrow> Inl (app_error EmailVerificationUnavailableError) | Some k \<Rightarrow> Inr k)"

definition derive_code :: "ident_env \<Rightarrow> auth_settings \<Rightarrow> email_challenge \<Rightarrow> exn + string" where
  "derive_code en st c =
     bind_r (purpose_of (ec_purpose c)) (\<lambda>p.
     bind_r (key_bytes st (ec_key_version c)) (\<lambda>k.
     Inr (zero_pad 6 (int (en_hmac en k (''deliver:'' @ uuid_str (ec_id c) @ '':'' @ purpose_value p) mod 1000000)))))"

definition code_digest :: "ident_env \<Rightarrow> auth_settings \<Rightarrow> email_challenge \<Rightarrow> string \<Rightarrow> exn + string" where
  "code_digest en st c cd =
     bind_r (purpose_of (ec_purpose c)) (\<lambda>p.
     bind_r (key_bytes st (ec_key_version c)) (\<lambda>k.
     Inr (hex_fixed 64 (en_hmac en k (''verify:'' @ uuid_str (ec_id c) @ '':'' @ purpose_value p @ '':'' @ cd)))))"

section \<open>Issuing and consuming\<close>

record fresh_ids =
  fi_row :: uuid
  fi_decoy :: uuid
  fi_event :: uuid
  fi_message :: uuid
  fi_audit :: uuid
  fi_audit2 :: uuid
  fi_correlation :: uuid
  fi_target :: uuid
  fi_user :: uuid

definition correlation :: "string option \<Rightarrow> uuid \<Rightarrow> string" where
  "correlation cid fresh = (case cid of None \<Rightarrow> uuid_str fresh | Some c \<Rightarrow> if c = [] then uuid_str fresh else c)"

definition challenge_event :: "uuid \<Rightarrow> uuid \<Rightarrow> instant \<Rightarrow> exn + domain_event" where
  "challenge_event event_id row_id now =
     mk_domain_event (VUuid event_id) (VStr ''email_challenge_requested'') (VStr ''email_challenge'') (VUuid row_id)
       (VInt 1) (VDatetime (Aware now 0)) (VDict [(VStr ''challenge_id'', VStr (uuid_str row_id))])"

definition new_challenge ::
  "ident_env \<Rightarrow> auth_settings \<Rightarrow> instant \<Rightarrow> uuid \<Rightarrow> string \<Rightarrow> challenge_purpose \<Rightarrow> exn + email_challenge" where
  "new_challenge en st now i email purpose =
     (let row = \<lparr>ec_id = i, ec_email = email, ec_purpose = purpose_value purpose,
            ec_key_version = st_active_challenge_key st, ec_code_hash = [], ec_attempts = 0,
            ec_created_at = now, ec_expires_at = now + secs (st_challenge_seconds st), ec_consumed_at = None\<rparr>
      in bind_r (derive_code en st row) (\<lambda>cd.
         bind_r (code_digest en st row cd) (\<lambda>h. Inr (row\<lparr>ec_code_hash := h\<rparr>))))"

definition challenge_key :: "email_challenge \<Rightarrow> string \<times> string" where
  "challenge_key c = (ec_email c, ec_purpose c)"

definition insert_challenge :: "email_challenge \<Rightarrow> outbox_message \<Rightarrow> identity_db \<Rightarrow> exn + (unit \<times> identity_db)" where
  "insert_challenge row msg db =
     (if ec_id row \<in> ec_id ` set (id_challenges db) \<or> challenge_key row \<in> challenge_key ` set (id_challenges db)
      then Inl (IntegrityError ''email_challenges'')
      else bind_r (flush_message msg (id_outbox db)) (\<lambda>msgs.
        Inr ((), db\<lparr>id_challenges := id_challenges db @ [row], id_outbox := msgs\<rparr>)))"

definition issue_challenge ::
  "ident_env \<Rightarrow> auth_settings \<Rightarrow> instant \<Rightarrow> fresh_ids \<Rightarrow> string \<Rightarrow> challenge_purpose \<Rightarrow> string option \<Rightarrow> uuid id_prog" where
  "issue_challenge en st now fi email purpose cid =
     bnd (lift_r (key_bytes st (st_active_challenge_key st))) (\<lambda>_.
     bnd (query (\<lambda>db. get_row challenge_key (id_challenges db) (email, purpose_value purpose))) (\<lambda>previous.
     if (case previous of None \<Rightarrow> False | Some p \<Rightarrow> now - ec_created_at p < secs (st_resend_seconds st))
     then ret (fi_decoy fi)
     else
       bnd (case previous of None \<Rightarrow> ret ()
            | Some p \<Rightarrow> modify (\<lambda>db. db\<lparr>id_challenges := delete_where (\<lambda>c. ec_id c = ec_id p) (id_challenges db)\<rparr>)) (\<lambda>_.
       bnd (lift_r (new_challenge en st now (fi_row fi) email purpose)) (\<lambda>row.
       bnd (lift_r (bind_r (challenge_event (fi_event fi) (fi_row fi) now) (\<lambda>e. add e VNone None (fi_message fi)))) (\<lambda>msg.
       bnd (audit (record_event (en_case en) (en_float en) now (fi_audit fi)
              (challenge_issued (fi_row fi) (correlation cid (fi_correlation fi)) purpose (previous \<noteq> None)))) (\<lambda>_.
       bnd (session_op (insert_challenge row msg)) (\<lambda>_.
       ret (fi_row fi))))))))"

definition challenge_open :: "auth_settings \<Rightarrow> instant \<Rightarrow> challenge_purpose \<Rightarrow> email_challenge \<Rightarrow> bool" where
  "challenge_open st now purpose c \<longleftrightarrow> ec_purpose c = purpose_value purpose \<and> ec_consumed_at c = None \<and>
     now < ec_expires_at c \<and> ec_attempts c < st_challenge_attempts st"

definition update_challenge :: "uuid \<Rightarrow> (email_challenge \<Rightarrow> email_challenge) \<Rightarrow> identity_db \<Rightarrow> identity_db" where
  "update_challenge i f db = db\<lparr>id_challenges := update_ids ec_id [i] f (id_challenges db)\<rparr>"

definition consume_challenge ::
  "ident_env \<Rightarrow> auth_settings \<Rightarrow> instant \<Rightarrow> instant \<Rightarrow> fresh_ids \<Rightarrow> uuid \<Rightarrow> string \<Rightarrow> challenge_purpose \<Rightarrow> string option \<Rightarrow>
   email_challenge id_prog" where
  "consume_challenge en st now now2 fi i cd purpose cid =
     (let denied = bnd (audit (record_event (en_case en) (en_float en) now (fi_audit2 fi)
              (challenge_verification_failed i (correlation cid (fi_correlation fi)) purpose))) (\<lambda>_.
            throw (app_error InvalidChallengeError))
      in bnd (query (\<lambda>db. get_row ec_id (id_challenges db) i)) (\<lambda>row.
      case row of
        None \<Rightarrow> denied
      | Some c \<Rightarrow>
          if \<not> challenge_open st now purpose c then denied
          else bnd (modify (update_challenge i (\<lambda>c. c\<lparr>ec_attempts := ec_attempts c + 1\<rparr>))) (\<lambda>_.
            bnd (lift_r (code_digest en st c cd)) (\<lambda>h.
            if ec_code_hash c \<noteq> h then denied
            else bnd (modify (update_challenge i (\<lambda>c. c\<lparr>ec_consumed_at := Some now2\<rparr>))) (\<lambda>_.
              ret (c\<lparr>ec_attempts := ec_attempts c + 1, ec_consumed_at := Some now2\<rparr>))))))"

section \<open>Audit events are accepted\<close>

lemma uuid_str_head: "\<exists>c t. uuid_str x = c # t \<and> in_class lower_digit c \<and> length t = 35"
proof -
  obtain c h where h: "hex_fixed 32 (unat x) = c # h" using length_hex_fixed [of 32 "unat x"]
    by (cases "hex_fixed 32 (unat x)") auto
  then have "in_class lower_digit c" using hex_fixed_class [of 32 "unat x"] by simp
  moreover obtain d t where "uuid_str x = d # t" using length_uuid_str [of x] by (cases "uuid_str x") auto
  ultimately show ?thesis using length_uuid_str [of x] h by (auto simp: uuid_str_def Let_def)
qed

lemma valid_uuid_correlation: "validate_correlation_id (VStr (uuid_str x)) = Inr (uuid_str x)"
proof -
  obtain c t where u: "uuid_str x = c # t" "in_class lower_digit c" "length t = 35" using uuid_str_head by blast
  moreover have "in_class alnum c" using u(2) by (auto simp: in_class_def lower_digit_def alnum_def)
  moreover have "list_all (in_class alnum_key) t" using uuid_str_class [of x] u(1) by simp
  ultimately have "fullmatch (key_re 127) (uuid_str x)" unfolding key_re_iff by simp
  then show ?thesis by (simp add: validate_correlation_id_def)
qed

lemma failed_event:
  assumes "validate_correlation_id (VStr cid) = Inr cid"
  shows "record_event u fr t k (challenge_verification_failed i cid p) = Inr
    \<lparr>ar_id = k, ar_actor_kind = Anonymous_Actor, ar_actor_id = None, ar_action = ''auth.challenge_verification_failed'',
     ar_target_type = ''email_challenge'', ar_target_id = i, ar_outcome = Audit_Denied, ar_occurred_at = t,
     ar_correlation_id = cid, ar_metadata = [(''purpose'', VStr (purpose_value p))]\<rparr>"
proof -
  have "validate_name ''action'' (VStr ''auth.challenge_verification_failed'') = Inr ''auth.challenge_verification_failed''"
    "validate_name ''target_type'' (VStr ''email_challenge'') = Inr ''email_challenge''" by code_simp+
  moreover have "sanitize_audit_metadata u fr (VDict [(VStr ''purpose'', VStr ''registration'')]) [''purpose''] =
      Inr [(''purpose'', VStr ''registration'')]"
    "sanitize_audit_metadata u fr (VDict [(VStr ''purpose'', VStr ''password_reset'')]) [''purpose''] =
      Inr [(''purpose'', VStr ''password_reset'')]" by code_simp+
  ultimately show ?thesis
    using assms by (cases p) (simp_all add: record_event_def record_audit_def challenge_verification_failed_def
        anonymous_actor_def purpose_value_def utc_or_now_def require_utc_def)
qed
section \<open>Challenges and the system invariant\<close>

lemma new_challenge_attempts: "new_challenge en st now i email purpose = Inr row \<Longrightarrow> ec_attempts row = 0"
  by (auto simp: new_challenge_def Let_def bind_r_eq_Inr)

lemma sys_inv_challenge_key: "sys_inv n a0 adm db \<Longrightarrow> unique_key challenge_key (id_challenges db)"
  using sys_inv_unique(7) by (simp add: challenge_key_def [abs_def])

lemma keeps_insert_challenge:
  assumes "0 \<le> n" "ec_attempts row = 0"
  shows "keeps (sys_inv n a0 adm) (session_op (insert_challenge row msg))"
proof (rule keeps_session_op)
  fix db x db' assume s: "sys_inv n a0 adm db" and i: "insert_challenge row msg db = Inr (x, db')"
  from i obtain msgs where new: "ec_id row \<notin> ec_id ` set (id_challenges db)"
    "challenge_key row \<notin> challenge_key ` set (id_challenges db)"
    and db': "db' = db\<lparr>id_challenges := id_challenges db @ [row], id_outbox := msgs\<rparr>"
    by (auto simp: insert_challenge_def bind_r_eq_Inr split: if_splits)
  have "sys_inv n a0 adm (db\<lparr>id_challenges := id_challenges db @ [row]\<rparr>)" (is "sys_inv n a0 adm ?db")
    using s new assms sys_inv_attempts [OF s]
    by (intro sys_inv_challenges) (auto simp: unique_key_append_row sys_inv_unique challenge_key_def)
  then show "sys_inv n a0 adm db'" using db' sys_inv_outbox [where db = ?db] by simp
qed

lemma keeps_delete_challenge [keeps_rules]:
  "keeps (sys_inv n a0 adm) (modify (\<lambda>db. db\<lparr>id_challenges := delete_where P (id_challenges db)\<rparr>))"
  by (rule keeps_modify, rule sys_inv_challenges)
    (auto simp: sys_inv_unique unique_key_delete_where dest: sys_inv_attempts)

lemma keeps_issue_challenge [keeps_rules]:
  assumes "0 \<le> n"
  shows "keeps (sys_inv n a0 adm) (issue_challenge en st now fi email purpose cid)"
  unfolding issue_challenge_def
  by (intro keeps_rules keeps_lift_bnd [where r = "new_challenge en st now (fi_row fi) email purpose"]
      keeps_insert_challenge assms) (simp add: new_challenge_attempts)

lemma sys_inv_update_challenge:
  assumes s: "sys_inv n a0 adm db" and f: "\<And>c. ec_id (f c) = ec_id c" "\<And>c. challenge_key (f c) = challenge_key c"
    and a: "\<And>c. c \<in> set (id_challenges db) \<Longrightarrow> ec_id c = i \<Longrightarrow> 0 \<le> ec_attempts (f c) \<and> ec_attempts (f c) \<le> n"
  shows "sys_inv n a0 adm (update_challenge i f db)"
  unfolding update_challenge_def
proof (rule sys_inv_challenges [OF s])
  show "unique_key ec_id (update_ids ec_id [i] f (id_challenges db))"
    using f s by (simp add: unique_key_update_ids sys_inv_unique)
  show "unique_key (\<lambda>c. (ec_email c, ec_purpose c)) (update_ids ec_id [i] f (id_challenges db))"
    using f(2) s by (simp add: unique_key_update_ids sys_inv_unique challenge_key_def)
  show "0 \<le> ec_attempts c \<and> ec_attempts c \<le> n" if "c \<in> set (update_ids ec_id [i] f (id_challenges db))" for c
    using that a sys_inv_attempts [OF s] by (elim in_update_idsE) auto
qed

lemma keeps_update_challenge:
  assumes "\<And>c. ec_id (f c) = ec_id c" "\<And>c. challenge_key (f c) = challenge_key c" "\<And>c. ec_attempts (f c) = ec_attempts c"
  shows "keeps (sys_inv n a0 adm) (modify (update_challenge i f))"
  by (rule keeps_modify) (use assms in \<open>simp add: sys_inv_update_challenge sys_inv_attempts\<close>)

text \<open>The counter goes up only for a challenge that is still open.\<close>

lemma count_attempt:
  assumes s: "sys_inv n a0 adm db" and c: "get_row ec_id (id_challenges db) i = Some c" "ec_attempts c < n"
  shows "sys_inv n a0 adm (update_challenge i (\<lambda>c. c\<lparr>ec_attempts := ec_attempts c + 1\<rparr>) db)"
proof (rule sys_inv_update_challenge [OF s])
  fix d assume d: "d \<in> set (id_challenges db)" "ec_id d = i"
  then have "d = c" using get_row_SomeD [OF c(1)] unique_keyD [OF sys_inv_unique(6) [OF s]] by blast
  then show "0 \<le> ec_attempts (d\<lparr>ec_attempts := ec_attempts d + 1\<rparr>) \<and> ec_attempts (d\<lparr>ec_attempts := ec_attempts d + 1\<rparr>) \<le> n"
    using sys_inv_attempts [OF s d(1)] c(2) by simp
qed (simp_all add: challenge_key_def)

lemma keeps_consume_challenge [keeps_rules]:
  "keeps (sys_inv (st_challenge_attempts st) a0 adm) (consume_challenge en st now now2 fi i cd purpose cid)"
proof -
  let ?I = "sys_inv (st_challenge_attempts st) a0 adm"
  have inc: "valid ?I (\<lambda>db. Some c = get_row ec_id (id_challenges db) i)
      (modify (update_challenge i (\<lambda>c. c\<lparr>ec_attempts := ec_attempts c + 1\<rparr>))) (\<lambda>x db. True)"
    if "challenge_open st now purpose c" for c
    using that by (intro valid_modify) (auto simp: challenge_open_def intro!: count_attempt)
  have used: "keeps ?I (modify (update_challenge i (\<lambda>c. c\<lparr>ec_consumed_at := Some now2\<rparr>)))"
    by (rule keeps_update_challenge) (simp_all add: challenge_key_def)
  show ?thesis
    unfolding consume_challenge_def Let_def
  proof (rule keeps_query_bnd, goal_cases)
    case (1 row)
    show ?case
    proof (cases row)
      case None
      then show ?thesis by (auto intro!: keeps_valid keeps_rules)
    next
      case (Some c)
      show ?thesis
      proof (cases "challenge_open st now purpose c")
        case True
        show ?thesis unfolding Some by (simp add: True) (intro valid_bnd_keeps [OF inc [OF True]] keeps_rules used)
      next
        case False
        show ?thesis unfolding Some by (simp add: False) (intro keeps_valid keeps_rules)
      qed
    qed
  qed
qed

end
