(* ===== verification/Auth_Service.thy ===== *)
theory Auth_Service
  imports Challenges
begin

text \<open>
  Passwords (\<open>auth/passwords.py\<close>, \<open>auth/password_policy.py\<close>), registration (\<open>auth/registration.py\<close>), login,
  logout, reauthentication and password reset (\<open>auth/service.py\<close>), and the bootstrap of the first
  administrator (\<open>auth/bootstrap.py\<close>).

  \<open>clk n\<close> is the \<open>n\<close>-th reading of the clock in a request. Strings over the code points 0 to 255
  always encode to UTF-8, so the encoding error of the password policy cannot arise.
\<close>

section \<open>Passwords\<close>

definition min_password_len :: nat where "min_password_len = 15"
definition max_password_len :: nat where "max_password_len = 128"

definition validate_password :: "string \<Rightarrow> exn + string" where
  "validate_password v = (if min_password_len \<le> length v \<and> length v \<le> max_password_len then Inr v
     else Inl (app_error InvalidPasswordLengthError))"

definition hash_password :: "ident_env \<Rightarrow> string \<Rightarrow> exn + string" where
  "hash_password en v = bind_r (validate_password v) (\<lambda>p. Inr (en_argon_hash en p))"

definition dummy_hash :: "ident_env \<Rightarrow> string" where
  "dummy_hash en = en_argon_hash en ''timing-only-not-an-account-password''"

text \<open>\<open>encoded or _DUMMY_HASH\<close>: an empty stored hash counts as absent for the comparison.\<close>

definition verify_password :: "ident_env \<Rightarrow> string option \<Rightarrow> string \<Rightarrow> bool" where
  "verify_password en encoded v =
     (let valid = en_argon_verify en (case encoded of None \<Rightarrow> dummy_hash en | Some h \<Rightarrow> if h = [] then dummy_hash en else h) v
      in encoded \<noteq> None \<and> valid)"

definition common_passwords :: "string list" where
  "common_passwords = [''passwordpassword'', ''123456789012345'', ''12345678901234567890'', ''qwertyuiopasdfgh'']"

definition validate_new_password :: "ident_env \<Rightarrow> string \<Rightarrow> exn + string" where
  "validate_new_password en v =
     bind_r (validate_password v) (\<lambda>_.
     if length (remdups v) = 1 \<or> py_casefold (en_case en) v \<in> set common_passwords
     then Inl (app_error CommonPasswordError)
     else bind_r (en_is_breached en v) (\<lambda>b.
       if b then Inl (app_error BreachedPasswordError) else Inr v))"

section \<open>The breach lookup\<close>

text \<open>
  \<open>HibpBreachChecker.is_breached\<close> after the HTTP exchange: the status and the body the range service
  answered with (\<open>None\<close> for an HTTP error or a timeout), and the SHA-1 digest of the password in
  upper-case hexadecimal.
\<close>

definition line_break :: "char \<Rightarrow> bool" where
  "line_break c \<longleftrightarrow> ord c \<in> {10, 11, 12, 13, 28, 29, 30}"

fun py_splitlines :: "string \<Rightarrow> string \<Rightarrow> string list" where
  "py_splitlines w [] = (if w = [] then [] else [w])"
| "py_splitlines w (c # s) =
     (if ord c = 13 then (case s of
          d # t \<Rightarrow> if ord d = 10 then w # py_splitlines [] t else w # py_splitlines [] s
        | [] \<Rightarrow> [w])
      else if line_break c then w # py_splitlines [] s
      else py_splitlines (w @ [c]) s)"

definition upper_hex :: char_class where "upper_hex = [(CHR ''0'', CHR ''9''), (CHR ''A'', CHR ''F'')]"
definition digit :: char_class where "digit = [(CHR ''0'', CHR ''9'')]"

definition range_row_re :: regex where
  "range_row_re = Seq (ClsRep upper_hex 35 35) (Seq (chr_re (CHR '':'')) (ClsRep digit 1 12))"

fun scan_rows :: "string \<Rightarrow> string list \<Rightarrow> string list \<Rightarrow> bool \<Rightarrow> exn + bool" where
  "scan_rows target [] seen found = Inr found"
| "scan_rows target (row # rows) seen found =
     (if \<not> fullmatch range_row_re row then Inl (ValueError ''invalid range response'')
      else let suffix = take 35 row; n = digits_value (drop 36 row) in
        if suffix \<in> set seen then Inl (ValueError ''duplicate range suffix'')
        else scan_rows target rows (suffix # seen) (found \<or> (suffix = target \<and> 0 < n)))"

definition max_range_bytes :: nat where "max_range_bytes = 128 * 1024"

definition read_range :: "string \<Rightarrow> nat \<Rightarrow> string \<Rightarrow> exn + bool" where
  "read_range digest status body =
     (if status \<noteq> 200 then Inl (ValueError ''unexpected range status'')
      else if max_range_bytes < length body then Inl (ValueError ''range response exceeds limit'')
      else if \<not> list_all is_ascii body then Inl (ValueError ''ascii codec cannot decode'')
      else let rows = py_splitlines [] body in
        if rows = [] then Inl (ValueError ''empty range response'')
        else scan_rows (drop 5 digest) rows [] False)"

definition hibp_is_breached :: "string \<Rightarrow> (nat \<times> string) option \<Rightarrow> exn + bool" where
  "hibp_is_breached digest response = (case response of
     None \<Rightarrow> Inl (app_error PasswordCheckUnavailableError)
   | Some (status, body) \<Rightarrow> (case read_range digest status body of
       Inl e \<Rightarrow> Inl (app_error PasswordCheckUnavailableError)
     | Inr b \<Rightarrow> Inr b))"

section \<open>Registration\<close>

definition is_app :: "error_class \<Rightarrow> exn \<Rightarrow> bool" where
  "is_app c e = (case e of App c' d \<Rightarrow> instance_of c' c | _ \<Rightarrow> False)"

definition begin_registration ::
  "ident_env \<Rightarrow> auth_settings \<Rightarrow> (nat \<Rightarrow> instant) \<Rightarrow> fresh_ids \<Rightarrow> string \<Rightarrow> string option \<Rightarrow> uuid id_prog" where
  "begin_registration en st clk fi email cid =
     (let c = correlation cid (fi_correlation fi) in
      bnd (audit (record_event (en_case en) (en_float en) (clk 0) (fi_audit2 fi) (registration_initiated (fi_target fi) c))) (\<lambda>_.
      bnd (lift_r (normalize_email en email)) (\<lambda>e.
      bnd (find_user_by_email en e) (\<lambda>x.
      bnd (case x of Some _ \<Rightarrow> ret (fi_decoy fi)
           | None \<Rightarrow> issue_challenge en st (clk 1) fi e Registration (Some c)) (\<lambda>i.
      bnd commit (\<lambda>_. ret i))))))"

definition set_credential :: "uuid \<Rightarrow> string \<Rightarrow> identity_db \<Rightarrow> identity_db" where
  "set_credential i h db = db\<lparr>id_credentials := update_ids pc_user_id [i] (\<lambda>c. c\<lparr>pc_password_hash := h\<rparr>) (id_credentials db)\<rparr>"

text \<open>The insert of a credential; the primary key is the user.\<close>

definition insert_credential :: "uuid \<Rightarrow> string \<Rightarrow> unit id_prog" where
  "insert_credential i h = session_op (\<lambda>db.
     if i \<in> pc_user_id ` set (id_credentials db) then Inl (IntegrityError ''password_credentials'')
     else Inr ((), db\<lparr>id_credentials := id_credentials db @ [\<lparr>pc_user_id = i, pc_password_hash = h\<rparr>]\<rparr>))"

text \<open>\<open>try: consume_challenge(...) except InvalidChallengeError: commit; raise\<close>.\<close>

definition consume_or_commit ::
  "ident_env \<Rightarrow> auth_settings \<Rightarrow> (nat \<Rightarrow> instant) \<Rightarrow> fresh_ids \<Rightarrow> uuid \<Rightarrow> string \<Rightarrow> challenge_purpose \<Rightarrow> email_challenge id_prog" where
  "consume_or_commit en st clk fi i cd purpose =
     catch (consume_challenge en st (clk 0) (clk 1) fi i cd purpose None)
       (is_app InvalidChallengeError) (\<lambda>e. bnd commit (\<lambda>_. throw e))"

definition complete_registration ::
  "ident_env \<Rightarrow> auth_settings \<Rightarrow> (nat \<Rightarrow> instant) \<Rightarrow> fresh_ids \<Rightarrow> uuid \<Rightarrow> string \<Rightarrow> string \<Rightarrow> string option \<Rightarrow> unit id_prog" where
  "complete_registration en st clk fi i cd password cid =
     (let c = correlation cid (fi_correlation fi) in
      bnd (lift_r (validate_new_password en password)) (\<lambda>_.
      bnd (consume_or_commit en st clk fi i cd Registration) (\<lambda>ch.
      bnd (find_user_by_email en (ec_email ch)) (\<lambda>x.
      if x \<noteq> None then throw (app_error InvalidChallengeError)
      else
        bnd (create_customer en (clk 2) (fi_user fi) (ec_email ch)) (\<lambda>y.
        bnd (modify (update_user (us_id y) (\<lambda>z. z\<lparr>us_email_verified_at := Some (clk 2)\<rparr>))) (\<lambda>_.
        bnd (lift_r (hash_password en password)) (\<lambda>h.
        bnd (insert_credential (us_id y) h) (\<lambda>_.
        bnd (audit (record_event (en_case en) (en_float en) (clk 3) (fi_audit fi) (registration_completed (us_id y) c))) (\<lambda>_.
        commit)))))))))"

section \<open>Login, logout and reset\<close>

definition find_credential :: "uuid \<Rightarrow> password_credential option id_prog" where
  "find_credential i = query (\<lambda>db. get_row pc_user_id (id_credentials db) i)"

definition revoke_previous ::
  "ident_env \<Rightarrow> string \<Rightarrow> (nat \<Rightarrow> instant) \<Rightarrow> string option \<Rightarrow> unit id_prog" where
  "revoke_previous en ns clk previous = (case previous of
     None \<Rightarrow> ret ()
   | Some p \<Rightarrow>
       bnd (catch (bnd (resolve en ns (clk 1) (Some p)) (\<lambda>a. ret (Some a))) (is_app AuthenticationRequiredError) (\<lambda>_. ret None)) (\<lambda>a.
       case a of None \<Rightarrow> ret () | Some a \<Rightarrow> revoke ns (clk 2) (ac_user_id a) (Some (ac_session_id a))))"

definition login ::
  "ident_env \<Rightarrow> auth_settings \<Rightarrow> string \<Rightarrow> (nat \<Rightarrow> instant) \<Rightarrow> string \<Rightarrow> uuid \<Rightarrow> string \<Rightarrow> string \<Rightarrow> string option \<Rightarrow> string id_prog" where
  "login en st ns clk secret new_id email password previous =
     bnd (catch (find_user_by_email en email) (is_app InvalidEmailError) (\<lambda>_. ret None)) (\<lambda>x0.
     bnd (case x0 of None \<Rightarrow> ret None | Some x \<Rightarrow> find_user_by_id (us_id x)) (\<lambda>xo.
     bnd (case xo of None \<Rightarrow> ret None | Some x \<Rightarrow> find_credential (us_id x)) (\<lambda>cred.
     let valid = verify_password en (map_option pc_password_hash cred) password in
     case xo of
       None \<Rightarrow> throw (app_error InvalidCredentialsError)
     | Some x \<Rightarrow>
         if \<not> valid \<or> \<not> us_is_active x \<or> us_email_verified_at x = None
         then throw (app_error InvalidCredentialsError)
         else
           bnd (case cred of None \<Rightarrow> ret ()
                | Some c \<Rightarrow> if en_argon_needs_rehash en (pc_password_hash c)
                            then bnd (lift_r (hash_password en password)) (\<lambda>h. modify (set_credential (pc_user_id c) h))
                            else ret ()) (\<lambda>_.
           bnd (issue_session en st (clk 0) secret new_id x) (\<lambda>sec.
           bnd (revoke_previous en ns clk previous) (\<lambda>_.
           bnd commit (\<lambda>_. ret sec)))))))"

definition logout :: "ident_env \<Rightarrow> string \<Rightarrow> (nat \<Rightarrow> instant) \<Rightarrow> string option \<Rightarrow> unit id_prog" where
  "logout en ns clk secret =
     bnd (catch (bnd (resolve en ns (clk 0) secret) (\<lambda>a. ret (Some a))) (is_app AuthenticationRequiredError) (\<lambda>_. ret None)) (\<lambda>a.
     case a of
       None \<Rightarrow> ret ()
     | Some a \<Rightarrow> bnd (revoke ns (clk 1) (ac_user_id a) (Some (ac_session_id a))) (\<lambda>_. commit))"

definition logout_all :: "string \<Rightarrow> (nat \<Rightarrow> instant) \<Rightarrow> actor \<Rightarrow> unit id_prog" where
  "logout_all ns clk ac =
     bnd (find_user_by_id (ac_user_id ac)) (\<lambda>x.
     if x = None then throw (app_error AuthenticationRequiredError)
     else bnd (revoke ns (clk 0) (ac_user_id ac) None) (\<lambda>_. commit))"

definition reauthenticate :: "ident_env \<Rightarrow> (nat \<Rightarrow> instant) \<Rightarrow> actor \<Rightarrow> string \<Rightarrow> unit id_prog" where
  "reauthenticate en clk ac password =
     bnd (find_user_by_id (ac_user_id ac)) (\<lambda>xo.
     bnd (find_credential (ac_user_id ac)) (\<lambda>cred.
     let valid = verify_password en (map_option pc_password_hash cred) password in
     bnd (query (\<lambda>db. get_row as_id (id_sessions db) (ac_session_id ac))) (\<lambda>ro.
     case (xo, ro) of
       (Some x, Some r) \<Rightarrow>
         if \<not> valid \<or> \<not> us_is_active x \<or> as_revoked_at r \<noteq> None \<or> as_expires_at r \<le> clk 0
         then throw (app_error AuthenticationRequiredError)
         else bnd (modify (\<lambda>db. db\<lparr>id_sessions := update_ids as_id [as_id r]
                    (\<lambda>r. r\<lparr>as_authenticated_at := clk 1\<rparr>) (id_sessions db)\<rparr>)) (\<lambda>_. commit)
     | _ \<Rightarrow> throw (app_error AuthenticationRequiredError))))"

definition begin_reset ::
  "ident_env \<Rightarrow> auth_settings \<Rightarrow> (nat \<Rightarrow> instant) \<Rightarrow> fresh_ids \<Rightarrow> string \<Rightarrow> uuid id_prog" where
  "begin_reset en st clk fi email =
     bnd (find_user_by_email en email) (\<lambda>xo.
     bnd (case xo of
            None \<Rightarrow> ret (fi_decoy fi)
          | Some x \<Rightarrow>
              if \<not> us_is_active x \<or> us_email_verified_at x = None then ret (fi_decoy fi)
              else bnd (find_credential (us_id x)) (\<lambda>cred.
                if cred = None then ret (fi_decoy fi)
                else issue_challenge en st (clk 0) fi (us_email x) Password_Reset None)) (\<lambda>i.
     bnd commit (\<lambda>_. ret i)))"

definition password_reset_record ::
  "ident_env \<Rightarrow> instant \<Rightarrow> uuid \<Rightarrow> uuid \<Rightarrow> string \<Rightarrow> exn + audit_record" where
  "password_reset_record en now new_id target cid =
     record_audit (en_case en) (en_float en) now new_id anonymous_actor (VStr ''identity.password_reset'')
       (VStr ''user'') (VUuid target) Audit_Succeeded (VDict []) [] (VStr cid) None"

text \<open>What follows once the challenge is consumed.\<close>

definition finish_reset ::
  "ident_env \<Rightarrow> string \<Rightarrow> (nat \<Rightarrow> instant) \<Rightarrow> fresh_ids \<Rightarrow> string \<Rightarrow> string \<Rightarrow> email_challenge \<Rightarrow> unit id_prog" where
  "finish_reset en ns clk fi password cid ch =
     bnd (find_user_by_email en (ec_email ch)) (\<lambda>x0.
     bnd (case x0 of None \<Rightarrow> ret None | Some x \<Rightarrow> find_user_by_id (us_id x)) (\<lambda>xo.
     case xo of
       None \<Rightarrow> throw (app_error AuthenticationRequiredError)
     | Some x \<Rightarrow>
         if \<not> us_is_active x \<or> us_email_verified_at x = None then throw (app_error AuthenticationRequiredError)
         else
           bnd (find_credential (us_id x)) (\<lambda>cred.
           if cred = None then throw (app_error AuthenticationRequiredError)
           else
             bnd (lift_r (hash_password en password)) (\<lambda>h.
             bnd (modify (set_credential (us_id x) h)) (\<lambda>_.
             bnd (revoke ns (clk 2) (us_id x) None) (\<lambda>_.
             bnd (audit (password_reset_record en (clk 3) (fi_audit fi) (us_id x) cid)) (\<lambda>_.
             commit)))))))"

definition complete_reset ::
  "ident_env \<Rightarrow> auth_settings \<Rightarrow> string \<Rightarrow> (nat \<Rightarrow> instant) \<Rightarrow> fresh_ids \<Rightarrow> uuid \<Rightarrow> string \<Rightarrow> string \<Rightarrow> string \<Rightarrow> unit id_prog" where
  "complete_reset en st ns clk fi i cd password cid =
     bnd (lift_r (validate_new_password en password)) (\<lambda>_.
     bnd (consume_or_commit en st clk fi i cd Password_Reset) (finish_reset en ns clk fi password cid))"

section \<open>The first administrator\<close>

definition bootstrap_record :: "ident_env \<Rightarrow> instant \<Rightarrow> uuid \<Rightarrow> uuid \<Rightarrow> exn + audit_record" where
  "bootstrap_record en now new_id target =
     record_audit (en_case en) (en_float en) now new_id \<lparr>aa_kind = System_Actor, aa_actor_id = None\<rparr>
       (VStr ''identity.admin_bootstrapped'') (VStr ''user'') (VUuid target) Audit_Succeeded (VDict []) []
       (VStr ''admin-bootstrap'') None"

definition bootstrap ::
  "ident_env \<Rightarrow> (nat \<Rightarrow> instant) \<Rightarrow> fresh_ids \<Rightarrow> string \<Rightarrow> string \<Rightarrow> unit id_prog" where
  "bootstrap en clk fi email password =
     bnd (find_user_by_email en email) (\<lambda>existing.
     case existing of
       Some x \<Rightarrow>
         if us_role x = role_value Admin \<and> us_is_active x \<and> us_email_verified_at x \<noteq> None
         then ret () else throw (app_error BootstrapConflictError)
     | None \<Rightarrow>
         bnd (query (\<lambda>db. count_where active_admin (id_users db))) (\<lambda>n.
         if 0 < n then throw (app_error BootstrapCompleteError)
         else
           bnd (lift_r (validate_new_password en password)) (\<lambda>_.
           bnd (create_customer en (clk 0) (fi_user fi) email) (\<lambda>y.
           bnd (modify (update_user (us_id y) (\<lambda>z. z\<lparr>us_role := role_value Admin, us_email_verified_at := Some (clk 0)\<rparr>))) (\<lambda>_.
           bnd (lift_r (hash_password en password)) (\<lambda>h.
           bnd (insert_credential (us_id y) h) (\<lambda>_.
           audit (bootstrap_record en (clk 1) (fi_audit fi) (us_id y)))))))))"

definition run_bootstrap ::
  "ident_env \<Rightarrow> (nat \<Rightarrow> instant) \<Rightarrow> fresh_ids \<Rightarrow> string \<Rightarrow> string \<Rightarrow> unit id_prog" where
  "run_bootstrap en clk fi email password = bnd (bootstrap en clk fi email password) (\<lambda>_. commit)"

section \<open>The system invariant\<close>

lemma keeps_insert_credential [keeps_rules]: "keeps (sys_inv n a0 adm) (insert_credential i h)"
  unfolding insert_credential_def
  by (rule keeps_session_op) (auto intro!: sys_inv_credentials simp: unique_key_append_row sys_inv_unique split: if_splits)

lemma keeps_set_credential [keeps_rules]: "keeps (sys_inv n a0 adm) (modify (set_credential i h))"
  by (rule keeps_modify) (auto intro!: sys_inv_credentials simp: set_credential_def unique_key_update_ids sys_inv_unique)

lemma keeps_refresh_session [keeps_rules]:
  "keeps (sys_inv n a0 adm) (modify (\<lambda>db. db\<lparr>id_sessions := update_ids as_id ks (\<lambda>r. r\<lparr>as_authenticated_at := t\<rparr>) (id_sessions db)\<rparr>))"
  by (rule keeps_modify) (auto intro!: sys_inv_sessions simp: unique_key_update_ids sys_inv_unique)

lemma keeps_verify_user [keeps_rules]:
  "keeps (sys_inv n a0 adm) (modify (update_user i (\<lambda>z. z\<lparr>us_email_verified_at := Some t\<rparr>)))"
  by (rule keeps_update_user) (simp_all add: active_admin_def)

lemma keeps_make_admin [keeps_rules]:
  "keeps (sys_inv n a0 adm) (modify (update_user i (\<lambda>z. z\<lparr>us_role := role_value Admin, us_email_verified_at := Some t\<rparr>)))"
  by (rule keeps_update_user) (simp_all add: active_admin_def)

lemma keeps_find_credential [keeps_rules]: "keeps I (find_credential i)"
  unfolding find_credential_def by (intro keeps_rules)

lemma keeps_consume_or_commit [keeps_rules]:
  "keeps (sys_inv (st_challenge_attempts st) a0 adm) (consume_or_commit en st clk fi i cd purpose)"
  unfolding consume_or_commit_def by (intro keeps_rules)

lemma keeps_begin_registration:
  "0 \<le> n \<Longrightarrow> keeps (sys_inv n a0 adm) (begin_registration en st clk fi email cid)"
  unfolding begin_registration_def Let_def by (intro keeps_rules)

lemma keeps_complete_registration:
  "keeps (sys_inv (st_challenge_attempts st) a0 adm) (complete_registration en st clk fi i cd password cid)"
  unfolding complete_registration_def Let_def by (intro keeps_rules)

lemma keeps_revoke_previous [keeps_rules]: "keeps (sys_inv n a0 adm) (revoke_previous en ns clk previous)"
  unfolding revoke_previous_def by (intro keeps_rules)

lemma keeps_login: "keeps (sys_inv n a0 adm) (login en st ns clk secret new_id email password previous)"
  unfolding login_def Let_def by (intro keeps_rules)

lemma keeps_logout: "keeps (sys_inv n a0 adm) (logout en ns clk secret)"
  unfolding logout_def by (intro keeps_rules)

lemma keeps_logout_all: "keeps (sys_inv n a0 adm) (logout_all ns clk ac)"
  unfolding logout_all_def by (intro keeps_rules)

lemma keeps_reauthenticate: "keeps (sys_inv n a0 adm) (reauthenticate en clk ac password)"
  unfolding reauthenticate_def Let_def by (intro keeps_rules)

lemma keeps_begin_reset: "0 \<le> n \<Longrightarrow> keeps (sys_inv n a0 adm) (begin_reset en st clk fi email)"
  unfolding begin_reset_def by (intro keeps_rules)

lemma keeps_complete_reset:
  "keeps (sys_inv (st_challenge_attempts st) a0 adm) (complete_reset en st ns clk fi i cd password cid)"
  unfolding complete_reset_def finish_reset_def by (intro keeps_rules)

lemma keeps_run_bootstrap: "keeps (sys_inv n a0 adm) (run_bootstrap en clk fi email password)"
  unfolding run_bootstrap_def bootstrap_def by (intro keeps_rules)

end
