(* ===== verification/Email_Delivery.thy ===== *)
theory Email_Delivery
  imports Auth_Service Leased_Outbox
begin

text \<open>
  E-mail: \<open>email/schemas.py\<close>, \<open>email/settings.py\<close>, \<open>email/ports.py\<close>, \<open>email/resend.py\<close> and the handler
  \<open>auth/email_handler.py\<close> that turns a challenge into a message.

  The HTTP client is the argument \<open>post\<close>: it is given the whole request and the state of the world
  outside, and answers with a response, a connection error, another HTTP error, or is interrupted by
  an exception (a timeout). Parameters of third-party code and of text this model cannot spell are the
  fields of \<open>email_env\<close>: pydantic's \<open>EmailStr\<close>, \<open>json.loads\<close>, \<open>str\<close> of a JSON value, and the subject
  lines, which use letters outside Latin-1.
\<close>

section \<open>Messages and settings\<close>

record email_env =
  em_ident :: ident_env
  em_email_str :: "string \<Rightarrow> string option"
  em_subject :: "challenge_purpose \<Rightarrow> string"
  em_loads :: "string \<Rightarrow> pyval option"
  em_str :: "pyval \<Rightarrow> string"

record resend_settings =
  rs_api_key :: string
  rs_sender :: string
  rs_fingerprint_key :: string
  rs_timeout_micros :: duration

definition validate_resend_settings :: "email_env \<Rightarrow> resend_settings \<Rightarrow> exn + resend_settings" where
  "validate_resend_settings em s =
     (if rs_api_key s = [] \<or> length (rs_fingerprint_key s) < 32 \<or>
         \<not> (0 < rs_timeout_micros s \<and> rs_timeout_micros s \<le> secs 20)
      then Inl (ValueError ''field out of range'')
      else (case em_email_str em (rs_sender s) of
        None \<Rightarrow> Inl (ValueError ''value is not a valid email address'')
      | Some a \<Rightarrow> Inr (s\<lparr>rs_sender := a\<rparr>)))"

record outgoing_email =
  oe_delivery_id :: uuid
  oe_recipients :: "string list"
  oe_subject :: string
  oe_text_body :: string
  oe_html_body :: "string option"

text \<open>The fields are validated in order; every recipient is replaced by its validated form.\<close>

definition validate_recipients :: "email_env \<Rightarrow> string list \<Rightarrow> exn + string list" where
  "validate_recipients em rs =
     (if \<not> (1 \<le> length rs \<and> length rs \<le> 100) then Inl (ValueError ''recipients must hold 1 to 100 addresses'')
      else if list_ex (\<lambda>r. em_email_str em r = None) rs then Inl (ValueError ''value is not a valid email address'')
      else let values = map (\<lambda>r. the (em_email_str em r)) rs;
               normalized = map (py_casefold (en_case (em_ident em))) values in
        if distinct normalized then Inr values else Inl (ValueError ''recipients must be unique''))"

definition validate_subject :: "string \<Rightarrow> exn + string" where
  "validate_subject s =
     (if \<not> (1 \<le> length s \<and> length s \<le> 200) then Inl (ValueError ''subject must have 1 to 200 characters'')
      else if py_strip s = [] \<or> list_ex (\<lambda>c. ord c = 13 \<or> ord c = 10 \<or> ord c = 0) s
        then Inl (ValueError ''subject must be a non-empty single line'')
      else Inr s)"

definition mk_outgoing_email :: "email_env \<Rightarrow> outgoing_email \<Rightarrow> exn + outgoing_email" where
  "mk_outgoing_email em m =
     bind_r (validate_recipients em (oe_recipients m)) (\<lambda>rs.
     bind_r (validate_subject (oe_subject m)) (\<lambda>_.
     if \<not> (1 \<le> length (oe_text_body m) \<and> length (oe_text_body m) \<le> 131072)
     then Inl (ValueError ''text_body must have 1 to 131072 characters'')
     else if (case oe_html_body m of None \<Rightarrow> False | Some h \<Rightarrow> 262144 < length h)
     then Inl (ValueError ''html_body must have at most 262144 characters'')
     else Inr (m\<lparr>oe_recipients := rs\<rparr>)))"

section \<open>The Resend adapter\<close>

record email_request =
  er_key :: string
  er_body :: string

record email_submission =
  sb_requests :: "email_request list"
  sb_fingerprint :: string

text \<open>A number as bytes, most significant first.\<close>

fun be_bytes :: "nat \<Rightarrow> nat \<Rightarrow> string" where
  "be_bytes 0 n = []"
| "be_bytes (Suc w) n = be_bytes w (n div 256) @ [char_of (n mod 256)]"

text \<open>The keys of the body in the order \<open>sort_keys\<close> gives them.\<close>

definition request_body :: "email_env \<Rightarrow> resend_settings \<Rightarrow> outgoing_email \<Rightarrow> string \<Rightarrow> string" where
  "request_body em st m address = utf8_encode (json_dumps (en_float (em_ident em)) (VDict (str_items
     ([(''from'', VStr (rs_sender st))] @
      (case oe_html_body m of None \<Rightarrow> [] | Some h \<Rightarrow> [(''html'', VStr h)]) @
      [(''subject'', VStr (oe_subject m)), (''text'', VStr (oe_text_body m)), (''to'', VList [VStr address])]))))"

definition request_key :: "uuid \<Rightarrow> nat \<Rightarrow> string" where
  "request_key delivery_id index = ''email/'' @ uuid_str delivery_id @ ''/'' @ py_str_int (int index)"

definition framed :: "string \<Rightarrow> string" where
  "framed body = be_bytes 8 (length body) @ body"

definition canonical :: "email_request list \<Rightarrow> string" where
  "canonical rs = concat (map (\<lambda>r. framed (er_body r)) rs)"

definition prepare_email :: "email_env \<Rightarrow> resend_settings \<Rightarrow> outgoing_email \<Rightarrow> exn + email_submission" where
  "prepare_email em st m =
     bind_r (mk_outgoing_email em m) (\<lambda>snapshot.
     let requests = map (\<lambda>(i, a). \<lparr>er_key = request_key (oe_delivery_id snapshot) i,
                        er_body = request_body em st snapshot a\<rparr>) (enumerate 0 (oe_recipients snapshot))
     in Inr \<lparr>sb_requests = requests,
          sb_fingerprint = hex_fixed 64 (en_hmac (em_ident em) (rs_fingerprint_key st) (canonical requests))\<rparr>)"

record http_post =
  hp_url :: string
  hp_authorization :: string
  hp_idempotency_key :: string
  hp_content_type :: string
  hp_content :: string
  hp_timeout :: duration

datatype http_result =
    Response int "string list" "string option"
  | Connection_Error
  | Http_Error
  | Interrupted exn

definition resend_post :: "resend_settings \<Rightarrow> email_request \<Rightarrow> http_post" where
  "resend_post st r = \<lparr>hp_url = ''https://api.resend.com/emails'', hp_authorization = ''Bearer '' @ rs_api_key st,
     hp_idempotency_key = er_key r, hp_content_type = ''application/json'', hp_content = er_body r,
     hp_timeout = rs_timeout_micros st\<rparr>"

definition max_response_bytes :: nat where "max_response_bytes = 16384"

text \<open>The body is read chunk by chunk and given up as soon as it is too long.\<close>

fun read_chunks :: "string list \<Rightarrow> string \<Rightarrow> string option" where
  "read_chunks [] buf = Some buf"
| "read_chunks (c # cs) buf = (let buf' = buf @ c in
     if max_response_bytes < length buf' then None else read_chunks cs buf')"

definition document_get :: "email_env \<Rightarrow> string \<Rightarrow> string \<Rightarrow> pyval option" where
  "document_get em data k = (case em_loads em data of
     Some (VDict kvs) \<Rightarrow> map_of kvs (VStr k) | _ \<Rightarrow> None)"

definition text_of :: "email_env \<Rightarrow> pyval option \<Rightarrow> string" where
  "text_of em v = (case v of None \<Rightarrow> [] | Some (VStr s) \<Rightarrow> s | Some x \<Rightarrow> em_str em x)"

definition is_decimal :: "string \<Rightarrow> bool" where
  "is_decimal s \<longleftrightarrow> s \<noteq> [] \<and> list_all (\<lambda>c. 48 \<le> ord c \<and> ord c \<le> 57) s"

definition retry_after_of :: "string option \<Rightarrow> int" where
  "retry_after_of h = (let raw = (case h of None \<Rightarrow> [] | Some s \<Rightarrow> s) in
     if is_decimal raw \<and> length raw < 8 then min (int (digits_value raw)) 3600 else 60)"

text \<open>What one response means: the provider's identifier, or the outcome that ends the submission.\<close>

definition read_response ::
  "email_env \<Rightarrow> (string \<rightharpoonup> string) \<Rightarrow> int \<Rightarrow> string list \<Rightarrow> string option \<Rightarrow> (exn + delivery_outcome) + string" where
  "read_response em receipts status chunks retry_header = (case read_chunks chunks [] of
     None \<Rightarrow> Inl (mk_delivery_outcome Uncertain ''provider_response_invalid'' 0 receipts)
   | Some data \<Rightarrow>
       if status = 200 \<or> status = 201
       then (case en_parse_uuid (em_ident em) (text_of em (document_get em data ''id'')) of
               None \<Rightarrow> Inl (mk_delivery_outcome Uncertain ''provider_response_invalid'' 0 receipts)
             | Some x \<Rightarrow> Inr (uuid_str x))
       else let name = document_get em data ''name'' in
         if status = 401 \<or> status = 403 \<or> name = Some (VStr ''daily_quota_exceeded'') \<or>
            name = Some (VStr ''monthly_quota_exceeded'')
         then Inl (mk_delivery_outcome Blocked ''provider_configuration'' 0 receipts)
         else if name = Some (VStr ''invalid_idempotent_request'')
         then Inl (mk_delivery_outcome Blocked ''provider_key_conflict'' 0 receipts)
         else if status = 429 \<or> status = 409 \<and> name = Some (VStr ''concurrent_idempotent_requests'')
         then Inl (mk_delivery_outcome Retry ''provider_busy'' (retry_after_of retry_header) receipts)
         else if 500 \<le> status \<or> status = 408
         then Inl (mk_delivery_outcome Uncertain ''provider_unavailable'' 0 receipts)
         else Inl (mk_delivery_outcome Permanent ''provider_request_rejected'' 0 receipts))"

definition read_result ::
  "email_env \<Rightarrow> (string \<rightharpoonup> string) \<Rightarrow> http_result \<Rightarrow> (exn + delivery_outcome) + string" where
  "read_result em receipts res = (case res of
     Response status chunks h \<Rightarrow> read_response em receipts status chunks h
   | Connection_Error \<Rightarrow> Inl (mk_delivery_outcome Retry ''provider_connection'' 0 receipts)
   | Http_Error \<Rightarrow> Inl (mk_delivery_outcome Uncertain ''provider_result_unknown'' 0 receipts)
   | Interrupted e \<Rightarrow> Inl (Inl e))"

fun send_from ::
  "email_env \<Rightarrow> resend_settings \<Rightarrow> (http_post \<Rightarrow> 'w \<Rightarrow> http_result \<times> 'w) \<Rightarrow> nat \<Rightarrow> email_request list \<Rightarrow>
   (string \<rightharpoonup> string) \<Rightarrow> 'w \<Rightarrow> (exn + delivery_outcome) \<times> 'w" where
  "send_from em st post i [] receipts w = (mk_delivery_outcome Accepted ''provider_accepted'' 0 receipts, w)"
| "send_from em st post i (r # rs) receipts w =
     (if receipts (py_str_int (int i)) \<noteq> None then send_from em st post (Suc i) rs receipts w
      else (case post (resend_post st r) w of (res, w') \<Rightarrow>
        (case read_result em receipts res of
           Inl out \<Rightarrow> (out, w')
         | Inr provider_id \<Rightarrow> send_from em st post (Suc i) rs (receipts(py_str_int (int i) \<mapsto> provider_id)) w')))"

definition send_email ::
  "email_env \<Rightarrow> resend_settings \<Rightarrow> (http_post \<Rightarrow> 'w \<Rightarrow> http_result \<times> 'w) \<Rightarrow> email_submission \<Rightarrow>
   (string \<rightharpoonup> string) \<Rightarrow> 'w \<Rightarrow> (exn + delivery_outcome) \<times> 'w" where
  "send_email em st post sb completed w = send_from em st post 0 (sb_requests sb) completed w"

section \<open>The challenge handler\<close>

record 'p prepared_delivery =
  pd_payload :: 'p
  pd_fingerprint :: string
  pd_expires_at :: instant

datatype payload = Email_Submission email_submission | Other_Payload

definition challenge_email_event :: string where
  "challenge_email_event = ''email_challenge_requested''"

definition challenge_text :: "challenge_purpose \<Rightarrow> string \<Rightarrow> string" where
  "challenge_text p cd = ''Your '' @ py_replace (CHR ''_'') (CHR '' '') (purpose_value p) @ '' code is '' @ cd @ ''.'' @ [CHR 0x0A] @
     ''It expires shortly. If you did not request it, ignore this message.''"

definition build_email ::
  "email_env \<Rightarrow> auth_settings \<Rightarrow> email_challenge \<Rightarrow> uuid \<Rightarrow> exn + outgoing_email" where
  "build_email em st c delivery_id =
     bind_r (purpose_of (ec_purpose c)) (\<lambda>p.
     bind_r (derive_code (em_ident em) st c) (\<lambda>cd.
     mk_outgoing_email em \<lparr>oe_delivery_id = delivery_id, oe_recipients = [ec_email c], oe_subject = em_subject em p,
       oe_text_body = challenge_text p cd, oe_html_body = None\<rparr>))"

text \<open>The challenge an event names; None stands for the errors the handler turns into one outcome.\<close>

definition event_challenge :: "ident_env \<Rightarrow> domain_event \<Rightarrow> uuid option" where
  "event_challenge en e = (case map_of (ev_payload e) ''challenge_id'' of
     Some (VStr raw) \<Rightarrow> (case en_parse_uuid en raw of
       None \<Rightarrow> None
     | Some i \<Rightarrow>
         if ev_event_type e \<noteq> challenge_email_event \<or> ev_aggregate_type e \<noteq> ''email_challenge'' \<or>
            ev_aggregate_id e \<noteq> i
         then None else Some i)
   | _ \<Rightarrow> None)"

definition outcome_of :: "exn + delivery_outcome \<Rightarrow> exn + (delivery_outcome + 'p prepared_delivery)" where
  "outcome_of r = bind_r r (\<lambda>x. Inr (Inl x))"

definition handler_prepare ::
  "email_env \<Rightarrow> resend_settings \<Rightarrow> auth_settings \<Rightarrow> instant \<Rightarrow> identity_db \<Rightarrow> domain_event \<Rightarrow>
   exn + (delivery_outcome + payload prepared_delivery)" where
  "handler_prepare em rs st now db e = (case event_challenge (em_ident em) e of
     None \<Rightarrow> outcome_of (mk_delivery_outcome Permanent ''invalid_challenge_event'' 0 Map.empty)
   | Some i \<Rightarrow> (case get_row ec_id (id_challenges db) i of
       None \<Rightarrow> outcome_of (mk_delivery_outcome Skipped ''challenge_unavailable'' 0 Map.empty)
     | Some c \<Rightarrow>
         if ec_consumed_at c \<noteq> None \<or> ec_expires_at c \<le> now
         then outcome_of (mk_delivery_outcome Skipped ''challenge_unavailable'' 0 Map.empty)
         else (case purpose_of (ec_purpose c) of
           Inl _ \<Rightarrow> outcome_of (mk_delivery_outcome Permanent ''invalid_challenge_purpose'' 0 Map.empty)
         | Inr _ \<Rightarrow>
             if st_challenge_keys st (ec_key_version c) = None
             then outcome_of (mk_delivery_outcome Blocked ''challenge_key_missing'' 0 Map.empty)
             else bind_r (build_email em st c (ev_event_id e)) (\<lambda>outgoing.
               bind_r (prepare_email em rs outgoing) (\<lambda>sb.
               Inr (Inr \<lparr>pd_payload = Email_Submission sb, pd_fingerprint = sb_fingerprint sb,
                         pd_expires_at = ec_expires_at c\<rparr>))))))"

definition handler_deliver ::
  "email_env \<Rightarrow> resend_settings \<Rightarrow> (http_post \<Rightarrow> 'w \<Rightarrow> http_result \<times> 'w) \<Rightarrow> payload prepared_delivery \<Rightarrow>
   (string \<rightharpoonup> string) \<Rightarrow> 'w \<Rightarrow> (exn + delivery_outcome) \<times> 'w" where
  "handler_deliver em rs post p completed w = (case pd_payload p of
     Email_Submission sb \<Rightarrow> send_email em rs post sb completed w
   | Other_Payload \<Rightarrow> (mk_delivery_outcome Permanent ''invalid_prepared_delivery'' 0 Map.empty, w))"

section \<open>Facts\<close>

lemma py_str_int_nat_inj: "py_str_int (int i) = py_str_int (int j) \<longleftrightarrow> i = j"
  by (metis digits_value_nat_digits nat_int of_nat_less_0_iff py_str_int_def)

lemma length_be_bytes [simp]: "length (be_bytes w n) = w"
  by (induction w arbitrary: n) simp_all

lemma be_bytes_inj: "a < 256 ^ w \<Longrightarrow> b < 256 ^ w \<Longrightarrow> be_bytes w a = be_bytes w b \<Longrightarrow> a = b"
proof (induction w arbitrary: a b)
  case (Suc w)
  have "a div 256 = b div 256" using Suc.prems by (intro Suc.IH) (auto simp: less_mult_imp_div_less)
  moreover have "a mod 256 = b mod 256"
  proof -
    have "of_char (char_of (a mod 256) :: char) = (of_char (char_of (b mod 256) :: char) :: nat)"
      using Suc.prems(3) by simp
    then show ?thesis by simp
  qed
  ultimately show ?case by (metis div_mult_mod_eq)
qed simp

lemma framed_append_inj:
  assumes "length a < 2 ^ 64" "length b < 2 ^ 64" "framed a @ xs = framed b @ ys"
  shows "a = b \<and> xs = ys"
proof -
  have h: "be_bytes 8 (length a) = be_bytes 8 (length b)" and t: "a @ xs = b @ ys"
    using assms(3) by (auto simp: framed_def append_eq_append_conv)
  have "length a = length b" by (rule be_bytes_inj [of _ 8]) (use assms(1,2) h in simp_all)
  with t show ?thesis by simp
qed

lemma canonical_inj:
  "\<forall>r \<in> set rs \<union> set ss. length (er_body r) < 2 ^ 64 \<Longrightarrow> canonical rs = canonical ss \<Longrightarrow>
    map er_body rs = map er_body ss"
proof (induction rs arbitrary: ss)
  case Nil
  then show ?case by (cases ss) (auto simp: canonical_def framed_def dest: arg_cong [of _ _ length])
next
  case (Cons r rs)
  then obtain s ss' where ss: "ss = s # ss'"
    by (cases ss) (auto simp: canonical_def framed_def dest: arg_cong [of _ _ length])
  have "er_body r = er_body s \<and> canonical rs = canonical ss'"
    using Cons.prems ss by (intro framed_append_inj) (auto simp: canonical_def)
  with Cons ss show ?case by simp
qed

section \<open>Submissions, observed\<close>

text \<open>A client observed through the list of the requests it was given.\<close>

definition logged ::
  "(http_post \<Rightarrow> 'w \<Rightarrow> http_result \<times> 'w) \<Rightarrow> http_post \<Rightarrow> 'w \<times> http_post list \<Rightarrow> http_result \<times> 'w \<times> http_post list" where
  "logged post h s = (case post h (fst s) of (res, w) \<Rightarrow> (res, w, snd s @ [h]))"

definition index_name :: "nat \<times> email_request \<Rightarrow> string" where
  "index_name p = py_str_int (int (fst p))"

definition unresolved :: "nat \<Rightarrow> email_request list \<Rightarrow> (string \<rightharpoonup> string) \<Rightarrow> (nat \<times> email_request) list" where
  "unresolved i rs receipts = filter (\<lambda>p. receipts (index_name p) = None) (enumerate i rs)"

definition posts :: "resend_settings \<Rightarrow> (nat \<times> email_request) list \<Rightarrow> http_post list" where
  "posts st ps = map (\<lambda>p. resend_post st (snd p)) ps"

lemma logged_app: "logged post h (w, log) = (case post h w of (res, w') \<Rightarrow> (res, w', log @ [h]))"
  by (simp add: logged_def)

lemma mk_delivery_outcome_Inr:
  "mk_delivery_outcome k c n r = Inr out \<Longrightarrow> do_kind out = k \<and> do_receipts out = r"
  by (auto simp: mk_delivery_outcome_def split: if_splits)

lemma read_result_stop:
  "read_result em receipts res = Inl (Inr out) \<Longrightarrow> do_kind out \<noteq> Accepted \<and> do_receipts out = receipts"
  by (auto simp: read_result_def read_response_def Let_def dest!: mk_delivery_outcome_Inr
      split: http_result.splits option.splits if_splits)

lemma index_name_inj: "index_name p = index_name q \<longleftrightarrow> fst p = fst q"
  by (simp add: index_name_def py_str_int_nat_inj)

lemma unresolved_Cons:
  "unresolved i (r # rs) receipts =
     (if receipts (index_name (i, r)) = None then (i, r) # unresolved (Suc i) rs receipts else unresolved (Suc i) rs receipts)"
  by (simp add: unresolved_def)

lemma unresolved_later: "unresolved (Suc i) rs (receipts(py_str_int (int i) \<mapsto> x)) = unresolved (Suc i) rs receipts"
  unfolding unresolved_def
  by (rule filter_cong) (auto simp: in_set_enumerate_eq index_name_def py_str_int_nat_inj)

definition submitted ::
  "resend_settings \<Rightarrow> (nat \<times> email_request) list \<Rightarrow> (string \<rightharpoonup> string) \<Rightarrow> exn + delivery_outcome \<Rightarrow> http_post list \<Rightarrow> bool" where
  "submitted st u receipts out log \<longleftrightarrow> (\<exists>k \<le> length u. log = posts st (take k u) \<and>
     (\<forall>x. out = Inr x \<longrightarrow> receipts \<subseteq>\<^sub>m do_receipts x \<and>
        (\<exists>n. (if do_kind x = Accepted then n = k \<and> n = length u else Suc n = k) \<and>
           dom (do_receipts x) = dom receipts \<union> index_name ` set (take n u))))"

lemma submitted_Cons:
  assumes s: "submitted st u (receipts(index_name p \<mapsto> x)) out log" and n: "receipts (index_name p) = None"
  shows "submitted st (p # u) receipts out (resend_post st (snd p) # log)"
proof -
  from s obtain k where k: "k \<le> length u" "log = posts st (take k u)"
    and o: "\<And>y. out = Inr y \<Longrightarrow> receipts(index_name p \<mapsto> x) \<subseteq>\<^sub>m do_receipts y \<and>
        (\<exists>n. (if do_kind y = Accepted then n = k \<and> n = length u else Suc n = k) \<and>
           dom (do_receipts y) = dom (receipts(index_name p \<mapsto> x)) \<union> index_name ` set (take n u))"
    unfolding submitted_def by blast
  have sub: "receipts \<subseteq>\<^sub>m receipts(index_name p \<mapsto> x)" using n by (simp add: map_le_def dom_def)
  show ?thesis unfolding submitted_def
  proof (rule exI [of _ "Suc k"], intro conjI allI impI)
    fix y assume y: "out = Inr y"
    show "receipts \<subseteq>\<^sub>m do_receipts y" using o [OF y] sub map_le_trans by blast
    from o [OF y] obtain m where m: "if do_kind y = Accepted then m = k \<and> m = length u else Suc m = k"
      "dom (do_receipts y) = insert (index_name p) (dom receipts \<union> index_name ` set (take m u))" by auto
    show "\<exists>n. (if do_kind y = Accepted then n = Suc k \<and> n = length (p # u) else Suc n = Suc k) \<and>
        dom (do_receipts y) = dom receipts \<union> index_name ` set (take n (p # u))"
      by (rule exI [of _ "Suc m"]) (use m in \<open>auto split: if_splits\<close>)
  qed (use k in \<open>simp_all add: posts_def\<close>)
qed

lemma send_from_submitted:
  "send_from em st (logged post) i rs receipts (w, log) = (out, w', log') \<Longrightarrow>
    \<exists>new. log' = log @ new \<and> submitted st (unresolved i rs receipts) receipts out new"
proof (induction rs arbitrary: i receipts w log)
  case Nil
  then have "log' = log" "\<And>x. out = Inr x \<Longrightarrow> do_kind x = Accepted \<and> do_receipts x = receipts"
    by (auto dest: mk_delivery_outcome_Inr)
  then show ?case by (auto simp: submitted_def unresolved_def posts_def)
next
  case (Cons r rs)
  show ?case
  proof (cases "receipts (index_name (i, r)) = None")
    case False
    with Cons.prems have "send_from em st (logged post) (Suc i) rs receipts (w, log) = (out, w', log')"
      by (simp add: index_name_def)
    from Cons.IH [OF this] False show ?thesis by (auto simp: unresolved_Cons)
  next
    case True
    obtain res w1 where p: "post (resend_post st r) w = (res, w1)" by fastforce
    show ?thesis
    proof (cases "read_result em receipts res")
      case (Inl y)
      with Cons.prems True p have "out = y" "log' = log @ [resend_post st r]"
        by (auto simp: index_name_def logged_app)
      moreover have "submitted st ((i, r) # unresolved (Suc i) rs receipts) receipts y [resend_post st r]"
        unfolding submitted_def using Inl read_result_stop [of em receipts res]
        by (intro exI [of _ "Suc 0"]) (auto simp: posts_def)
      ultimately show ?thesis using True by (simp add: unresolved_Cons)
    next
      case (Inr x)
      with Cons.prems True p have "send_from em st (logged post) (Suc i) rs (receipts(py_str_int (int i) \<mapsto> x))
          (w1, log @ [resend_post st r]) = (out, w', log')"
        by (simp add: index_name_def logged_app)
      from Cons.IH [OF this, unfolded unresolved_later] obtain new where new: "log' = (log @ [resend_post st r]) @ new"
        "submitted st (unresolved (Suc i) rs receipts) (receipts(py_str_int (int i) \<mapsto> x)) out new" by blast
      have "submitted st ((i, r) # unresolved (Suc i) rs receipts) receipts out (resend_post st (snd (i, r)) # new)"
        by (rule submitted_Cons) (use new(2) True in \<open>simp_all add: index_name_def\<close>)
      with new(1) True show ?thesis by (simp add: unresolved_Cons)
    qed
  qed
qed

lemma distinct_index_names: "distinct (map index_name (unresolved i rs receipts))"
proof -
  have "inj_on index_name (set (enumerate i rs))"
    by (auto simp: inj_on_def index_name_inj in_set_enumerate_eq prod_eq_iff)
  then show ?thesis
    by (auto simp: unresolved_def distinct_map intro: inj_on_subset)
qed

lemma unresolved_after:
  assumes "dom m = dom receipts \<union> index_name ` set (take n (unresolved i rs receipts))"
  shows "unresolved i rs m = drop n (unresolved i rs receipts)"
proof -
  let ?u = "unresolved i rs receipts"
  have "unresolved i rs m = filter (\<lambda>p. index_name p \<notin> dom m) (enumerate i rs)"
    by (simp add: unresolved_def domIff)
  also have "\<dots> = filter (\<lambda>p. index_name p \<notin> index_name ` set (take n ?u)) ?u"
    unfolding assms by (auto simp: unresolved_def domIff intro: filter_cong)
  also have "\<dots> = filter (\<lambda>p. index_name p \<notin> index_name ` set (take n ?u)) (take n ?u @ drop n ?u)" by simp
  also have "\<dots> = drop n ?u"
  proof -
    have "distinct (map index_name (take n ?u @ drop n ?u))" by (simp add: distinct_index_names)
    then have "\<And>p. p \<in> set (drop n ?u) \<Longrightarrow> index_name p \<notin> index_name ` set (take n ?u)"
      unfolding map_append distinct_append by auto
    then show ?thesis unfolding filter_append by (simp add: filter_empty_conv filter_id_conv)
  qed
  finally show ?thesis .
qed

section \<open>Content\<close>

lemma hex_fixed_hex: "list_all (in_class [(CHR ''a'', CHR ''f''), (CHR ''0'', CHR ''9'')]) (hex_fixed w n)"
proof (induction w arbitrary: n)
  case (Suc w)
  have "in_class [(CHR ''a'', CHR ''f''), (CHR ''0'', CHR ''9'')] (hex_digit (n mod 16))"
    by (auto simp: in_class_def hex_digit_def)
  with Suc show ?case by simp
qed simp

lemma prepare_email_Inr:
  assumes "prepare_email em st m = Inr s"
  obtains rs where "mk_outgoing_email em m = Inr (m\<lparr>oe_recipients := rs\<rparr>)"
    "sb_requests s = map (\<lambda>(i, a). \<lparr>er_key = request_key (oe_delivery_id m) i,
        er_body = request_body em st (m\<lparr>oe_recipients := rs\<rparr>) a\<rparr>) (enumerate 0 rs)"
    "sb_fingerprint s = hex_fixed 64 (en_hmac (em_ident em) (rs_fingerprint_key st) (canonical (sb_requests s)))"
  using assms by (auto simp: prepare_email_def mk_outgoing_email_def result_simps Let_def split: if_splits option.splits)

lemma request_key_inj: "request_key d i = request_key d j \<longleftrightarrow> i = j"
  by (simp add: request_key_def py_str_int_nat_inj)

lemma new_challenge_digest:
  assumes "new_challenge en st t i email purpose = Inr row" and "c = row\<lparr>ec_attempts := a, ec_consumed_at := x\<rparr>"
  shows "\<exists>cd. derive_code en st c = Inr cd \<and> code_digest en st c cd = Inr (ec_code_hash c)"
  using assms by (auto simp: new_challenge_def Let_def result_simps derive_code_def code_digest_def)

lemma handler_prepare_open:
  assumes "handler_prepare em rs st now db e = Inr (Inr p)"
  obtains i c m sb where "event_challenge (em_ident em) e = Some i" "get_row ec_id (id_challenges db) i = Some c"
    "ec_consumed_at c = None" "now < ec_expires_at c" "build_email em st c (ev_event_id e) = Inr m"
    "prepare_email em rs m = Inr sb" "p = \<lparr>pd_payload = Email_Submission sb, pd_fingerprint = sb_fingerprint sb,
       pd_expires_at = ec_expires_at c\<rparr>"
  using assms by (auto simp: handler_prepare_def outcome_of_def result_simps split: option.splits if_splits sum.splits)

lemma consume_challenge_run:
  assumes "get_row ec_id (id_challenges db) i = Some c" "challenge_open st now purpose c"
    "code_digest en st c cd = Inr (ec_code_hash c)"
  shows "fst (run_tx (consume_challenge en st now now2 fi i cd purpose cid) db w) =
    Inr (c\<lparr>ec_attempts := ec_attempts c + 1, ec_consumed_at := Some now2\<rparr>)"
  using assms
  by (simp add: run_tx_def uow_enter_def new_uow_def consume_challenge_def Let_def prog_defs)

lemma freeze_single:
  assumes "freeze_mapping [(VStr k, VStr v)] d b = Inr (p, b')"
  shows "p = [(k, VStr v)]"
  using assms
  by (auto simp: result_simps validate_payload_key_def freeze_value.simps Let_def split: if_splits)

lemma challenge_event_id:
  assumes "challenge_event eid i t = Inr e" and "en_parse_uuid en (uuid_str i) = Some i"
  shows "event_challenge en e = Some i \<and> ev_event_id e = eid"
  using assms by (auto simp: challenge_event_def mk_domain_event_Inr event_challenge_def challenge_email_event_def
      simp del: freeze_mapping.simps dest!: freeze_single)

section \<open>Concrete values\<close>

definition demo_email_env :: email_env where
  "demo_email_env = \<lparr>em_ident = demo_env\<lparr>en_parse_uuid := \<lambda>s. Some 31\<rparr>, em_email_str = Some, em_subject = \<lambda>p. ''Code'',
     em_loads = \<lambda>s. None, em_str = \<lambda>v. []\<rparr>"

definition demo_resend :: resend_settings where
  "demo_resend = \<lparr>rs_api_key = ''k'', rs_sender = ''a@b.c'', rs_fingerprint_key = replicate 32 CHR ''f'', rs_timeout_micros = secs 10\<rparr>"

definition demo_submission :: email_submission where
  "demo_submission = \<lparr>sb_requests = [\<lparr>er_key = ''k0'', er_body = ''x''\<rparr>, \<lparr>er_key = ''k1'', er_body = ''y''\<rparr>], sb_fingerprint = []\<rparr>"

definition demo_post :: "http_post \<Rightarrow> nat \<Rightarrow> http_result \<times> nat" where
  "demo_post h n = (if n = 0 then Response 200 [] None else Connection_Error, Suc n)"

definition demo_auth_settings :: auth_settings where
  "demo_auth_settings = \<lparr>st_session_seconds = 300, st_cache_seconds = 60, st_challenge_seconds = 600, st_challenge_attempts = 5,
     st_resend_seconds = 60, st_recent_auth_seconds = 300, st_allowed_origins = [],
     st_challenge_keys = [''v1'' \<mapsto> replicate 32 CHR ''k''], st_active_challenge_key = ''v1''\<rparr>"

definition demo_fresh :: fresh_ids where
  "demo_fresh = \<lparr>fi_row = 31, fi_decoy = 32, fi_event = 33, fi_message = 34, fi_audit = 35, fi_audit2 = 36,
     fi_correlation = 37, fi_target = 38, fi_user = 39\<rparr>"

section \<open>Properties\<close>

text \<open>
  C16: a delivery is resumed, never repeated. An attempt submits the recipients without a receipt in
  order, each at most once; it returns the receipts it was given together with those of the submissions the
  provider acknowledged, that is of all it made, or of all but the last when it stopped early; it is accepted
  exactly when no recipient is left. The next attempt, started from these receipts, submits only recipients
  that had none: no acknowledged submission is ever sent again.
\<close>

theorem send_resumes:
  assumes a: "send_email em st (logged post) sb completed (w, []) = (Inr out, w1, log1)"
    and b: "send_email em st (logged post) sb (completed ++ do_receipts out) (w2, []) = (r2, w3, log2)"
  shows "\<exists>k n m. let todo = unresolved 0 (sb_requests sb) completed in
    log1 = posts st (take k todo) \<and> n = (if do_kind out = Accepted then k else k - 1) \<and>
    completed \<subseteq>\<^sub>m do_receipts out \<and> dom (do_receipts out) = dom completed \<union> index_name ` set (take n todo) \<and>
    (do_kind out = Accepted \<longleftrightarrow> length todo \<le> n) \<and> log2 = posts st (take m (drop n todo)) \<and>
    distinct (map index_name todo)"
proof -
  let ?todo = "unresolved 0 (sb_requests sb) completed"
  from send_from_submitted [OF a [unfolded send_email_def]] obtain k n where k: "k \<le> length ?todo" "log1 = posts st (take k ?todo)"
    and n: "if do_kind out = Accepted then n = k \<and> n = length ?todo else Suc n = k"
    and le: "completed \<subseteq>\<^sub>m do_receipts out"
    and d: "dom (do_receipts out) = dom completed \<union> index_name ` set (take n ?todo)"
    by (auto simp: submitted_def)
  have "dom (completed ++ do_receipts out) = dom completed \<union> index_name ` set (take n ?todo)" using d by auto
  then have u: "unresolved 0 (sb_requests sb) (completed ++ do_receipts out) = drop n ?todo" by (rule unresolved_after)
  from send_from_submitted [OF b [unfolded send_email_def]] obtain m where "log2 = posts st (take m (drop n ?todo))"
    unfolding u by (auto simp: submitted_def)
  with k n le d show ?thesis
    by (intro exI [of _ k] exI [of _ n] exI [of _ m]) (auto simp: Let_def distinct_index_names split: if_splits)
qed

theorem send_resumes_witness:
  "\<exists>out w1 log1 r2 w3 log2. send_email demo_email_env demo_resend (logged demo_post) demo_submission Map.empty (0, []) = (Inr out, w1, log1) \<and>
    send_email demo_email_env demo_resend (logged demo_post) demo_submission (Map.empty ++ do_receipts out) (0, []) = (r2, w3, log2) \<and>
    do_kind out = Retry \<and> map hp_idempotency_key log1 = [''k0'', ''k1''] \<and> map hp_idempotency_key log2 = [''k1''] \<and>
    (\<exists>n m. log2 = posts demo_resend (take m (drop n (unresolved 0 (sb_requests demo_submission) Map.empty))))"
proof -
  let ?e = demo_email_env and ?s = demo_resend and ?b = demo_submission
  have "\<exists>out w1 log1 r2 w3 log2. send_email ?e ?s (logged demo_post) ?b Map.empty (0, []) = (Inr out, w1, log1) \<and>
      send_email ?e ?s (logged demo_post) ?b (Map.empty ++ do_receipts out) (0, []) = (r2, w3, log2) \<and>
      do_kind out = Retry \<and> map hp_idempotency_key log1 = [''k0'', ''k1''] \<and> map hp_idempotency_key log2 = [''k1'']"
    by (simp add: send_email_def logged_app demo_post_def demo_submission_def read_result_def read_response_def
        text_of_def document_get_def demo_email_env_def mk_delivery_outcome_def outcome_code_re_def regex_eval resend_post_def
        py_str_int_def nat_digits.simps)
  then obtain out w1 log1 r2 w3 log2 where
    a: "send_email ?e ?s (logged demo_post) ?b Map.empty (0, []) = (Inr out, w1, log1)" and
    b: "send_email ?e ?s (logged demo_post) ?b (Map.empty ++ do_receipts out) (0, []) = (r2, w3, log2)" and
    c: "do_kind out = Retry" "map hp_idempotency_key log1 = [''k0'', ''k1'']" "map hp_idempotency_key log2 = [''k1'']"
    by (elim exE conjE) (rule that)
  from send_resumes [OF a b] have "\<exists>n m. log2 = posts ?s (take m (drop n (unresolved 0 (sb_requests ?b) Map.empty)))"
    by (auto simp: Let_def)
  note all = conjI [OF a conjI [OF b conjI [OF c(1) conjI [OF c(2) conjI [OF c(3) this]]]]]
  from all show ?thesis by (intro exI)
qed



text \<open>
  C15: the code in the e-mail is the code that is accepted. From a challenge and its event as
  \<open>issue_challenge\<close> creates them, the worker prepares, at any time before the challenge expires, exactly one
  request to the address of the challenge whose text carries a code; and presenting that code, before expiry and
  with attempts left, consumes the challenge. UUID texts are assumed to be read back, and the address and
  subject to be valid.
\<close>

theorem emailed_code_accepted:
  assumes new: "new_challenge (em_ident em) st t0 i email purpose = Inr row"
    and ev: "challenge_event eid i t0 = Inr e"
    and row: "get_row ec_id (id_challenges db) i = Some (row\<lparr>ec_attempts := a\<rparr>)"
    and live: "t1 < t0 + secs (st_challenge_seconds st)" "a < st_challenge_attempts st"
      "now < t0 + secs (st_challenge_seconds st)"
    and parse: "en_parse_uuid (em_ident em) (uuid_str i) = Some i"
    and addr: "em_email_str em email = Some to" "em_email_str em to = Some to"
    and subj: "validate_subject (em_subject em purpose) = Inr subject"
  shows "\<exists>cd p. derive_code (em_ident em) st row = Inr cd \<and>
    handler_prepare em rs st t1 db e = Inr (Inr p) \<and> pd_expires_at p = t0 + secs (st_challenge_seconds st) \<and>
    (\<exists>sb. pd_payload p = Email_Submission sb \<and> pd_fingerprint p = sb_fingerprint sb \<and>
       sb_requests sb = [\<lparr>er_key = request_key eid 0, er_body = request_body em rs
         \<lparr>oe_delivery_id = eid, oe_recipients = [to], oe_subject = em_subject em purpose,
          oe_text_body = challenge_text purpose cd, oe_html_body = None\<rparr> to\<rparr>]) \<and>
    fst (run_tx (consume_challenge (em_ident em) st now now2 fi i cd purpose cid) db w) =
      Inr (row\<lparr>ec_attempts := a + 1, ec_consumed_at := Some now2\<rparr>)"
proof -
  let ?en = "em_ident em"
  let ?c = "row\<lparr>ec_attempts := a\<rparr>"
  have r: "ec_id row = i" "ec_email row = email" "ec_purpose row = purpose_value purpose" "ec_consumed_at row = None"
    "ec_expires_at row = t0 + secs (st_challenge_seconds st)" "st_challenge_keys st (ec_key_version row) \<noteq> None"
    using new by (auto simp: new_challenge_def Let_def result_simps derive_code_def key_bytes_def split: option.splits)
  have pp: "purpose_of (purpose_value purpose) = Inr purpose" by (cases purpose) (simp_all add: purpose_of_def purpose_value_def)
  have same: "?c = row\<lparr>ec_attempts := a, ec_consumed_at := None\<rparr>" using r(4) by (cases row) simp
  obtain cd where cd: "derive_code ?en st ?c = Inr cd" "code_digest ?en st ?c cd = Inr (ec_code_hash ?c)"
    using new_challenge_digest [OF new same] by blast
  have cd0: "derive_code ?en st row = Inr cd" using cd(1) by (simp add: derive_code_def)
  have len: "length cd = 6" using cd0 by (auto simp: derive_code_def result_simps intro: zero_pad_length)
  have body: "1 \<le> length (challenge_text purpose cd)" "length (challenge_text purpose cd) \<le> 131072"
    using len by (cases purpose; simp add: challenge_text_def purpose_value_def py_replace_def)+
  define m where "m = \<lparr>oe_delivery_id = eid, oe_recipients = [to], oe_subject = em_subject em purpose,
    oe_text_body = challenge_text purpose cd, oe_html_body = None\<rparr>"
  have m: "mk_outgoing_email em (m\<lparr>oe_recipients := [x]\<rparr>) = Inr m" if "em_email_str em x = Some to" for x
    using that subj body by (simp add: mk_outgoing_email_def validate_recipients_def m_def)
  have "build_email em st ?c eid = Inr m"
    using m [OF addr(1)] cd r pp by (simp add: build_email_def m_def)
  moreover have "\<exists>sb. prepare_email em rs m = Inr sb \<and>
      sb_requests sb = [\<lparr>er_key = request_key eid 0, er_body = request_body em rs m to\<rparr>]"
    using m [OF addr(2)] by (simp add: prepare_email_def m_def Let_def)
  moreover have "event_challenge ?en e = Some i" "ev_event_id e = eid"
    using challenge_event_id [OF ev parse] by simp_all
  ultimately obtain sb where sb: "handler_prepare em rs st t1 db e =
      Inr (Inr \<lparr>pd_payload = Email_Submission sb, pd_fingerprint = sb_fingerprint sb, pd_expires_at = ec_expires_at row\<rparr>)"
    "sb_requests sb = [\<lparr>er_key = request_key eid 0, er_body = request_body em rs m to\<rparr>]"
    using row r pp live(1) by (auto simp: handler_prepare_def)
  have "fst (run_tx (consume_challenge ?en st now now2 fi i cd purpose cid) db w) =
      Inr (?c\<lparr>ec_attempts := ec_attempts ?c + 1, ec_consumed_at := Some now2\<rparr>)"
    by (rule consume_challenge_run [OF row _ cd(2)]) (use r live in \<open>simp add: challenge_open_def\<close>)
  then show ?thesis using cd0 sb r(5) by (simp add: m_def)
qed

theorem emailed_code_accepted_witness:
  "\<exists>row e cd p. new_challenge (em_ident demo_email_env) demo_auth_settings 0 31 ''a@b.c'' Registration = Inr row \<and>
    challenge_event 7 31 0 = Inr e \<and>
    handler_prepare demo_email_env demo_resend demo_auth_settings 5 (empty_db\<lparr>id_challenges := [row]\<rparr>) e = Inr (Inr p) \<and>
    fst (run_tx (consume_challenge (em_ident demo_email_env) demo_auth_settings 9 9 demo_fresh 31 cd Registration None)
      (empty_db\<lparr>id_challenges := [row]\<rparr>) \<lparr>cw_up = True, cw_store = Map.empty\<rparr>) = Inr (row\<lparr>ec_attempts := 1, ec_consumed_at := Some 9\<rparr>)"
proof -
  let ?em = demo_email_env and ?st = demo_auth_settings and ?w = "\<lparr>cw_up = True, cw_store = Map.empty\<rparr> :: cache_world"
  obtain row where new: "new_challenge (em_ident ?em) ?st 0 31 ''a@b.c'' Registration = Inr row"
    by (simp add: new_challenge_def derive_code_def code_digest_def purpose_of_def purpose_value_def key_bytes_def
        demo_auth_settings_def Let_def)
  have "\<not> isl (challenge_event 7 31 0)" by code_simp
  then obtain e where ev: "challenge_event 7 31 0 = Inr e" by (cases "challenge_event 7 31 0") simp_all
  have r: "ec_id row = 31" "ec_attempts row = 0"
    using new by (auto simp: new_challenge_def Let_def result_simps)
  let ?db = "empty_db\<lparr>id_challenges := [row]\<rparr>"
  have row: "get_row ec_id (id_challenges ?db) 31 = Some (row\<lparr>ec_attempts := 0\<rparr>)"
    using r by (cases row) (simp add: get_row_def)
  have "\<exists>cd p. handler_prepare ?em demo_resend ?st 5 ?db e = Inr (Inr p) \<and>
      fst (run_tx (consume_challenge (em_ident ?em) ?st 9 9 demo_fresh 31 cd Registration None) ?db ?w) =
      Inr (row\<lparr>ec_attempts := 0 + 1, ec_consumed_at := Some 9\<rparr>)"
    using emailed_code_accepted [OF new ev row, of 5 9 "''a@b.c''" "''Code''" demo_resend 9 demo_fresh None ?w]
    by (auto simp: demo_auth_settings_def demo_email_env_def validate_subject_def py_strip_def py_isspace_def secs_def)
  with new ev show ?thesis by auto
qed

end
