(* ===== verification/Delivery_Workers.thy ===== *)
theory Delivery_Workers
  imports Email_Delivery
begin

text \<open>
  The worker that delivers leased messages (\<open>outbox/leased_worker.py\<close>) and the privileged recovery
  operations (\<open>outbox/operations.py\<close>), over the tables the identity domain and the outbox share.

  \<open>process_one\<close> is a sequence of transactions with the work of the handler between them; no transaction
  spans the provider call. It is modelled by the phases it goes through: \<open>worker_step\<close> runs the
  statements of one phase up to the next commit or provider call, so that steps of several workers and of
  other processes interleave exactly where the code lets them. A timeout around preparation or delivery is
  the handler raising \<open>TimeoutError\<close>. \<open>exec_delivery\<close> is such a system of workers with a common clock.
\<close>

section \<open>The shared database\<close>

record delivery_db =
  dd_identity :: identity_db
  dd_controls :: "worker_control list"

definition outbox_view :: "delivery_db \<Rightarrow> outbox_db" where
  "outbox_view d = \<lparr>ob_messages = id_outbox (dd_identity d), ob_controls = dd_controls d\<rparr>"

definition put_outbox :: "outbox_db \<Rightarrow> delivery_db \<Rightarrow> delivery_db" where
  "put_outbox ob d = d\<lparr>dd_identity := (dd_identity d)\<lparr>id_outbox := ob_messages ob\<rparr>, dd_controls := ob_controls ob\<rparr>"

text \<open>An \<open>ExternalOutboxHandler\<close>: \<open>prepare\<close> reads the database, \<open>deliver\<close> the world outside.\<close>

record ('p, 'w) external_handler =
  eh_prepare :: "instant \<Rightarrow> identity_db \<Rightarrow> domain_event \<Rightarrow> exn + (delivery_outcome + 'p prepared_delivery)"
  eh_deliver :: "'p prepared_delivery \<Rightarrow> (string \<rightharpoonup> string) \<Rightarrow> 'w \<Rightarrow> (exn + delivery_outcome) \<times> 'w"

record ('p, 'w) leased_worker =
  lw_handlers :: "(string \<times> ('p, 'w) external_handler) list"
  lw_settings :: outbox_settings
  lw_group :: string

definition mk_leased_worker ::
  "(string \<times> ('p, 'w) external_handler) list \<Rightarrow> outbox_settings \<Rightarrow> string \<Rightarrow> exn + ('p, 'w) leased_worker" where
  "mk_leased_worker hs s grp = (if hs = [] then Inl (ValueError ''register at least one external handler'')
     else Inr \<lparr>lw_handlers = hs, lw_settings = s, lw_group = grp\<rparr>)"

section \<open>Recovery operations\<close>

definition max_replay_attempts :: int where "max_replay_attempts = 100"

datatype recovery_reason = Configuration_Fixed | Transient_Resolved

definition reason_value :: "recovery_reason \<Rightarrow> string" where
  "reason_value r = (case r of Configuration_Fixed \<Rightarrow> ''configuration_fixed'' | Transient_Resolved \<Rightarrow> ''transient_resolved'')"

definition system_actor :: audit_actor where
  "system_actor = \<lparr>aa_kind = System_Actor, aa_actor_id = None\<rparr>"

definition replay_requested :: "uuid \<Rightarrow> string \<Rightarrow> recovery_reason \<Rightarrow> audit_event" where
  "replay_requested target cid reason = \<lparr>ae_actor = system_actor, ae_action = ''outbox.replay_requested'',
     ae_target_type = ''outbox_message'', ae_target_id = target, ae_outcome = Audit_Succeeded,
     ae_metadata = [(''reason'', VStr (reason_value reason))], ae_allowed_keys = [''reason''], ae_correlation_id = cid\<rparr>"

definition worker_resumed :: "uuid \<Rightarrow> string \<Rightarrow> audit_event" where
  "worker_resumed target cid = \<lparr>ae_actor = system_actor, ae_action = ''outbox.worker_resumed'',
     ae_target_type = ''worker_operation'', ae_target_id = target, ae_outcome = Audit_Succeeded,
     ae_metadata = [], ae_allowed_keys = [], ae_correlation_id = cid\<rparr>"

definition stage_audit :: "ident_env \<Rightarrow> instant \<Rightarrow> uuid \<Rightarrow> audit_event \<Rightarrow> delivery_db \<Rightarrow> exn + delivery_db" where
  "stage_audit en now new_id e d =
     bind_r (record_event (en_case en) (en_float en) now new_id e) (\<lambda>r.
     Inr (d\<lparr>dd_identity := (dd_identity d)\<lparr>id_audit := id_audit (dd_identity d) @ [r]\<rparr>\<rparr>))"

definition replay_row :: "instant \<Rightarrow> outbox_message \<Rightarrow> outbox_message" where
  "replay_row now m = m\<lparr>om_retry_budget := min max_replay_attempts (om_attempts m + 3), om_status := OPending,
     om_available_at := now, om_claim_token := None, om_lease_expires_at := None\<rparr>"

text \<open>The checks against what the handler prepared, and the changes: \<open>replay\<close> after the call of \<open>prepare\<close>.\<close>

definition requeue ::
  "ident_env \<Rightarrow> instant \<Rightarrow> uuid \<Rightarrow> uuid \<Rightarrow> outbox_message \<Rightarrow> recovery_reason \<Rightarrow>
   delivery_outcome + 'p prepared_delivery \<Rightarrow> delivery_db \<Rightarrow> exn + delivery_db" where
  "requeue en now audit_id correlation_id m reason prepared d = (case prepared of
     Inl _ \<Rightarrow> Inl (ValueError ''domain no longer permits delivery'')
   | Inr p \<Rightarrow>
       if pd_expires_at p \<le> now then Inl (ValueError ''domain no longer permits delivery'')
       else if om_delivery_fingerprint m \<noteq> None \<and> om_delivery_fingerprint m \<noteq> Some (pd_fingerprint p)
       then Inl (ValueError ''restore original delivery content before replay'')
       else stage_audit en now audit_id (replay_requested (om_id m) (uuid_str correlation_id) reason)
         (d\<lparr>dd_identity := (dd_identity d)\<lparr>id_outbox :=
             update_ids om_id [om_id m] (replay_row now) (id_outbox (dd_identity d))\<rparr>\<rparr>))"

definition replay ::
  "ident_env \<Rightarrow> instant \<Rightarrow> uuid \<Rightarrow> uuid \<Rightarrow> uuid \<Rightarrow> recovery_reason \<Rightarrow> (string \<times> ('p, 'w) external_handler) list \<Rightarrow>
   delivery_db \<Rightarrow> exn + delivery_db" where
  "replay en now audit_id correlation_id mid reason hs d =
     (let ineligible = Inl (ValueError ''message is not eligible for replay'') in
      case get_row om_id (id_outbox (dd_identity d)) mid of
        None \<Rightarrow> ineligible
      | Some m \<Rightarrow> (case map_of hs (om_event_type m) of
          None \<Rightarrow> ineligible
        | Some h \<Rightarrow>
            if om_status m \<noteq> ODead \<and> om_status m \<noteq> OBlocked then ineligible
            else if (case om_deadline_at m of None \<Rightarrow> True | Some x \<Rightarrow> x \<le> now) \<or> max_replay_attempts \<le> om_attempts m
            then Inl (ValueError ''delivery window or lifetime attempt budget exhausted'')
            else bind_r (to_event m) (\<lambda>e.
              bind_r (eh_prepare h now (dd_identity d) e) (\<lambda>prepared.
              requeue en now audit_id correlation_id m reason prepared d))))"

definition resume ::
  "ident_env \<Rightarrow> instant \<Rightarrow> uuid \<Rightarrow> uuid \<Rightarrow> uuid \<Rightarrow> string \<Rightarrow> delivery_db \<Rightarrow> exn + delivery_db" where
  "resume en now audit_id target correlation_id grp d = (case get_row wc_worker_group (dd_controls d) grp of
     None \<Rightarrow> Inl (ValueError ''worker group is not paused'')
   | Some c \<Rightarrow>
       if \<not> wc_paused c then Inl (ValueError ''worker group is not paused'')
       else stage_audit en now audit_id (worker_resumed target (uuid_str correlation_id))
         (d\<lparr>dd_controls := update_ids wc_worker_group [grp] (\<lambda>c. c\<lparr>wc_paused := False\<rparr>) (dd_controls d)\<rparr>))"

record health_report =
  hr_healthy :: bool
  hr_paused :: "bool option"
  hr_oldest_due_seconds :: int
  hr_expired_claims :: int
  hr_counts :: "(outbox_status \<times> int) list"

definition health :: "instant \<Rightarrow> string \<Rightarrow> string list \<Rightarrow> delivery_db \<Rightarrow> health_report" where
  "health now grp types d =
     (let rows = filter (\<lambda>m. om_event_type m \<in> set types) (id_outbox (dd_identity d));
          control = get_row wc_worker_group (dd_controls d) grp;
          due = filter (\<lambda>m. (om_status m = OPending \<or> om_status m = OFailed) \<and> om_available_at m \<le> now) rows;
          stale = int (count_where (lease_over now) rows);
          age = (if due = [] then 0 else (now - Min (set (map om_available_at due))) div 1000000)
      in \<lparr>hr_healthy = (case control of None \<Rightarrow> False
              | Some c \<Rightarrow> \<not> wc_paused c \<and> now - secs 180 < wc_heartbeat_at c \<and> age < 60 \<and> stale = 0),
          hr_paused = map_option wc_paused control, hr_oldest_due_seconds = age, hr_expired_claims = stale,
          hr_counts = map (\<lambda>st. (st, int (count_where (\<lambda>m. om_status m = st) rows))) (remdups (map om_status rows))\<rparr>)"

section \<open>The leased worker\<close>

datatype 'p phase =
    Idle
  | Claimed delivery_claim domain_event
  | Prepared delivery_claim "'p prepared_delivery"
  | Sending delivery_claim "'p prepared_delivery"
  | Settling delivery_claim delivery_outcome
  | Returned bool
  | Raised exn

text \<open>What a step reads: the rows others have locked, \<open>uuid4\<close>, the two clock readings, the jitter.\<close>

record step_input =
  si_locked :: "uuid \<Rightarrow> bool"
  si_token :: uuid
  si_t :: instant
  si_now :: instant
  si_rnd :: "int \<Rightarrow> duration"

definition settle_with :: "delivery_claim \<Rightarrow> exn + delivery_outcome \<Rightarrow> 'p phase" where
  "settle_with c r = (case r of Inl e \<Rightarrow> Raised e | Inr x \<Rightarrow> Settling c x)"

definition claim_step :: "('p, 'w) leased_worker \<Rightarrow> step_input \<Rightarrow> delivery_db \<Rightarrow> 'p phase \<times> delivery_db" where
  "claim_step lw i d =
     (case leased_claim (si_locked i) (si_now i) (si_token i) (lw_group lw) (map fst (lw_handlers lw)) (lw_settings lw) (outbox_view d) of
        Inl e \<Rightarrow> (Raised e, d)
      | Inr (None, ob) \<Rightarrow> (Returned False, put_outbox ob d)
      | Inr (Some c, ob) \<Rightarrow>
          (case cl_event c of
             None \<Rightarrow> settle_with c (mk_delivery_outcome Permanent ''invalid_event'' 0 Map.empty)
           | Some e \<Rightarrow> Claimed c e, put_outbox ob d))"

text \<open>Preparation runs in a unit of work that is not committed: it changes nothing.\<close>

definition prepare_step :: "('p, 'w) leased_worker \<Rightarrow> step_input \<Rightarrow> delivery_claim \<Rightarrow> domain_event \<Rightarrow> delivery_db \<Rightarrow> 'p phase" where
  "prepare_step lw i c e d = (case map_of (lw_handlers lw) (ev_event_type e) of
     None \<Rightarrow> Raised (KeyError (ev_event_type e))
   | Some h \<Rightarrow> (case eh_prepare h (si_now i) (dd_identity d) e of
       Inl TimeoutError \<Rightarrow> settle_with c (mk_delivery_outcome Retry ''preparation_timeout'' 0 Map.empty)
     | Inl x \<Rightarrow> Raised x
     | Inr (Inl out) \<Rightarrow> Settling c out
     | Inr (Inr p) \<Rightarrow> Prepared c p))"

definition bind_step ::
  "('p, 'w) leased_worker \<Rightarrow> step_input \<Rightarrow> delivery_claim \<Rightarrow> 'p prepared_delivery \<Rightarrow> delivery_db \<Rightarrow> 'p phase \<times> delivery_db" where
  "bind_step lw i c p d =
     (case bind (si_t i) (si_now i) (lw_group lw) c (pd_fingerprint p) (pd_expires_at p) (outbox_view d) of
        Inl e \<Rightarrow> (Raised e, d)
      | Inr (allowed, ob) \<Rightarrow>
          (if \<not> allowed then Returned True
           else if min (pd_expires_at p) (cl_deadline c) \<le> si_now i
             then settle_with c (mk_delivery_outcome Skipped ''no_longer_eligible'' 0 Map.empty)
           else Sending c p, put_outbox ob d))"

definition send_step ::
  "('p, 'w) leased_worker \<Rightarrow> delivery_claim \<Rightarrow> 'p prepared_delivery \<Rightarrow> 'w \<Rightarrow> 'p phase \<times> 'w" where
  "send_step lw c p w = (case cl_event c of
     None \<Rightarrow> (Raised (KeyError []), w)
   | Some e \<Rightarrow> (case map_of (lw_handlers lw) (ev_event_type e) of
       None \<Rightarrow> (Raised (KeyError (ev_event_type e)), w)
     | Some h \<Rightarrow> (case eh_deliver h p (cl_receipts c) w of (r, w') \<Rightarrow>
         (case r of
            Inr out \<Rightarrow> Settling c out
          | Inl TimeoutError \<Rightarrow> settle_with c (mk_delivery_outcome Uncertain ''submission_timeout'' 0 Map.empty)
          | Inl _ \<Rightarrow> settle_with c (mk_delivery_outcome Blocked ''handler_failure'' 0 Map.empty), w'))))"

definition finalize ::
  "('p, 'w) leased_worker \<Rightarrow> step_input \<Rightarrow> delivery_claim \<Rightarrow> delivery_outcome \<Rightarrow> delivery_db \<Rightarrow> exn + (bool \<times> delivery_db)" where
  "finalize lw i c out d =
     bind_r (next_delay (si_rnd i) (cl_attempts c) out (lw_settings lw)) (\<lambda>delay.
     let (changed, ob) = finish (si_t i) (si_now i) (lw_group lw) c out delay (outbox_view d)
     in Inr (changed, put_outbox ob d))"

definition worker_step ::
  "('p, 'w) leased_worker \<Rightarrow> step_input \<Rightarrow> 'p phase \<Rightarrow> delivery_db \<Rightarrow> 'w \<Rightarrow> 'p phase \<times> delivery_db \<times> 'w" where
  "worker_step lw i ph d w = (case ph of
     Idle \<Rightarrow> (case claim_step lw i d of (ph', d') \<Rightarrow> (ph', d', w))
   | Claimed c e \<Rightarrow> (prepare_step lw i c e d, d, w)
   | Prepared c p \<Rightarrow> (case bind_step lw i c p d of (ph', d') \<Rightarrow> (ph', d', w))
   | Sending c p \<Rightarrow> (case send_step lw c p w of (ph', w') \<Rightarrow> (ph', d, w'))
   | Settling c out \<Rightarrow> (case finalize lw i c out d of Inl e \<Rightarrow> (Raised e, d, w) | Inr (changed, d') \<Rightarrow> (Returned True, d', w))
   | _ \<Rightarrow> (ph, d, w))"

text \<open>
  \<open>process_one\<close> with nobody else acting between its transactions: five phases at most. The last clause
  is the exception that left the loop, or the result.
\<close>

fun run_phases :: "('p, 'w) leased_worker \<Rightarrow> step_input list \<Rightarrow> 'p phase \<Rightarrow> delivery_db \<Rightarrow> 'w \<Rightarrow> 'p phase \<times> delivery_db \<times> 'w" where
  "run_phases lw [] ph d w = (ph, d, w)"
| "run_phases lw (i # is) ph d w = (case worker_step lw i ph d w of (ph', d', w') \<Rightarrow> run_phases lw is ph' d' w')"

section \<open>A system of workers\<close>

text \<open>
  Several workers share the database, the clock and the world outside. With the phase of a worker goes the
  time at which it began the claim it holds, and \<open>ds_tokens\<close> has every token drawn so far; both are ghosts. Besides the
  steps of workers, time passes, messages are published, operators replay messages and resume groups.
  The clock advances only while every worker that holds a claim stays within \<open>work_budget\<close>: the
  two timeouts of the settings and the 30 seconds the settings reserve for the transactions around them.
\<close>

record ('p, 'w) delivery_system =
  ds_clock :: instant
  ds_db :: delivery_db
  ds_world :: 'w
  ds_workers :: "('p phase \<times> instant) list"
  ds_tokens :: "uuid list"

definition holding :: "'p phase \<Rightarrow> delivery_claim option" where
  "holding ph = (case ph of Claimed c e \<Rightarrow> Some c | Prepared c p \<Rightarrow> Some c | Sending c p \<Rightarrow> Some c
     | Settling c r \<Rightarrow> Some c | _ \<Rightarrow> None)"

definition is_holding :: "'p phase \<Rightarrow> bool" where
  "is_holding ph = (case holding ph of None \<Rightarrow> False | Some c \<Rightarrow> True)"

definition is_idle :: "'p phase \<Rightarrow> bool" where
  "is_idle ph = (case ph of Idle \<Rightarrow> True | _ \<Rightarrow> False)"

definition has_ended :: "'p phase \<Rightarrow> bool" where
  "has_ended ph = (case ph of Returned b \<Rightarrow> True | Raised e \<Rightarrow> True | _ \<Rightarrow> False)"

definition before_send :: "'p phase \<Rightarrow> bool" where
  "before_send ph = (case ph of Claimed c e \<Rightarrow> True | Prepared c p \<Rightarrow> True | Sending c p \<Rightarrow> True | _ \<Rightarrow> False)"

definition work_budget :: "('p, 'w) leased_worker \<Rightarrow> duration" where
  "work_budget lw = secs (ws_prepare_seconds (lw_settings lw) + ws_send_seconds (lw_settings lw) + 30)"

datatype delivery_op =
    Tick instant
  | Work nat step_input
  | Restart nat
  | Publish domain_event uuid
  | Replay uuid uuid uuid recovery_reason
  | Resume uuid uuid uuid

text \<open>A ghost event: a call of the provider for a message, under a token.\<close>

datatype delivery_event = Submitted uuid uuid

definition put_db :: "delivery_db \<Rightarrow> ('p, 'w) delivery_system \<Rightarrow> ('p, 'w) delivery_system" where
  "put_db d s = s\<lparr>ds_db := d\<rparr>"

fun exec_delivery ::
  "ident_env \<Rightarrow> ('p, 'w) leased_worker \<Rightarrow> delivery_op \<Rightarrow> ('p, 'w) delivery_system \<Rightarrow>
   exn + (delivery_event list \<times> ('p, 'w) delivery_system)" where
  "exec_delivery en lw (Tick t) s =
     (if ds_clock s \<le> t \<and> list_all (\<lambda>(ph, since). \<not> is_holding ph \<or> t \<le> since + work_budget lw) (ds_workers s)
      then Inr ([], s\<lparr>ds_clock := t\<rparr>) else Inl (RuntimeError ''out of time''))"
| "exec_delivery en lw (Work i inp) s =
     (if length (ds_workers s) \<le> i \<or> si_t inp \<noteq> ds_clock s \<or> si_now inp \<noteq> ds_clock s \<or> si_token inp \<in> set (ds_tokens s)
      then Inl (RuntimeError ''no such input'')
      else (case ds_workers s ! i of (ph, since) \<Rightarrow>
        case worker_step lw inp ph (ds_db s) (ds_world s) of (ph', d, w) \<Rightarrow>
          Inr (case ph of Sending c p \<Rightarrow> [Submitted (cl_message_id c) (cl_token c)] | _ \<Rightarrow> [],
            s\<lparr>ds_db := d, ds_world := w,
              ds_workers := (ds_workers s)[i := (ph', if is_idle ph then ds_clock s else since)],
              ds_tokens := (if is_idle ph then si_token inp # ds_tokens s else ds_tokens s)\<rparr>)))"
| "exec_delivery en lw (Restart i) s =
     (if length (ds_workers s) \<le> i \<or> \<not> has_ended (fst (ds_workers s ! i)) then Inl (RuntimeError ''still running'')
      else Inr ([], s\<lparr>ds_workers := (ds_workers s)[i := (Idle, ds_clock s)]\<rparr>))"
| "exec_delivery en lw (Publish e mid) s =
     bind_r (add e VNone None mid) (\<lambda>m.
     bind_r (flush_message m (id_outbox (dd_identity (ds_db s)))) (\<lambda>msgs.
     Inr ([], put_db ((ds_db s)\<lparr>dd_identity := (dd_identity (ds_db s))\<lparr>id_outbox := msgs\<rparr>\<rparr>) s)))"
| "exec_delivery en lw (Replay audit_id cid mid reason) s =
     bind_r (replay en (ds_clock s) audit_id cid mid reason (lw_handlers lw) (ds_db s)) (\<lambda>d. Inr ([], put_db d s))"
| "exec_delivery en lw (Resume audit_id target cid) s =
     bind_r (resume en (ds_clock s) audit_id target cid (lw_group lw) (ds_db s)) (\<lambda>d. Inr ([], put_db d s))"

section \<open>Facts\<close>

abbreviation messages :: "delivery_db \<Rightarrow> outbox_message list" where
  "messages d \<equiv> id_outbox (dd_identity d)"

lemma outbox_view_simps [simp]: "ob_messages (outbox_view d) = messages d" "ob_controls (outbox_view d) = dd_controls d"
  "messages (put_outbox ob d) = ob_messages ob"
  by (simp_all add: outbox_view_def put_outbox_def)

text \<open>What every table of messages satisfies here.\<close>

definition messages_ok :: "outbox_message list \<Rightarrow> bool" where
  "messages_ok tbl \<longleftrightarrow> unique_key om_id tbl \<and> (\<forall>m \<in> set tbl. 0 \<le> om_attempts m)"

lemma ball_update_ids:
  "\<forall>m \<in> set tbl. Q m \<Longrightarrow> (\<And>m. Q m \<Longrightarrow> Q (f m)) \<Longrightarrow> \<forall>m \<in> set (update_ids k ks f tbl). Q m"
  by (auto simp: update_ids_def update_where_def)

lemma messages_ok_update:
  "messages_ok tbl \<Longrightarrow> (\<And>m. om_id (f m) = om_id m) \<Longrightarrow> (\<And>m. om_attempts m \<le> om_attempts (f m)) \<Longrightarrow>
    messages_ok (update_ids om_id ks f tbl)"
  unfolding messages_ok_def
  by (intro conjI ball_update_ids) (auto simp: unique_key_update_ids intro: order_trans)

lemma attempts_frame [simp]:
  "om_attempts (expire_row m) = om_attempts m" "om_attempts (too_old_row x m) = om_attempts m"
  "om_attempts (lease_row n k s m) = om_attempts m + 1" "om_attempts (blocked_row m) = om_attempts m"
  "om_attempts (late_row x m) = om_attempts m" "om_attempts (finish_row a t m) = om_attempts m"
  "om_attempts (replay_row n m) = om_attempts m" "om_id (replay_row n m) = om_id m"
  by (auto simp: leased_row_defs replay_row_def split: prod.splits)

lemma messages_ok_claim:
  assumes "leased_claim locked now token g types s db = Inr (c, db')" "messages_ok (ob_messages db)"
  shows "messages_ok (ob_messages db')"
  using assms(1)
  by (rule leased_claim_cases)
    (use assms(2) in \<open>auto simp: expire_rows_def Let_def intro!: messages_ok_update\<close>)

lemma messages_ok_bind:
  "bind t now g c fp ex db = Inr (ok, db') \<Longrightarrow> messages_ok (ob_messages db) \<Longrightarrow> messages_ok (ob_messages db')"
  by (auto simp: bind_def Let_def intro!: messages_ok_update split: if_splits option.splits)

lemma messages_ok_finish:
  "finish t now g c r x db = (b, db') \<Longrightarrow> messages_ok (ob_messages db) \<Longrightarrow> messages_ok (ob_messages db')"
  by (auto simp: finish_def finish_rows_def Let_def intro!: messages_ok_update split: option.splits)

text \<open>A row under the lease of a claim that began at \<open>since\<close>.\<close>

definition leased_until :: "('p, 'w) leased_worker \<Rightarrow> delivery_claim \<Rightarrow> instant \<Rightarrow> outbox_message \<Rightarrow> bool" where
  "leased_until lw c since m \<longleftrightarrow> om_status m = OProcessing \<and> om_claim_token m = Some (cl_token c) \<and>
     om_lease_expires_at m = Some (since + secs (ws_lease_seconds (lw_settings lw)))"

definition row_held :: "('p, 'w) leased_worker \<Rightarrow> 'p phase \<Rightarrow> delivery_claim \<Rightarrow> instant \<Rightarrow> outbox_message list \<Rightarrow> bool" where
  "row_held lw ph c since tbl \<longleftrightarrow> (\<exists>m. get_row om_id tbl (cl_message_id c) = Some m \<and> leased_until lw c since m \<and>
     (\<forall>p. ph = Sending c p \<longrightarrow> om_delivery_fingerprint m = Some (pd_fingerprint p)))"

lemma leased_until_owns:
  assumes "validate_settings (lw_settings lw) = Inr x" "t \<le> since + work_budget lw" "leased_until lw c since m"
  shows "owns (cl_token c) t m"
proof -
  have "ws_prepare_seconds (lw_settings lw) + ws_send_seconds (lw_settings lw) + 30 < ws_lease_seconds (lw_settings lw)"
    using assms(1) by (auto simp: validate_settings_def result_simps split: if_splits)
  then have "work_budget lw < secs (ws_lease_seconds (lw_settings lw))" by (simp add: work_budget_def)
  with assms(2,3) show ?thesis by (auto simp: owns_def leased_until_def)
qed

text \<open>One step: the table stays well formed, and leases of others are untouched.\<close>

lemma holding_Idle [simp]: "holding Idle = None"
  by (simp add: holding_def)

lemma settle_with_holding: "holding (settle_with c r) = Some c' \<Longrightarrow> c' = c"
  by (auto simp: settle_with_def holding_def split: sum.splits)

lemma settle_with_not_sending [simp]: "settle_with c r \<noteq> Sending c' p" "\<not> before_send (settle_with c r)"
  by (auto simp: settle_with_def before_send_def split: sum.splits)

lemma finalize_Inr:
  "finalize lw i c out d = Inr (b, d') \<longleftrightarrow> (\<exists>delay ob. next_delay (si_rnd i) (cl_attempts c) out (lw_settings lw) = Inr delay \<and>
     finish (si_t i) (si_now i) (lw_group lw) c out delay (outbox_view d) = (b, ob) \<and> d' = put_outbox ob d)"
  by (cases "next_delay (si_rnd i) (cl_attempts c) out (lw_settings lw)")
    (auto simp: finalize_def case_prod_unfold prod_eq_iff Let_def)

lemma worker_step_ok:
  assumes st: "worker_step lw inp ph d w = (ph', d', w')" and ok: "messages_ok (messages d)"
  shows "messages_ok (messages d')"
proof -
  have ok': "messages_ok (ob_messages (outbox_view d))" using ok by simp
  show ?thesis
    using st ok
    by (auto simp: worker_step_def claim_step_def bind_step_def send_step_def finalize_Inr
        dest: messages_ok_claim [OF _ ok'] messages_ok_bind [OF _ ok'] messages_ok_finish [OF _ ok']
        split: phase.splits sum.splits prod.splits option.splits if_splits)
qed

lemma worker_step_frame:
  assumes st: "worker_step lw inp ph d w = (ph', d', w')" and ok: "messages_ok (messages d)"
    and m: "get_row om_id (messages d) i = Some m" "owns k (si_now inp) m"
    and other: "\<And>c. holding ph = Some c \<Longrightarrow> cl_message_id c \<noteq> i"
  shows "get_row om_id (messages d') i = Some m"
proof -
  have u: "unique_key om_id (ob_messages (outbox_view d))" using ok by (simp add: messages_ok_def)
  have m': "get_row om_id (ob_messages (outbox_view d)) i = Some m" using m(1) by simp
  show ?thesis
  proof (cases ph)
    case Idle
    with st m show ?thesis
      by (auto simp: worker_step_def claim_step_def dest: live_lease_claim [OF u m' m(2)]
          split: sum.splits prod.splits option.splits)
  next
    case (Prepared c p)
    have bnd: "get_row om_id (ob_messages ob) i = Some m"
      if "bind (si_t inp) (si_now inp) (lw_group lw) c (pd_fingerprint p) (pd_expires_at p) (outbox_view d) = Inr (x, ob)" for x ob
      using bind_rows [OF u that] m' other [of c] Prepared by (simp add: holding_def)
    with st m Prepared show ?thesis
      by (auto simp: worker_step_def bind_step_def split: sum.splits prod.splits if_splits)
  next
    case (Settling c r)
    have fin: "get_row om_id (ob_messages ob) i = Some m"
      if "finish (si_t inp) (si_now inp) (lw_group lw) c r x (outbox_view d) = (b, ob)" for x b ob
      using finish_rows_frame [OF u that] m' other [of c] Settling by (simp add: holding_def)
    with st m Settling show ?thesis
      by (auto simp: worker_step_def finalize_Inr split: sum.splits prod.splits)
  qed (use st m in \<open>auto simp: worker_step_def split: prod.splits\<close>)
qed

text \<open>The claim a worker goes on with is its own, or the one it has just taken.\<close>

lemma worker_step_own:
  assumes st: "worker_step lw inp ph d w = (ph', d', w')" and ok: "messages_ok (messages d)"
    and h: "holding ph' = Some c"
    and own: "\<And>c. holding ph = Some c \<Longrightarrow> row_held lw ph c since (messages d) \<and> 1 \<le> cl_attempts c"
  shows "row_held lw ph' c (if is_idle ph then si_now inp else since) (messages d') \<and> 1 \<le> cl_attempts c \<and>
    (if is_idle ph then cl_token c = si_token inp
     else holding ph = Some c \<and> (before_send ph' \<longrightarrow> before_send ph \<and> (\<forall>c p. ph \<noteq> Sending c p)))"
proof (cases ph)
  case Idle
  have u: "unique_key om_id (ob_messages (outbox_view d))" using ok by (simp add: messages_ok_def)
  from st h Idle obtain ob where cl: "leased_claim (si_locked inp) (si_now inp) (si_token inp) (lw_group lw)
      (map fst (lw_handlers lw)) (lw_settings lw) (outbox_view d) = Inr (Some c, ob)"
    and d': "messages d' = ob_messages ob" "\<And>c p. ph' \<noteq> Sending c p"
    by (auto simp: worker_step_def claim_step_def holding_def settle_with_def split: sum.splits prod.splits option.splits)
  from leased_claim_row [OF u cl] obtain m where
    "get_row om_id (ob_messages ob) (cl_message_id c) = Some (lease_row (si_now inp) (si_token inp) (lw_settings lw) m)"
    "cl_token c = si_token inp" "cl_attempts c = om_attempts m + 1" "m \<in> set (messages d)" by auto
  with ok d' Idle show ?thesis
    by (auto simp: row_held_def leased_until_def lease_row_def is_idle_def messages_ok_def)
next
  case (Claimed c1 e)
  with st h own [of c1] show ?thesis
    by (auto simp: worker_step_def prepare_step_def holding_def settle_with_def row_held_def is_idle_def before_send_def
        split: sum.splits option.splits exn.splits)
next
  case (Prepared c1 p)
  have u: "unique_key om_id (ob_messages (outbox_view d))" using ok by (simp add: messages_ok_def)
  from st h Prepared obtain ob where b: "bind (si_t inp) (si_now inp) (lw_group lw) c1 (pd_fingerprint p) (pd_expires_at p) (outbox_view d) = Inr (True, ob)"
    and ph': "messages d' = ob_messages ob" "c = c1" "ph' = Sending c1 p \<or> (\<exists>r. ph' = Settling c1 r)"
    by (auto simp: worker_step_def bind_step_def holding_def settle_with_def split: sum.splits prod.splits if_splits)
  from bind_rows [OF u b] own [of c1] Prepared ph' show ?thesis
    by (auto simp: row_held_def leased_until_def holding_def is_idle_def before_send_def)
next
  case (Sending c1 p)
  with st h own [of c1] show ?thesis
    by (auto simp: worker_step_def send_step_def holding_def settle_with_def row_held_def is_idle_def before_send_def
        split: sum.splits option.splits exn.splits prod.splits)
next
  case (Settling c1 r)
  with st h show ?thesis
    by (auto simp: worker_step_def holding_def split: sum.splits prod.splits)
qed (use st h in \<open>auto simp: worker_step_def holding_def\<close>)


text \<open>The invariant of the system.\<close>

definition event_tokens :: "delivery_event list \<Rightarrow> uuid list" where
  "event_tokens es = map (\<lambda>e. case e of Submitted mid k \<Rightarrow> k) es"

definition worker_ok ::
  "('p, 'w) leased_worker \<Rightarrow> instant \<Rightarrow> outbox_message list \<Rightarrow> uuid set \<Rightarrow> uuid set \<Rightarrow> 'p phase \<times> instant \<Rightarrow> bool" where
  "worker_ok lw clock tbl tokens sent x \<longleftrightarrow> (\<forall>c. holding (fst x) = Some c \<longrightarrow>
     row_held lw (fst x) c (snd x) tbl \<and> 1 \<le> cl_attempts c \<and> clock \<le> snd x + work_budget lw \<and> cl_token c \<in> tokens \<and>
     (before_send (fst x) \<longrightarrow> cl_token c \<notin> sent))"

definition tokens_apart :: "('p phase \<times> instant) list \<Rightarrow> bool" where
  "tokens_apart ws \<longleftrightarrow> (\<forall>i j c c'. i < length ws \<and> j < length ws \<and> i \<noteq> j \<and> holding (fst (ws ! i)) = Some c \<and>
     holding (fst (ws ! j)) = Some c' \<longrightarrow> cl_token c \<noteq> cl_token c')"

lemma tokens_apartD:
  "tokens_apart ws \<Longrightarrow> i < length ws \<Longrightarrow> j < length ws \<Longrightarrow> i \<noteq> j \<Longrightarrow> holding (fst (ws ! i)) = Some c \<Longrightarrow>
    holding (fst (ws ! j)) = Some c' \<Longrightarrow> cl_token c \<noteq> cl_token c'"
  unfolding tokens_apart_def by blast

definition delivery_inv :: "('p, 'w) leased_worker \<Rightarrow> ('p, 'w) delivery_system \<Rightarrow> delivery_event list \<Rightarrow> bool" where
  "delivery_inv lw s es \<longleftrightarrow> messages_ok (messages (ds_db s)) \<and> tokens_apart (ds_workers s) \<and>
     (\<forall>x \<in> set (ds_workers s). worker_ok lw (ds_clock s) (messages (ds_db s)) (set (ds_tokens s)) (set (event_tokens es)) x) \<and>
     distinct (event_tokens es) \<and> set (event_tokens es) \<subseteq> set (ds_tokens s)"

text \<open>Two workers never hold the same message: its row names the token of only one.\<close>

lemma held_apart:
  assumes "tokens_apart ws" "\<forall>x \<in> set ws. worker_ok lw clock tbl tk sent x"
    "i < length ws" "j < length ws" "holding (fst (ws ! i)) = Some c" "holding (fst (ws ! j)) = Some c'"
    "cl_message_id c = cl_message_id c'"
  shows "i = j"
proof (rule ccontr)
  assume "i \<noteq> j"
  then have "cl_token c \<noteq> cl_token c'" by (rule tokens_apartD [OF assms(1,3,4) _ assms(5,6)])
  moreover have "row_held lw (fst (ws ! i)) c (snd (ws ! i)) tbl" "row_held lw (fst (ws ! j)) c' (snd (ws ! j)) tbl"
    using assms by (auto simp: worker_ok_def)
  ultimately show False using assms(7) by (auto simp: row_held_def leased_until_def)
qed

text \<open>Changes of the table that keep the rows under live leases keep every worker.\<close>

lemma worker_ok_table:
  assumes "worker_ok lw clock tbl tk sent x"
    and "\<And>c m. holding (fst x) = Some c \<Longrightarrow> get_row om_id tbl (cl_message_id c) = Some m \<Longrightarrow> leased_until lw c (snd x) m \<Longrightarrow>
      get_row om_id tbl' (cl_message_id c) = Some m"
    and "tk \<subseteq> tk'" "\<And>c. holding (fst x) = Some c \<Longrightarrow> cl_token c \<in> sent' \<Longrightarrow> cl_token c \<in> sent"
  shows "worker_ok lw clock tbl' tk' sent' x"
  unfolding worker_ok_def
proof (intro allI impI)
  fix c assume h: "holding (fst x) = Some c"
  with assms(1) have "row_held lw (fst x) c (snd x) tbl" "1 \<le> cl_attempts c" "clock \<le> snd x + work_budget lw"
    "cl_token c \<in> tk" "before_send (fst x) \<longrightarrow> cl_token c \<notin> sent" by (auto simp: worker_ok_def)
  moreover from this(1) have "row_held lw (fst x) c (snd x) tbl'"
    using assms(2) [OF h] by (fastforce simp: row_held_def)
  ultimately show "row_held lw (fst x) c (snd x) tbl' \<and> 1 \<le> cl_attempts c \<and> clock \<le> snd x + work_budget lw \<and>
      cl_token c \<in> tk' \<and> (before_send (fst x) \<longrightarrow> cl_token c \<notin> sent')"
    using assms(3) assms(4) [OF h] by auto
qed


definition submits :: "'p phase \<Rightarrow> delivery_event list" where
  "submits ph = (case ph of Sending c p \<Rightarrow> [Submitted (cl_message_id c) (cl_token c)] | _ \<Rightarrow> [])"

lemma ball_list_update:
  "(\<And>j. j < length xs \<Longrightarrow> j \<noteq> i \<Longrightarrow> P (xs ! j)) \<Longrightarrow> P y \<Longrightarrow> \<forall>x \<in> set (xs[i := y]). P x"
proof
  fix x assume "x \<in> set (xs[i := y])" and P: "\<And>j. j < length xs \<Longrightarrow> j \<noteq> i \<Longrightarrow> P (xs ! j)" "P y"
  then obtain j where "j < length xs" "x = xs[i := y] ! j" by (auto simp: in_set_conv_nth)
  with P show "P x" by (cases "j = i") auto
qed

lemma in_submitted:
  "k \<in> set (event_tokens (es @ submits ph)) \<longleftrightarrow>
     k \<in> set (event_tokens es) \<or> (\<exists>c p. ph = Sending c p \<and> k = cl_token c)"
  by (auto simp: event_tokens_def submits_def split: phase.splits)

lemma delivery_invD:
  assumes "delivery_inv lw s es"
  shows "messages_ok (messages (ds_db s))" "tokens_apart (ds_workers s)"
    "\<forall>x \<in> set (ds_workers s). worker_ok lw (ds_clock s) (messages (ds_db s)) (set (ds_tokens s)) (set (event_tokens es)) x"
    "set (event_tokens es) \<subseteq> set (ds_tokens s)" "distinct (event_tokens es)"
  using assms by (simp_all add: delivery_inv_def)

text \<open>The claim worker \<open>i\<close> holds after its step.\<close>

lemma work_own:
  assumes inv: "delivery_inv lw s es" and i: "i < length (ds_workers s)" "ds_workers s ! i = (ph, since)"
    and t: "si_now inp = ds_clock s" and st: "worker_step lw inp ph (ds_db s) (ds_world s) = (ph', d, w)"
    and h: "holding ph' = Some c"
  shows "row_held lw ph' c (if is_idle ph then ds_clock s else since) (messages d) \<and> 1 \<le> cl_attempts c \<and>
    (if is_idle ph then cl_token c = si_token inp
     else holding ph = Some c \<and> (before_send ph' \<longrightarrow> before_send ph \<and> (\<forall>c p. ph \<noteq> Sending c p)))"
proof -
  have "worker_ok lw (ds_clock s) (messages (ds_db s)) (set (ds_tokens s)) (set (event_tokens es)) (ph, since)"
    using delivery_invD(3) [OF inv] i nth_mem by metis
  then show ?thesis
    using worker_step_own [OF st delivery_invD(1) [OF inv] h, of since] t unfolding worker_ok_def by auto
qed

lemma work_new:
  assumes v: "validate_settings (lw_settings lw) = Inr x0" and inv: "delivery_inv lw s es"
    and i: "i < length (ds_workers s)" "ds_workers s ! i = (ph, since)"
    and t: "si_now inp = ds_clock s" "si_token inp \<notin> set (ds_tokens s)"
    and st: "worker_step lw inp ph (ds_db s) (ds_world s) = (ph', d, w)"
  shows "worker_ok lw (ds_clock s) (messages d) (set (if is_idle ph then si_token inp # ds_tokens s else ds_tokens s))
      (set (event_tokens (es @ submits ph))) (ph', if is_idle ph then ds_clock s else since)"
  unfolding worker_ok_def fst_conv snd_conv
proof (intro allI impI)
  fix c assume h: "holding ph' = Some c"
  note o = work_own [OF inv i t(1) st h]
  have budget: "0 \<le> work_budget lw"
    using v by (auto simp: validate_settings_def result_simps work_budget_def secs_def split: if_splits)
  have wi: "worker_ok lw (ds_clock s) (messages (ds_db s)) (set (ds_tokens s)) (set (event_tokens es)) (ph, since)"
    using delivery_invD(3) [OF inv] i nth_mem by metis
  show "row_held lw ph' c (if is_idle ph then ds_clock s else since) (messages d) \<and> 1 \<le> cl_attempts c \<and>
      ds_clock s \<le> (if is_idle ph then ds_clock s else since) + work_budget lw \<and>
      cl_token c \<in> set (if is_idle ph then si_token inp # ds_tokens s else ds_tokens s) \<and>
      (before_send ph' \<longrightarrow> cl_token c \<notin> set (event_tokens (es @ submits ph)))"
  proof (cases "is_idle ph")
    case True
    then have "\<And>c p. ph \<noteq> Sending c p" by (auto simp: is_idle_def)
    then show ?thesis using True o budget delivery_invD(4) [OF inv] t(2) by (auto simp: in_submitted)
  next
    case False
    then show ?thesis using o wi by (auto simp: worker_ok_def in_submitted)
  qed
qed

lemma work_others:
  assumes v: "validate_settings (lw_settings lw) = Inr x0" and inv: "delivery_inv lw s es"
    and i: "i < length (ds_workers s)" "ds_workers s ! i = (ph, since)"
    and t: "si_now inp = ds_clock s" and st: "worker_step lw inp ph (ds_db s) (ds_world s) = (ph', d, w)"
    and j: "j < length (ds_workers s)" "j \<noteq> i" and tk: "set (ds_tokens s) \<subseteq> tk"
  shows "worker_ok lw (ds_clock s) (messages d) tk (set (event_tokens (es @ submits ph))) (ds_workers s ! j)"
proof (rule worker_ok_table)
  let ?ws = "ds_workers s"
  note inv' = delivery_invD [OF inv]
  show old: "worker_ok lw (ds_clock s) (messages (ds_db s)) (set (ds_tokens s)) (set (event_tokens es)) (?ws ! j)"
    using inv'(3) j by simp
  fix c assume h: "holding (fst (?ws ! j)) = Some c"
  show "get_row om_id (messages d) (cl_message_id c) = Some m"
    if m: "get_row om_id (messages (ds_db s)) (cl_message_id c) = Some m" "leased_until lw c (snd (?ws ! j)) m" for m
  proof (rule worker_step_frame [OF st inv'(1) m(1)])
    show "owns (cl_token c) (si_now inp) m" using leased_until_owns [OF v _ m(2)] old h t by (auto simp: worker_ok_def)
    show "cl_message_id c' \<noteq> cl_message_id c" if "holding ph = Some c'" for c'
      using held_apart [OF inv'(2,3) i(1) j(1)] that i(2) h j(2) by auto
  qed
  show "cl_token c \<in> set (event_tokens es)" if "cl_token c \<in> set (event_tokens (es @ submits ph))"
    using that tokens_apartD [OF inv'(2) i(1) j(1), of _ c] h i(2) j(2) by (auto simp: in_submitted holding_def)
qed (use tk in auto)

lemma work_tokens_apart:
  assumes inv: "delivery_inv lw s es" and i: "i < length (ds_workers s)" "ds_workers s ! i = (ph, since)"
    and t: "si_now inp = ds_clock s" "si_token inp \<notin> set (ds_tokens s)"
    and st: "worker_step lw inp ph (ds_db s) (ds_world s) = (ph', d, w)"
  shows "tokens_apart ((ds_workers s)[i := (ph', y)])"
proof -
  let ?ws = "ds_workers s"
  note inv' = delivery_invD [OF inv]
  have fresh: "cl_token c \<noteq> cl_token c'"
    if h: "holding ph' = Some c" "j < length ?ws" "j \<noteq> i" "holding (fst (?ws ! j)) = Some c'" for c c' j
  proof (cases "is_idle ph")
    case True
    have "cl_token c' \<in> set (ds_tokens s)" using inv'(3) h by (auto simp: worker_ok_def)
    with True work_own [OF inv i t(1) st h(1)] t(2) show ?thesis by auto
  next
    case False
    then have "holding ph = Some c" using work_own [OF inv i t(1) st h(1)] by simp
    then show ?thesis using tokens_apartD [OF inv'(2) i(1) h(2)] h i(2) by auto
  qed
  show ?thesis unfolding tokens_apart_def
  proof (intro allI impI)
    fix a b c c'
    assume "a < length (?ws[i := (ph', y)]) \<and> b < length (?ws[i := (ph', y)]) \<and> a \<noteq> b \<and>
      holding (fst (?ws[i := (ph', y)] ! a)) = Some c \<and> holding (fst (?ws[i := (ph', y)] ! b)) = Some c'"
    then show "cl_token c \<noteq> cl_token c'"
      using fresh [of c b c'] fresh [of c' a c] tokens_apartD [OF inv'(2), of a b c c']
      by (cases "a = i"; cases "b = i") auto
  qed
qed

lemma work_keeps:
  assumes v: "validate_settings (lw_settings lw) = Inr x0" and inv: "delivery_inv lw s es"
    and e: "exec_delivery en lw (Work i inp) s = Inr (es', s')"
  shows "delivery_inv lw s' (es @ es')"
proof -
  obtain ph since ph' d w where i: "i < length (ds_workers s)" "ds_workers s ! i = (ph, since)"
    and t: "si_now inp = ds_clock s" "si_token inp \<notin> set (ds_tokens s)"
    and st: "worker_step lw inp ph (ds_db s) (ds_world s) = (ph', d, w)" and es: "es' = submits ph"
    and s': "s' = s\<lparr>ds_db := d, ds_world := w, ds_workers := (ds_workers s)[i := (ph', if is_idle ph then ds_clock s else since)],
        ds_tokens := (if is_idle ph then si_token inp # ds_tokens s else ds_tokens s)\<rparr>"
    using e by (auto simp: submits_def split: if_splits prod.splits)
  note inv' = delivery_invD [OF inv]
  have wi: "worker_ok lw (ds_clock s) (messages (ds_db s)) (set (ds_tokens s)) (set (event_tokens es)) (ph, since)"
    using inv'(3) i nth_mem by metis
  have "distinct (event_tokens (es @ submits ph)) \<and> set (event_tokens (es @ submits ph)) \<subseteq> set (ds_tokens s)"
    using inv'(4,5) wi
    by (cases ph) (auto simp: event_tokens_def submits_def worker_ok_def holding_def before_send_def)
  moreover have "\<forall>x \<in> set ((ds_workers s)[i := (ph', if is_idle ph then ds_clock s else since)]).
      worker_ok lw (ds_clock s) (messages d) (set (if is_idle ph then si_token inp # ds_tokens s else ds_tokens s))
        (set (event_tokens (es @ submits ph))) x"
    by (intro ball_list_update work_new [OF v inv i t st] work_others [OF v inv i t(1) st]) auto
  ultimately show ?thesis
    using worker_step_ok [OF st inv'(1)] work_tokens_apart [OF inv i t st] unfolding delivery_inv_def es s' by auto
qed


text \<open>Operations that leave the workers alone and keep the rows that are being processed.\<close>

lemma db_keeps:
  assumes inv: "delivery_inv lw s es" and ok: "messages_ok (messages d)"
    and keep: "\<And>i m. get_row om_id (messages (ds_db s)) i = Some m \<Longrightarrow> om_status m = OProcessing \<Longrightarrow> get_row om_id (messages d) i = Some m"
  shows "delivery_inv lw (put_db d s) (es @ [])"
proof -
  note inv' = delivery_invD [OF inv]
  have "worker_ok lw (ds_clock s) (messages d) (set (ds_tokens s)) (set (event_tokens es)) x" if "x \<in> set (ds_workers s)" for x
    by (rule worker_ok_table [OF inv'(3) [rule_format, OF that]]) (auto simp: leased_until_def intro: keep)
  then show ?thesis using inv' ok by (simp add: delivery_inv_def put_db_def)
qed

lemma publish_keeps:
  assumes inv: "delivery_inv lw s es" and e: "exec_delivery en lw (Publish ev mid) s = Inr (es', s')"
  shows "delivery_inv lw s' (es @ es')"
proof -
  from e obtain m where m: "add ev VNone None mid = Inr m" and c: "outbox_constraints (messages (ds_db s) @ [m])"
    and s': "es' = []" "s' = put_db ((ds_db s)\<lparr>dd_identity := (dd_identity (ds_db s))\<lparr>id_outbox := messages (ds_db s) @ [m]\<rparr>\<rparr>) s"
    by (auto simp: result_simps flush_message_def split: if_splits)
  show ?thesis unfolding s'
    by (rule db_keeps [OF inv])
      (use c in \<open>auto simp: messages_ok_def outbox_constraints_def get_row_append\<close>)
qed

lemma stage_audit_messages: "stage_audit en now i e d = Inr d' \<Longrightarrow> messages d' = messages d"
  by (auto simp: stage_audit_def result_simps)

lemma requeue_messages:
  "requeue en now aid cid m reason prepared d = Inr d' \<Longrightarrow>
    messages d' = update_ids om_id [om_id m] (replay_row now) (messages d)"
  by (auto simp: requeue_def dest!: stage_audit_messages split: sum.splits if_splits)

lemma replay_messages:
  assumes "replay en now aid cid mid reason hs d = Inr d'"
  shows "messages d' = update_ids om_id [mid] (replay_row now) (messages d) \<and>
    (\<exists>m. get_row om_id (messages d) mid = Some m \<and> om_status m \<noteq> OProcessing)"
  using assms
  by (auto simp: replay_def Let_def bind_r_eq_Inr dest!: requeue_messages get_row_SomeD split: option.splits if_splits)

lemma resume_messages: "resume en now aid tg cid g d = Inr d' \<Longrightarrow> messages d' = messages d"
  by (auto simp: resume_def dest!: stage_audit_messages split: option.splits if_splits)

lemma replay_keeps:
  assumes inv: "delivery_inv lw s es" and e: "exec_delivery en lw (Replay aid cid mid reason) s = Inr (es', s')"
  shows "delivery_inv lw s' (es @ es')"
proof -
  from e obtain d where d: "replay en (ds_clock s) aid cid mid reason (lw_handlers lw) (ds_db s) = Inr d"
    and s': "es' = []" "s' = put_db d s" by (auto simp: result_simps)
  from replay_messages [OF d] delivery_invD(1) [OF inv] show ?thesis unfolding s'
    by (intro db_keeps [OF inv]) (auto simp: get_row_update_ids intro: messages_ok_update split: if_splits)
qed

lemma resume_keeps:
  assumes inv: "delivery_inv lw s es" and e: "exec_delivery en lw (Resume aid tg cid) s = Inr (es', s')"
  shows "delivery_inv lw s' (es @ es')"
proof -
  from e obtain d where d: "resume en (ds_clock s) aid tg cid (lw_group lw) (ds_db s) = Inr d"
    and s': "es' = []" "s' = put_db d s" by (auto simp: result_simps)
  from resume_messages [OF d] delivery_invD(1) [OF inv] show ?thesis unfolding s'
    by (intro db_keeps [OF inv]) simp_all
qed

lemma tick_keeps:
  assumes inv: "delivery_inv lw s es" and e: "exec_delivery en lw (Tick t) s = Inr (es', s')"
  shows "delivery_inv lw s' (es @ es')"
proof -
  from e have s': "es' = []" "s' = s\<lparr>ds_clock := t\<rparr>"
    and l: "list_all (\<lambda>(ph, since). \<not> is_holding ph \<or> t \<le> since + work_budget lw) (ds_workers s)"
    by (auto split: if_splits)
  have "t \<le> snd x + work_budget lw" if "x \<in> set (ds_workers s)" "holding (fst x) = Some c" for x c
    using l that by (auto simp: list_all_iff is_holding_def)
  then show ?thesis using delivery_invD [OF inv] unfolding s' by (auto simp: delivery_inv_def worker_ok_def)
qed

lemma restart_keeps:
  assumes inv: "delivery_inv lw s es" and e: "exec_delivery en lw (Restart i) s = Inr (es', s')"
  shows "delivery_inv lw s' (es @ es')"
proof -
  from e have s': "es' = []" "s' = s\<lparr>ds_workers := (ds_workers s)[i := (Idle, ds_clock s)]\<rparr>" and i: "i < length (ds_workers s)"
    by (auto split: if_splits)
  note inv' = delivery_invD [OF inv]
  have "tokens_apart ((ds_workers s)[i := (Idle, ds_clock s)])"
    using inv'(2) i by (auto simp: tokens_apart_def nth_list_update split: if_splits)
  moreover have "\<forall>x \<in> set ((ds_workers s)[i := (Idle, ds_clock s)]).
      worker_ok lw (ds_clock s) (messages (ds_db s)) (set (ds_tokens s)) (set (event_tokens es)) x"
    using inv'(3) by (intro ball_list_update) (auto simp: worker_ok_def)
  ultimately show ?thesis using inv' unfolding s' by (simp add: delivery_inv_def)
qed

lemmas delivery_keeps = tick_keeps work_keeps restart_keeps publish_keeps replay_keeps resume_keeps

definition admits_all :: "delivery_event list \<Rightarrow> delivery_event list \<Rightarrow> bool" where
  "admits_all es es' \<longleftrightarrow> True"

definition at_start :: "('p, 'w) delivery_system \<Rightarrow> bool" where
  "at_start s \<longleftrightarrow> messages_ok (messages (ds_db s)) \<and> list_all (\<lambda>(ph, since). is_idle ph) (ds_workers s)"

lemma delivery_exec_inv:
  assumes "validate_settings (lw_settings lw) = Inr x" "delivery_inv lw s es" "exec_delivery en lw op s = Inr (es', s')"
  shows "delivery_inv lw s' (es @ es')"
  using assms(3) by (cases op) (use delivery_keeps assms in \<open>metis\<close>)+

lemma delivery_start_inv:
  assumes "at_start s"
  shows "delivery_inv lw s []"
proof -
  have idle: "holding (fst x) = None" if "x \<in> set (ds_workers s)" for x
    using assms that by (auto simp: at_start_def list_all_iff is_idle_def holding_def split: phase.splits)
  have "tokens_apart (ds_workers s)"
    unfolding tokens_apart_def using idle nth_mem by (metis option.distinct(1))
  with idle assms show ?thesis
    by (auto simp: at_start_def delivery_inv_def worker_ok_def event_tokens_def)
qed


definition exclusive :: "('p, 'w) delivery_system \<Rightarrow> bool" where
  "exclusive s \<longleftrightarrow> (\<forall>i j c c'. i < length (ds_workers s) \<and> j < length (ds_workers s) \<and>
     holding (fst (ds_workers s ! i)) = Some c \<and> holding (fst (ds_workers s ! j)) = Some c' \<and>
     cl_message_id c = cl_message_id c' \<longrightarrow> i = j)"

lemma inv_settles:
  assumes v: "validate_settings (lw_settings lw) = Inr x" and inv: "delivery_inv lw s es"
    and w: "(Settling c r, since) \<in> set (ds_workers s)" and t: "si_t inp = ds_clock s"
  shows "\<exists>d. finalize lw inp c r (ds_db s) = Inr (True, d)"
proof -
  note inv' = delivery_invD [OF inv]
  have u: "unique_key om_id (ob_messages (outbox_view (ds_db s)))" using inv'(1) by (simp add: messages_ok_def)
  have ok: "worker_ok lw (ds_clock s) (messages (ds_db s)) (set (ds_tokens s)) (set (event_tokens es)) (Settling c r, since)"
    using inv'(3) w by blast
  then obtain m where m: "get_row om_id (messages (ds_db s)) (cl_message_id c) = Some m" "leased_until lw c since m"
    and a: "1 \<le> cl_attempts c" "ds_clock s \<le> since + work_budget lw"
    by (auto simp: worker_ok_def holding_def row_held_def)
  have own: "owns (cl_token c) (si_t inp) m" using leased_until_owns [OF v a(2) m(2)] t by simp
  obtain delay where d: "next_delay (si_rnd inp) (cl_attempts c) r (lw_settings lw) = Inr delay"
    using a(1) by (simp add: next_delay_def)
  obtain b ob where f: "finish (si_t inp) (si_now inp) (lw_group lw) c r delay (outbox_view (ds_db s)) = (b, ob)" by fastforce
  have "b" using finish_rows_frame [OF u f] own get_row_SomeD [OF m(1)] by auto
  with d f show ?thesis by (auto simp: finalize_Inr)
qed


interpretation delivery: run_invariant "exec_delivery en lw" admits_all init
    "\<lambda>s es. (\<exists>x. validate_settings (lw_settings lw) = Inr x) \<and> at_start init \<longrightarrow> delivery_inv lw s es"
  for en :: ident_env and lw :: "('p, 'w) leased_worker" and init :: "('p, 'w) delivery_system"
  by unfold_locales (auto intro: delivery_start_inv delivery_exec_inv)

text \<open>How many steps a phase is from its end.\<close>

definition phase_rank :: "'p phase \<Rightarrow> nat" where
  "phase_rank ph = (case ph of Idle \<Rightarrow> 5 | Claimed c e \<Rightarrow> 4 | Prepared c p \<Rightarrow> 3 | Sending c p \<Rightarrow> 2 | Settling c r \<Rightarrow> 1 | _ \<Rightarrow> 0)"

lemma settle_with_rank: "phase_rank (settle_with c r) \<le> 1"
  by (simp add: settle_with_def phase_rank_def split: sum.splits)

lemma worker_step_rank:
  assumes "worker_step lw i ph d w = (ph', d', w')"
  shows "phase_rank ph' \<le> phase_rank ph - 1"
proof (cases ph)
  case Idle
  with assms show ?thesis
    by (auto simp: worker_step_def claim_step_def settle_with_def phase_rank_def split: sum.splits prod.splits option.splits)
next
  case (Claimed c e)
  with assms show ?thesis
    by (auto simp: worker_step_def prepare_step_def settle_with_def phase_rank_def split: sum.splits option.splits exn.splits)
next
  case (Prepared c p)
  with assms show ?thesis
    by (auto simp: worker_step_def bind_step_def settle_with_def phase_rank_def split: sum.splits prod.splits if_splits)
next
  case (Sending c p)
  with assms settle_with_rank [of c] show ?thesis
    by (auto simp: worker_step_def send_step_def phase_rank_def [of "Settling x y" for x y] phase_rank_def [of "Raised x" for x]
        phase_rank_def [of "Sending x y" for x y] split: sum.splits option.splits exn.splits prod.splits)
qed (use assms in \<open>auto simp: worker_step_def phase_rank_def split: sum.splits prod.splits\<close>)

lemma run_phases_rank: "phase_rank (fst (run_phases lw is ph d w)) \<le> phase_rank ph - length is"
proof (induction "is" arbitrary: ph d w)
  case (Cons i "is")
  obtain ph' d' w' where st: "worker_step lw i ph d w = (ph', d', w')" by (cases "worker_step lw i ph d w") auto
  have "phase_rank (fst (run_phases lw is ph' d' w')) \<le> phase_rank ph' - length is" by (rule Cons)
  with st worker_step_rank [OF st] show ?case by simp
qed simp

lemma phase_rank_ended: "phase_rank ph = 0 \<longleftrightarrow> has_ended ph"
  by (simp add: phase_rank_def has_ended_def split: phase.splits)

section \<open>Concrete values\<close>

definition demo_handler :: "(unit, unit) external_handler" where
  "demo_handler = \<lparr>eh_prepare = \<lambda>now db e. Inr (Inr \<lparr>pd_payload = (), pd_fingerprint = replicate 64 CHR ''a'', pd_expires_at = secs 60\<rparr>),
     eh_deliver = \<lambda>p r w. (Inr demo_accepted, w)\<rparr>"

definition demo_worker :: "(unit, unit) leased_worker" where
  "demo_worker = \<lparr>lw_handlers = [(''paid'', demo_handler)], lw_settings = default_settings, lw_group = ''auth_email''\<rparr>"

definition demo_system :: "(unit, unit) delivery_system" where
  "demo_system = \<lparr>ds_clock = 10, ds_db = \<lparr>dd_identity = empty_db\<lparr>id_outbox := [demo_message 1 1 OPending]\<rparr>, dd_controls = []\<rparr>,
     ds_world = (), ds_workers = [(Idle, 0), (Idle, 0)], ds_tokens = []\<rparr>"

definition demo_input :: "instant \<Rightarrow> uuid \<Rightarrow> step_input" where
  "demo_input t k = \<lparr>si_locked = \<lambda>_. False, si_token = k, si_t = t, si_now = t, si_rnd = \<lambda>n. 0\<rparr>"

definition demo_ops :: "delivery_op list" where
  "demo_ops = [Work 0 (demo_input 10 7), Work 1 (demo_input 10 8), Work 0 (demo_input 10 9), Work 0 (demo_input 10 9),
     Tick 20, Work 0 (demo_input 20 9)]"

section \<open>Properties\<close>



text \<open>
  Processing one message ends: whatever the database, the handlers and the world outside do, \<open>process_one\<close>
  returns or raises after at most five phases: claim, prepare, bind, deliver, record.
\<close>

lemma process_one_ends: "has_ended (fst (run_phases lw (i1 # i2 # i3 # i4 # i5 # is) Idle d w))"
  using run_phases_rank [of lw "i1 # i2 # i3 # i4 # i5 # is" Idle d w]
  by (simp add: phase_rank_ended [symmetric] phase_rank_def [of Idle])

end
