(* ===== verification/Users_Service.thy ===== *)
theory Users_Service
  imports Auth_Service
begin

text \<open>
  Profiles, addresses and administration: \<open>users/schemas.py\<close>, \<open>users/service.py\<close>,
  \<open>users/admin_repository.py\<close> and \<open>users/administration.py\<close>.

  The request schemas are checked by pydantic; its trimming of whitespace is the argument \<open>trim\<close>, and
  \<open>None\<close> is the rejection of the request. \<open>clk n\<close> is the \<open>n\<close>-th reading of the clock.
\<close>

section \<open>Request schemas\<close>

record profile_input =
  pi_display_name :: string
  pi_phone :: "string option"

definition sized :: "nat \<Rightarrow> nat \<Rightarrow> string \<Rightarrow> bool" where
  "sized lo hi s \<longleftrightarrow> lo \<le> length s \<and> length s \<le> hi"

definition sized_opt :: "nat \<Rightarrow> nat \<Rightarrow> string option \<Rightarrow> bool" where
  "sized_opt lo hi v = (case v of None \<Rightarrow> True | Some s \<Rightarrow> sized lo hi s)"

definition mk_profile_input :: "(string \<Rightarrow> string) \<Rightarrow> string \<Rightarrow> string option \<Rightarrow> profile_input option" where
  "mk_profile_input trim name phone =
     (let n = trim name; p = map_option trim phone in
      if sized 1 150 n \<and> sized_opt 5 32 p then Some \<lparr>pi_display_name = n, pi_phone = p\<rparr> else None)"

record address_input =
  ai_kind :: string
  ai_recipient :: string
  ai_line1 :: string
  ai_line2 :: "string option"
  ai_city :: string
  ai_region :: string
  ai_postal_code :: "string option"
  ai_country_code :: string
  ai_phone :: "string option"
  ai_is_default :: bool

definition country_re :: regex where
  "country_re = ClsRep [(CHR ''A'', CHR ''Z'')] 2 2"

definition trim_address :: "(string \<Rightarrow> string) \<Rightarrow> address_input \<Rightarrow> address_input" where
  "trim_address trim a = a\<lparr>ai_recipient := trim (ai_recipient a), ai_line1 := trim (ai_line1 a),
     ai_line2 := map_option trim (ai_line2 a), ai_city := trim (ai_city a), ai_region := trim (ai_region a),
     ai_postal_code := map_option trim (ai_postal_code a), ai_country_code := trim (ai_country_code a),
     ai_phone := map_option trim (ai_phone a)\<rparr>"

definition mk_address_input :: "(string \<Rightarrow> string) \<Rightarrow> address_input \<Rightarrow> address_input option" where
  "mk_address_input trim raw =
     (let a = trim_address trim raw in
      if ai_kind a \<in> {''shipping'', ''billing''} \<and> sized 1 150 (ai_recipient a) \<and> sized 1 200 (ai_line1 a) \<and>
         sized_opt 0 200 (ai_line2 a) \<and> sized 1 100 (ai_city a) \<and> sized 1 100 (ai_region a) \<and>
         sized_opt 0 20 (ai_postal_code a) \<and> fullmatch country_re (ai_country_code a) \<and> sized_opt 5 32 (ai_phone a)
      then Some a else None)"

record access_input =
  xi_role :: "role option"
  xi_is_active :: "bool option"

definition require_change :: "access_input \<Rightarrow> exn + access_input" where
  "require_change x = (if xi_role x = None \<and> xi_is_active x = None
     then Inl (ValueError ''supply a role or active-state change'') else Inr x)"

section \<open>Profile and addresses\<close>

definition update_profile :: "(nat \<Rightarrow> instant) \<Rightarrow> actor \<Rightarrow> profile_input \<Rightarrow> user id_prog" where
  "update_profile clk ac data =
     bnd (authorize (clk 0) (clk 1) ac Profile_Write None) (\<lambda>x.
     let f = (\<lambda>y. y\<lparr>us_display_name := pi_display_name data, us_phone := pi_phone data\<rparr>) in
     bnd (modify (update_user (us_id x) f)) (\<lambda>_.
     bnd commit (\<lambda>_. ret (f x))))"

definition list_addresses :: "(nat \<Rightarrow> instant) \<Rightarrow> actor \<Rightarrow> address list id_prog" where
  "list_addresses clk ac =
     bnd (authorize (clk 0) (clk 1) ac Profile_Write None) (\<lambda>_.
     query (\<lambda>db. sort_key (\<lambda>a. (ad_created_at a, ad_id a)) (filter (\<lambda>a. ad_user_id a = ac_user_id ac) (id_addresses db))))"

definition own_address :: "uuid \<Rightarrow> uuid \<Rightarrow> identity_db \<Rightarrow> address option" where
  "own_address user_id i db = find (\<lambda>a. ad_id a = i \<and> ad_user_id a = user_id) (id_addresses db)"

definition max_addresses :: nat where "max_addresses = 20"

text \<open>\<open>setattr\<close> for every item of \<open>data.model_dump()\<close>.\<close>

definition apply_address :: "address_input \<Rightarrow> address \<Rightarrow> address" where
  "apply_address d a = a\<lparr>ad_kind := ai_kind d, ad_recipient := ai_recipient d, ad_line1 := ai_line1 d,
     ad_line2 := ai_line2 d, ad_city := ai_city d, ad_region := ai_region d, ad_postal_code := ai_postal_code d,
     ad_country_code := ai_country_code d, ad_phone := ai_phone d, ad_is_default := ai_is_default d\<rparr>"

definition fresh_address :: "uuid \<Rightarrow> uuid \<Rightarrow> instant \<Rightarrow> address" where
  "fresh_address new_id user_id now = \<lparr>ad_id = new_id, ad_user_id = user_id, ad_kind = [], ad_recipient = [], ad_line1 = [],
     ad_line2 = None, ad_city = [], ad_region = [], ad_postal_code = None, ad_country_code = [], ad_phone = None,
     ad_is_default = False, ad_created_at = now\<rparr>"

definition clear_default :: "uuid \<Rightarrow> string \<Rightarrow> identity_db \<Rightarrow> identity_db" where
  "clear_default user_id kind db = db\<lparr>id_addresses :=
     update_where (\<lambda>a. ad_user_id a = user_id \<and> ad_kind a = kind \<and> ad_is_default a) (\<lambda>a. a\<lparr>ad_is_default := False\<rparr>)
       (id_addresses db)\<rparr>"

definition addresses_ok :: "address list \<Rightarrow> bool" where
  "addresses_ok as \<longleftrightarrow> unique_key ad_id as \<and> unique_key (\<lambda>a. (ad_user_id a, ad_kind a)) (filter ad_is_default as)"

text \<open>The flush: the primary key and the partial unique index are checked on the table it writes.\<close>

definition flush_addresses :: "address \<Rightarrow> address list \<Rightarrow> identity_db \<Rightarrow> exn + (address \<times> identity_db)" where
  "flush_addresses a as db = (if addresses_ok as then Inr (a, db\<lparr>id_addresses := as\<rparr>)
     else Inl (IntegrityError ''user_addresses''))"

definition store_address ::
  "(nat \<Rightarrow> instant) \<Rightarrow> uuid \<Rightarrow> uuid \<Rightarrow> address_input \<Rightarrow> address option \<Rightarrow> identity_db \<Rightarrow> exn + (address \<times> identity_db)" where
  "store_address clk new_id user_id data row db = (case row of
     None \<Rightarrow> (let a = apply_address data (fresh_address new_id user_id (clk 2))
              in flush_addresses a (id_addresses db @ [a]) db)
   | Some r \<Rightarrow> flush_addresses (apply_address data r)
       (update_ids ad_id [ad_id r] (apply_address data) (id_addresses db)) db)"

definition save_address ::
  "(nat \<Rightarrow> instant) \<Rightarrow> uuid \<Rightarrow> actor \<Rightarrow> address_input \<Rightarrow> uuid option \<Rightarrow> address id_prog" where
  "save_address clk new_id ac data address_id =
     bnd (authorize (clk 0) (clk 1) ac Profile_Write None) (\<lambda>_.
     bnd (case address_id of
            Some i \<Rightarrow> bnd (query (own_address (ac_user_id ac) i)) (\<lambda>row.
              if row = None then throw (app_error AddressNotFoundError) else ret row)
          | None \<Rightarrow> bnd (query (\<lambda>db. count_where (\<lambda>a. ad_user_id a = ac_user_id ac) (id_addresses db))) (\<lambda>n.
              if max_addresses \<le> n then throw (app_error AddressLimitReachedError) else ret None)) (\<lambda>row.
     bnd (guarded (ai_is_default data) (modify (clear_default (ac_user_id ac) (ai_kind data)))) (\<lambda>_.
     bnd (session_op (store_address clk new_id (ac_user_id ac) data row)) (\<lambda>a.
     bnd commit (\<lambda>_. ret a)))))"

definition delete_address :: "(nat \<Rightarrow> instant) \<Rightarrow> actor \<Rightarrow> uuid \<Rightarrow> unit id_prog" where
  "delete_address clk ac i =
     bnd (authorize (clk 0) (clk 1) ac Profile_Write None) (\<lambda>_.
     bnd (query (own_address (ac_user_id ac) i)) (\<lambda>row. case row of
       None \<Rightarrow> throw (app_error AddressNotFoundError)
     | Some r \<Rightarrow> bnd (modify (\<lambda>db. db\<lparr>id_addresses := delete_where (\<lambda>a. ad_id a = ad_id r) (id_addresses db)\<rparr>)) (\<lambda>_.
         commit)))"

section \<open>Administration\<close>

definition user_conditions :: "role option \<Rightarrow> bool option \<Rightarrow> string option \<Rightarrow> user \<Rightarrow> bool" where
  "user_conditions role is_active email x \<longleftrightarrow> opt_eq (map_option role_value role) (us_role x) \<and>
     opt_eq is_active (us_is_active x) \<and> opt_eq email (us_email x)"

definition newest_users :: "user list \<Rightarrow> user list" where
  "newest_users xs = rev (sort_key (\<lambda>x. (us_created_at x, us_id x)) xs)"

definition list_users ::
  "ident_env \<Rightarrow> (nat \<Rightarrow> instant) \<Rightarrow> actor \<Rightarrow> page_request \<Rightarrow> role option \<Rightarrow> bool option \<Rightarrow> string option \<Rightarrow> user page id_prog" where
  "list_users en clk ac p role is_active email =
     bnd (authorize (clk 0) (clk 1) ac Users_Read None) (\<lambda>_.
     bnd (lift_r (check_optional (normalize_email en) email)) (\<lambda>e.
     bnd (query (\<lambda>db. newest_users (filter (user_conditions role is_active e) (id_users db)))) (\<lambda>rows.
     lift_r (paginate rows p))))"

definition access_changed ::
  "ident_env \<Rightarrow> instant \<Rightarrow> uuid \<Rightarrow> actor \<Rightarrow> user \<Rightarrow> string \<Rightarrow> bool \<Rightarrow> string \<Rightarrow> exn + audit_record" where
  "access_changed en now new_id ac target new_role new_active cid =
     record_audit (en_case en) (en_float en) now new_id \<lparr>aa_kind = Administrator_Actor, aa_actor_id = Some (ac_user_id ac)\<rparr>
       (VStr ''identity.access_changed'') (VStr ''user'') (VUuid (us_id target)) Audit_Succeeded
       (VDict [(VStr ''old_role'', VStr (us_role target)), (VStr ''new_role'', VStr new_role),
          (VStr ''old_active'', VBool (us_is_active target)), (VStr ''new_active'', VBool new_active)])
       [''old_role'', ''new_role'', ''old_active'', ''new_active''] (VStr cid) None"

definition change_access ::
  "ident_env \<Rightarrow> auth_settings \<Rightarrow> string \<Rightarrow> (nat \<Rightarrow> instant) \<Rightarrow> uuid \<Rightarrow> actor \<Rightarrow> uuid \<Rightarrow> role option \<Rightarrow> bool option \<Rightarrow> string \<Rightarrow>
   unit id_prog" where
  "change_access en st ns clk audit_id ac target_id role is_active cid =
     bnd (authorize (clk 0) (clk 1) ac Users_Manage (Some (st_recent_auth_seconds st))) (\<lambda>_.
     bnd (find_user_by_id target_id) (\<lambda>target.
     case target of
       None \<Rightarrow> throw (app_error UserNotFoundError)
     | Some t \<Rightarrow>
         let new_role = (case role of None \<Rightarrow> us_role t | Some r \<Rightarrow> role_value r);
             new_active = (case is_active of None \<Rightarrow> us_is_active t | Some b \<Rightarrow> b) in
         if new_role = us_role t \<and> new_active = us_is_active t then ret ()
         else
           bnd (guarded (active_admin t \<and> (new_role \<noteq> role_value Admin \<or> \<not> new_active))
                (bnd (query (\<lambda>db. count_where (\<lambda>x. active_admin x \<and> us_id x \<noteq> us_id t) (id_users db))) (\<lambda>others.
                 guarded (others = 0) (throw (app_error LastActiveAdminError))))) (\<lambda>_.
           if new_role = role_value Admin \<and> us_email_verified_at t = None then throw (app_error UnverifiedAdminError)
           else
             bnd (modify (update_user (us_id t) (\<lambda>x. x\<lparr>us_role := new_role, us_is_active := new_active\<rparr>))) (\<lambda>_.
             bnd (revoke ns (clk 2) (us_id t) None) (\<lambda>_.
             bnd (audit (access_changed en (clk 3) audit_id ac t new_role new_active cid)) (\<lambda>_.
             commit))))))"

section \<open>The system invariant\<close>

lemma sys_inv_addresses:
  "sys_inv n a0 adm db \<Longrightarrow> addresses_ok x \<Longrightarrow> (\<And>i. count_where (\<lambda>a. ad_user_id a = i) x \<le> 20) \<Longrightarrow>
    sys_inv n a0 adm (db\<lparr>id_addresses := x\<rparr>)"
  by (simp add: sys_inv_def id_ok_def addresses_ok_def has_admin_def)

lemma sys_inv_addressesD:
  assumes "sys_inv n a0 adm db"
  shows "addresses_ok (id_addresses db)" "count_where (\<lambda>a. ad_user_id a = i) (id_addresses db) \<le> 20"
  using assms by (simp_all add: sys_inv_def id_ok_def addresses_ok_def)

lemma count_update_where:
  "(\<And>r. P (f r) = P r) \<Longrightarrow> count_where P (update_where Q f tbl) = count_where P tbl"
  by (induction tbl) (simp_all add: count_where_def update_where_def)

lemma count_delete_where: "count_where P (delete_where Q tbl) \<le> count_where P tbl"
  unfolding count_where_def delete_where_def filter_filter
  by (induction tbl) simp_all

lemma unique_key_filter_conj:
  assumes "unique_key k (filter P tbl)"
  shows "unique_key k (filter (\<lambda>r. P r \<and> Q r) tbl)" "unique_key k (filter (\<lambda>r. Q r \<and> P r) tbl)"
proof -
  have "distinct (map k (filter Q (filter P tbl)))" using assms unfolding unique_key_def by (rule distinct_map_filter)
  then show "unique_key k (filter (\<lambda>r. P r \<and> Q r) tbl)" "unique_key k (filter (\<lambda>r. Q r \<and> P r) tbl)"
    by (simp_all add: unique_key_def conj_commute)
qed

lemma addresses_ok_delete: "addresses_ok as \<Longrightarrow> addresses_ok (delete_where P as)"
  by (simp add: addresses_ok_def unique_key_delete_where) (simp add: delete_where_def unique_key_filter_conj)

text \<open>Withdrawing the default mark leaves a subset of the default addresses.\<close>

lemma filter_clear_default:
  "filter ad_is_default (update_where P (\<lambda>a. a\<lparr>ad_is_default := False\<rparr>) as) = filter (\<lambda>a. \<not> P a) (filter ad_is_default as)"
  by (induction as) (simp_all add: update_where_def)

lemma addresses_ok_clear: "addresses_ok as \<Longrightarrow> addresses_ok (update_where P (\<lambda>a. a\<lparr>ad_is_default := False\<rparr>) as)"
  unfolding addresses_ok_def filter_clear_default
  by (simp add: unique_key_update_where unique_key_filter_conj)

lemma sys_inv_clear_default:
  "sys_inv n a0 adm db \<Longrightarrow> sys_inv n a0 adm (clear_default u k db)"
  unfolding clear_default_def
  by (rule sys_inv_addresses) (simp_all add: addresses_ok_clear sys_inv_addressesD count_update_where)

lemma keeps_clear_default [keeps_rules]: "keeps (sys_inv n a0 adm) (modify (clear_default u k))"
  by (rule keeps_modify) (rule sys_inv_clear_default)

lemma count_clear_default:
  "count_where (\<lambda>a. ad_user_id a = i) (id_addresses (clear_default u k db)) = count_where (\<lambda>a. ad_user_id a = i) (id_addresses db)"
  by (simp add: clear_default_def count_update_where)

lemma flush_addresses_Inr:
  "flush_addresses a as db = Inr (x, db') \<longleftrightarrow> addresses_ok as \<and> x = a \<and> db' = db\<lparr>id_addresses := as\<rparr>"
  by (auto simp: flush_addresses_def)

lemma apply_address_simps [simp]:
  "ad_id (apply_address d a) = ad_id a" "ad_user_id (apply_address d a) = ad_user_id a"
  "ad_kind (apply_address d a) = ai_kind d" "ad_is_default (apply_address d a) = ai_is_default d"
  by (simp_all add: apply_address_def)

lemma fresh_address_simps [simp]:
  "ad_id (fresh_address i u t) = i" "ad_user_id (fresh_address i u t) = u"
  by (simp_all add: fresh_address_def)

lemma valid_store_address:
  "valid (sys_inv n a0 adm) (\<lambda>db. row = None \<longrightarrow> count_where (\<lambda>a. ad_user_id a = u) (id_addresses db) < 20)
     (session_op (store_address clk new_id u data row)) (\<lambda>x db. True)"
proof (rule valid_session_op)
  fix db x db'
  assume s: "sys_inv n a0 adm db" and c: "row = None \<longrightarrow> count_where (\<lambda>a. ad_user_id a = u) (id_addresses db) < 20"
    and f: "store_address clk new_id u data row db = Inr (x, db')"
  have "sys_inv n a0 adm db'"
  proof (cases row)
    case None
    let ?a = "apply_address data (fresh_address new_id u (clk 2))"
    have a: "addresses_ok (id_addresses db @ [?a])" "db' = db\<lparr>id_addresses := id_addresses db @ [?a]\<rparr>"
      using f None by (auto simp: store_address_def Let_def flush_addresses_Inr)
    have "count_where (\<lambda>a. ad_user_id a = i) (id_addresses db @ [?a]) \<le> 20" for i
      using c None sys_inv_addressesD(2) [OF s, of i] by (auto simp: count_where_def)
    then show ?thesis using a s by (simp add: sys_inv_addresses)
  next
    case (Some r)
    then show ?thesis
      using f s by (auto simp: store_address_def flush_addresses_Inr update_ids_def count_update_where
          sys_inv_addressesD intro!: sys_inv_addresses)
  qed
  then show "sys_inv n a0 adm db' \<and> True" by simp
qed

lemma keeps_update_profile: "keeps (sys_inv n a0 adm) (update_profile clk ac data)"
  unfolding update_profile_def Let_def
  by (intro keeps_rules keeps_update_user) (simp_all add: active_admin_def)

lemma keeps_delete_address: "keeps (sys_inv n a0 adm) (delete_address clk ac i)"
  unfolding delete_address_def
  by (intro keeps_rules keeps_modify sys_inv_addresses)
    (auto simp: addresses_ok_delete sys_inv_addressesD intro: order.trans [OF count_delete_where])

lemma keeps_save_address: "keeps (sys_inv n a0 adm) (save_address clk new_id ac data address_id)"
proof -
  let ?I = "sys_inv n a0 adm" and ?u = "ac_user_id ac"
  let ?P = "\<lambda>row db. row = None \<longrightarrow> count_where (\<lambda>a. ad_user_id a = ?u) (id_addresses db) < 20"
  have rest: "valid ?I (?P row) (bnd (guarded (ai_is_default data) (modify (clear_default ?u (ai_kind data)))) (\<lambda>_.
     bnd (session_op (store_address clk new_id ?u data row)) (\<lambda>a. bnd commit (\<lambda>_. ret a)))) (\<lambda>x db. True)" for row
    by (intro valid_bnd [where R = "\<lambda>_. ?P row"] valid_guarded valid_modify valid_bnd_keeps [OF valid_store_address] keeps_rules)
      (simp_all add: sys_inv_clear_default count_clear_default)
  have row: "valid ?I (\<lambda>db. True) (case address_id of
            Some i \<Rightarrow> bnd (query (own_address ?u i)) (\<lambda>row.
              if row = None then throw (app_error AddressNotFoundError) else ret row)
          | None \<Rightarrow> bnd (query (\<lambda>db. count_where (\<lambda>a. ad_user_id a = ?u) (id_addresses db))) (\<lambda>n.
              if max_addresses \<le> n then throw (app_error AddressLimitReachedError) else ret None)) ?P"
    by (cases address_id) (auto intro!: valid_rules simp: max_addresses_def)
  show ?thesis
    unfolding save_address_def
    by (rule keepsI, rule valid_bnd [OF _ valid_bnd [OF row rest]]) (rule keeps_valid [OF keeps_authorize])
qed

text \<open>The administrators other than the target, counted under the membership lock, are still there.\<close>

lemma admin_survives:
  assumes ok: "unique_key us_id (id_users db)" and t: "get_row us_id (id_users db) i = Some t" and adm: "has_admin db"
    and f: "\<And>x. us_id (f x) = us_id x" "\<And>x. us_email_verified_at (f x) = us_email_verified_at x"
    and other: "active_admin t \<Longrightarrow> \<not> active_admin (f t) \<Longrightarrow> \<exists>x \<in> set (id_users db). active_admin x \<and> us_id x \<noteq> us_id t"
  shows "list_ex active_admin (update_ids us_id [us_id t] f (id_users db))"
proof -
  have t': "t \<in> set (id_users db)" using get_row_SomeD [OF t] by simp
  obtain x where x: "x \<in> set (id_users db)" "active_admin x" using adm by (auto simp: has_admin_def list_ex_iff)
  consider "x = t" "active_admin (f t)" | y where "y \<in> set (id_users db)" "active_admin y" "us_id y \<noteq> us_id t"
    using x other t' unique_keyD [OF ok x(1) t'] by blast
  then show ?thesis
  proof cases
    case 1
    then show ?thesis using t' by (auto simp: list_ex_iff update_ids_def set_update_where)
  next
    case 2
    then show ?thesis by (auto simp: list_ex_iff update_ids_def set_update_where)
  qed
qed

lemma valid_change_user:
  assumes "active_admin t \<and> (role \<noteq> role_value Admin \<or> \<not> act) \<longleftrightarrow> c"
  shows "valid (sys_inv n a0 adm) (\<lambda>db. Some t = get_row us_id (id_users db) i \<and>
      (c \<longrightarrow> (\<exists>x \<in> set (id_users db). active_admin x \<and> us_id x \<noteq> us_id t)))
    (modify (update_user (us_id t) (\<lambda>x. x\<lparr>us_role := role, us_is_active := act\<rparr>))) (\<lambda>x db. True)"
proof (rule valid_modify, rule conjI)
  fix db
  assume s: "sys_inv n a0 adm db" and p: "Some t = get_row us_id (id_users db) i \<and>
      (c \<longrightarrow> (\<exists>x \<in> set (id_users db). active_admin x \<and> us_id x \<noteq> us_id t))"
  let ?f = "\<lambda>x. x\<lparr>us_role := role, us_is_active := act\<rparr> :: user"
  have "list_ex active_admin (update_ids us_id [us_id t] ?f (id_users db))" if "has_admin db"
    by (rule admin_survives [OF sys_inv_unique(1) [OF s] _ that]) (use p assms in \<open>auto simp: active_admin_def\<close>)
  then show "sys_inv n a0 adm (update_user (us_id t) ?f db)"
    unfolding update_user_def using s by (intro sys_inv_users) (simp_all add: unique_key_update_ids sys_inv_unique)
qed simp

lemma valid_count_others:
  "valid I P (guarded c (bnd (query (\<lambda>db. count_where (Q db) (f db))) (\<lambda>k. guarded (k = 0) (throw e))))
     (\<lambda>x db. P db \<and> (c \<longrightarrow> (\<exists>r \<in> set (f db). Q db r)))"
proof (cases c)
  case True
  have "valid I (\<lambda>db. P db \<and> k = count_where (Q db) (f db)) (guarded (k = 0) (throw e)) (\<lambda>x db. P db \<and> (\<exists>r \<in> set (f db). Q db r))" for k
    by (cases "k = 0") (auto simp: guarded_def count_where_pos_iff [symmetric] intro!: valid_throw valid_ret)
  then show ?thesis using True by (auto simp: guarded_def intro!: valid_query_bnd)
qed (auto simp: guarded_def intro: valid_ret)

lemma keeps_change_access:
  "keeps (sys_inv n a0 adm) (change_access en st ns clk audit_id ac target_id role is_active cid)"
  unfolding change_access_def find_user_by_id_def
proof (rule keeps_bnd [OF keeps_authorize keeps_query_bnd], goal_cases)
  case (1 _ target)
  show ?case
  proof (cases target)
    case (Some t)
    define nr where "nr = (case role of None \<Rightarrow> us_role t | Some r \<Rightarrow> role_value r)"
    define na where "na = (case is_active of None \<Rightarrow> us_is_active t | Some b \<Rightarrow> b)"
    show ?thesis
      unfolding Some option.case nr_def [symmetric] na_def [symmetric] Let_def
      by (intro valid_if keeps_valid [OF keeps_ret] valid_bnd [OF valid_count_others] keeps_valid [OF keeps_throw]
          valid_bnd_keeps [OF valid_change_user] keeps_rules refl)
  qed (simp add: valid_throw)
qed

end
