(* ===== verification/Oidc.thy ===== *)
theory Oidc
  imports Auth_Service "HOL-Library.List_Lexorder"
begin

text \<open>
  Login with an external provider: \<open>auth/oidc/settings.py\<close>, \<open>auth/oidc/contracts.py\<close>,
  \<open>auth/oidc/attempts.py\<close>, \<open>auth/oidc/service.py\<close> and the callback of \<open>api/v1/auth_oidc.py\<close>.

  The provider is a parameter: \<open>exchange\<close> is what \<open>adapter.exchange(code, attempt)\<close> answers. The text
  of a stored attempt is written and read by pydantic, the arguments \<open>dump\<close> and \<open>load\<close>; \<open>load\<close> answers
  None for a validation error. \<open>parts\<close> is what \<open>urlsplit\<close> makes of the callback address.
\<close>

section \<open>Settings and attempts\<close>

datatype provider_name = Google | Yahoo

definition provider_value :: "provider_name \<Rightarrow> string" where
  "provider_value p = (case p of Google \<Rightarrow> ''google'' | Yahoo \<Rightarrow> ''yahoo'')"

definition provider_of :: "string \<Rightarrow> exn + provider_name" where
  "provider_of s = (if s = ''google'' then Inr Google else if s = ''yahoo'' then Inr Yahoo
     else Inl (ValueError ''not a valid ProviderName''))"

record url_parts =
  up_scheme :: string
  up_hostname :: "string option"
  up_query :: string
  up_fragment :: string
  up_username :: "string option"
  up_password :: "string option"

record provider_config =
  cf_enabled :: bool
  cf_client_id :: string
  cf_client_secret :: string
  cf_redirect_uri :: string
  cf_pkce_verified :: bool

definition truthy :: "string option \<Rightarrow> bool" where
  "truthy v = (case v of None \<Rightarrow> False | Some s \<Rightarrow> s \<noteq> [])"

definition validate_enabled :: "(string \<Rightarrow> url_parts) \<Rightarrow> provider_config \<Rightarrow> exn + provider_config" where
  "validate_enabled parts c =
     (let uri = parts (cf_redirect_uri c) in
      if cf_enabled c \<and> (cf_client_id c = [] \<or> cf_client_secret c = [] \<or> up_scheme uri \<noteq> ''https'' \<or>
         \<not> truthy (up_hostname uri) \<or> up_query uri \<noteq> [] \<or> up_fragment uri \<noteq> [] \<or>
         truthy (up_username uri) \<or> truthy (up_password uri))
      then Inl (ValueError ''enabled providers require credentials and exact HTTPS callback'')
      else Inr c)"

record oidc_settings =
  oi_google :: provider_config
  oi_yahoo :: provider_config
  oi_attempt_seconds :: int

definition validate_oidc_settings :: "oidc_settings \<Rightarrow> exn + oidc_settings" where
  "validate_oidc_settings s =
     bind_r (require (120 \<le> oi_attempt_seconds s \<and> oi_attempt_seconds s \<le> 900) (ValueError ''field out of range'')) (\<lambda>_.
     if cf_enabled (oi_yahoo s) \<and> \<not> cf_pkce_verified (oi_yahoo s)
     then Inl (ValueError ''verify Yahoo S256 enforcement in the sandbox before enabling it'')
     else Inr s)"

definition provider_config_of :: "oidc_settings \<Rightarrow> provider_name \<Rightarrow> provider_config" where
  "provider_config_of s p = (case p of Google \<Rightarrow> oi_google s | Yahoo \<Rightarrow> oi_yahoo s)"

datatype intent = Login | Link | Reauthenticate

definition intent_value :: "intent \<Rightarrow> string" where
  "intent_value i = (case i of Login \<Rightarrow> ''login'' | Link \<Rightarrow> ''link'' | Reauthenticate \<Rightarrow> ''reauthenticate'')"

record attempt =
  at_attempt_id :: uuid
  at_provider :: provider_name
  at_intent :: intent
  at_browser_hash :: string
  at_nonce :: string
  at_verifier :: string
  at_redirect_uri :: string
  at_return_path :: string
  at_actor_id :: "uuid option"
  at_session_id :: "uuid option"
  at_started_at :: int

definition validate_actor_binding :: "attempt \<Rightarrow> exn + attempt" where
  "validate_actor_binding a =
     (let has_actor = (at_actor_id a \<noteq> None); has_session = (at_session_id a \<noteq> None) in
      if at_intent a = Login \<and> (has_actor \<or> has_session)
      then Inl (ValueError ''login attempts must not carry a local actor'')
      else if at_intent a \<noteq> Login \<and> \<not> (has_actor \<and> has_session)
      then Inl (ValueError ''link and reauthentication attempts require a local actor'')
      else Inr a)"

record verified_identity =
  vi_provider :: provider_name
  vi_subject :: string
  vi_email :: "string option"
  vi_email_verified :: bool
  vi_auth_time :: "int option"

section \<open>The attempt store\<close>

definition attempt_key :: "ident_env \<Rightarrow> string \<Rightarrow> string \<Rightarrow> string" where
  "attempt_key en ns state = ''ekumidayomi:'' @ ns @ '':auth:v1:oidc:'' @ en_sha256 en state"

text \<open>\<open>SET key value NX\<close>: stores only under a key that is not there.\<close>

definition create_attempt ::
  "ident_env \<Rightarrow> string \<Rightarrow> (attempt \<Rightarrow> string) \<Rightarrow> string \<Rightarrow> attempt \<Rightarrow> cache_world \<Rightarrow> (exn + string) \<times> cache_world" where
  "create_attempt en ns dump state a w =
     (if \<not> cw_up w then (Inl (app_error IdentityUnavailableError), w)
      else if cw_store w (attempt_key en ns state) \<noteq> None then (Inl (app_error IdentityUnavailableError), w)
      else (Inr state, w\<lparr>cw_store := (cw_store w)(attempt_key en ns state \<mapsto> dump a)\<rparr>))"

definition getdel :: "string \<Rightarrow> cache_world \<Rightarrow> (exn + string option) \<times> cache_world" where
  "getdel k w = (if cw_up w then (Inr (cw_store w k), w\<lparr>cw_store := (cw_store w)(k := None)\<rparr>) else (Inl RedisError, w))"

definition consume_attempt ::
  "ident_env \<Rightarrow> string \<Rightarrow> (string \<Rightarrow> attempt option) \<Rightarrow> string \<Rightarrow> string \<Rightarrow> provider_name \<Rightarrow> cache_world \<Rightarrow>
   (exn + attempt) \<times> cache_world" where
  "consume_attempt en ns load state browser provider w =
     (if \<not> (20 \<le> length state \<and> length state \<le> 128) \<or> \<not> (20 \<le> length browser \<and> length browser \<le> 128)
      then (Inl (app_error ExternalLoginFailedError), w)
      else (case getdel (attempt_key en ns state) w of
        (Inl e, w') \<Rightarrow> (Inl (app_error IdentityUnavailableError), w')
      | (Inr None, w') \<Rightarrow> (Inl (app_error ExternalLoginFailedError), w')
      | (Inr (Some raw), w') \<Rightarrow> (case load raw of
          None \<Rightarrow> (Inl (app_error ExternalLoginFailedError), w')
        | Some a \<Rightarrow>
            if at_provider a \<noteq> provider \<or> at_browser_hash a \<noteq> en_sha256 en browser
            then (Inl (app_error ExternalLoginFailedError), w')
            else (Inr a, w'))))"

section \<open>Audit events\<close>

definition identity_event :: "audit_actor \<Rightarrow> string \<Rightarrow> uuid \<Rightarrow> string \<Rightarrow> (string \<times> pyval) list \<Rightarrow> audit_event" where
  "identity_event a action target cid md = \<lparr>ae_actor = a, ae_action = action, ae_target_type = ''user'',
     ae_target_id = target, ae_outcome = Audit_Succeeded, ae_metadata = md, ae_allowed_keys = map fst md,
     ae_correlation_id = cid\<rparr>"

definition identity_linked :: "audit_actor \<Rightarrow> uuid \<Rightarrow> string \<Rightarrow> provider_name \<Rightarrow> audit_event" where
  "identity_linked a target cid p = identity_event a ''identity.provider_linked'' target cid
     [(''provider'', VStr (provider_value p))]"

definition identity_unlinked :: "audit_actor \<Rightarrow> uuid \<Rightarrow> string \<Rightarrow> provider_name \<Rightarrow> audit_event" where
  "identity_unlinked a target cid p = identity_event a ''identity.provider_unlinked'' target cid
     [(''provider'', VStr (provider_value p))]"

definition external_login_succeeded :: "audit_actor \<Rightarrow> uuid \<Rightarrow> string \<Rightarrow> provider_name \<Rightarrow> audit_event" where
  "external_login_succeeded a target cid p = identity_event a ''identity.login_succeeded'' target cid
     [(''method'', VStr ''oidc''), (''provider'', VStr (provider_value p))]"

definition external_reauthentication_succeeded :: "audit_actor \<Rightarrow> uuid \<Rightarrow> string \<Rightarrow> provider_name \<Rightarrow> audit_event" where
  "external_reauthentication_succeeded a target cid p = identity_event a ''identity.reauthentication_succeeded'' target cid
     [(''method'', VStr ''oidc''), (''provider'', VStr (provider_value p))]"

definition external_login_failed :: "attempt \<Rightarrow> string \<Rightarrow> audit_event" where
  "external_login_failed a cid = \<lparr>ae_actor = anonymous_actor, ae_action = ''identity.external_login_failed'',
     ae_target_type = ''external_login_attempt'', ae_target_id = at_attempt_id a, ae_outcome = Audit_Denied,
     ae_metadata = [(''provider'', VStr (provider_value (at_provider a))), (''intent'', VStr (intent_value (at_intent a)))],
     ae_allowed_keys = [''provider'', ''intent''], ae_correlation_id = cid\<rparr>"

definition audit_actor_of :: "user \<Rightarrow> exn + audit_actor" where
  "audit_actor_of x = (case role_of (us_role x) of
     None \<Rightarrow> Inl (app_error ExternalLoginFailedError)
   | Some r \<Rightarrow> Inr \<lparr>aa_kind = (if r = Admin then Administrator_Actor else Customer_Actor), aa_actor_id = Some (us_id x)\<rparr>)"

definition actor_from_session :: "actor \<Rightarrow> audit_actor" where
  "actor_from_session a = \<lparr>aa_kind = (if ac_role a = Admin then Administrator_Actor else Customer_Actor),
     aa_actor_id = Some (ac_user_id a)\<rparr>"

section \<open>The service\<close>

text \<open>A list of results as the result of a list, raising the first exception.\<close>

fun those_r :: "('e + 'a) list \<Rightarrow> 'e + 'a list" where
  "those_r [] = Inr []"
| "those_r (r # rs) = bind_r r (\<lambda>x. bind_r (those_r rs) (\<lambda>xs. Inr (x # xs)))"

text \<open>\<open>ORDER BY provider\<close>.\<close>

definition sort_strings :: "string list \<Rightarrow> string list" where
  "sort_strings ss = sort_key (map (\<lambda>c. ord c)) ss"

text \<open>
  \<open>clk n\<close> is the \<open>n\<close>-th reading of the clock; \<open>secret\<close> and \<open>session_id\<close> are those of the session that
  may be issued, \<open>fi\<close> holds the other fresh identifiers.
\<close>

definition find_identity :: "verified_identity \<Rightarrow> external_identity option id_prog" where
  "find_identity vi = query (\<lambda>db. get_row (\<lambda>e. (ei_provider e, ei_subject e)) (id_identities db)
     (provider_value (vi_provider vi), vi_subject vi))"

definition user_identity :: "uuid \<Rightarrow> provider_name \<Rightarrow> external_identity option id_prog" where
  "user_identity i p = query (\<lambda>db. get_row (\<lambda>e. (ei_user_id e, ei_provider e)) (id_identities db) (i, provider_value p))"

definition insert_identity :: "external_identity \<Rightarrow> unit id_prog" where
  "insert_identity e = session_op (\<lambda>db. let es = id_identities db @ [e] in
     if unique_key ei_id es \<and> unique_key (\<lambda>e. (ei_provider e, ei_subject e)) es \<and>
        unique_key (\<lambda>e. (ei_user_id e, ei_provider e)) es
     then Inr ((), db\<lparr>id_identities := es\<rparr>) else Inl (IntegrityError ''external_identities''))"

definition touch_identity :: "uuid \<Rightarrow> instant \<Rightarrow> identity_db \<Rightarrow> identity_db" where
  "touch_identity i now db = db\<lparr>id_identities := update_ids ei_id [i] (\<lambda>e. e\<lparr>ei_last_login_at := now\<rparr>) (id_identities db)\<rparr>"

definition set_authenticated :: "uuid \<Rightarrow> instant \<Rightarrow> identity_db \<Rightarrow> identity_db" where
  "set_authenticated i now db = db\<lparr>id_sessions := update_ids as_id [i] (\<lambda>r. r\<lparr>as_authenticated_at := now\<rparr>) (id_sessions db)\<rparr>"

definition record_failed_handshake :: "ident_env \<Rightarrow> instant \<Rightarrow> uuid \<Rightarrow> attempt \<Rightarrow> string \<Rightarrow> unit id_prog" where
  "record_failed_handshake en now audit_id a cid =
     bnd rollback (\<lambda>_.
     bnd (audit (record_event (en_case en) (en_float en) now audit_id (external_login_failed a cid))) (\<lambda>_.
     commit))"

text \<open>The actor of a link or reauthentication is the one that began it.\<close>

definition bound_actor :: "attempt \<Rightarrow> actor option \<Rightarrow> exn + actor" where
  "bound_actor a ac = (case ac of
     None \<Rightarrow> Inl (app_error ExternalLoginFailedError)
   | Some x \<Rightarrow> if Some (ac_user_id x) \<noteq> at_actor_id a \<or> Some (ac_session_id x) \<noteq> at_session_id a
       then Inl (app_error ExternalLoginFailedError) else Inr x)"

definition finish_reauthentication ::
  "ident_env \<Rightarrow> (nat \<Rightarrow> instant) \<Rightarrow> fresh_ids \<Rightarrow> verified_identity \<Rightarrow> external_identity option \<Rightarrow> actor \<Rightarrow> user \<Rightarrow> string \<Rightarrow>
   string option id_prog" where
  "finish_reauthentication en clk fi vi linked ac x cid = (case linked of
     None \<Rightarrow> throw (app_error ExternalLoginFailedError)
   | Some ext \<Rightarrow>
       if ei_user_id ext \<noteq> ac_user_id ac \<or> vi_auth_time vi = None then throw (app_error ExternalLoginFailedError)
       else bnd (query (\<lambda>db. get_row as_id (id_sessions db) (ac_session_id ac))) (\<lambda>session. case session of
         None \<Rightarrow> throw (app_error ExternalLoginFailedError)
       | Some r \<Rightarrow>
           if as_revoked_at r \<noteq> None \<or> as_expires_at r \<le> clk 2 then throw (app_error ExternalLoginFailedError)
           else
             bnd (modify (set_authenticated (as_id r) (clk 3))) (\<lambda>_.
             bnd (modify (touch_identity (ei_id ext) (clk 4))) (\<lambda>_.
             bnd (audit (record_event (en_case en) (en_float en) (clk 5) (fi_audit fi)
               (external_reauthentication_succeeded (actor_from_session ac) (us_id x) cid (vi_provider vi)))) (\<lambda>_.
             bnd commit (\<lambda>_. ret None))))))"

text \<open>The user that a login with this identity is for.\<close>

definition login_user ::
  "ident_env \<Rightarrow> (nat \<Rightarrow> instant) \<Rightarrow> fresh_ids \<Rightarrow> verified_identity \<Rightarrow> external_identity option \<Rightarrow> user id_prog" where
  "login_user en clk fi vi linked = (case linked of
     Some ext \<Rightarrow> bnd (find_user_by_id (ei_user_id ext)) (\<lambda>xo. case xo of
         None \<Rightarrow> throw (app_error ExternalLoginFailedError)
       | Some x \<Rightarrow> if \<not> us_is_active x \<or> us_email_verified_at x = None then throw (app_error ExternalLoginFailedError)
           else ret x)
   | None \<Rightarrow>
       if \<not> truthy (vi_email vi) \<or> \<not> vi_email_verified vi then throw (app_error ExternalLoginFailedError)
       else bnd (catch (lift_r (normalize_email en (the (vi_email vi)))) (is_app InvalidEmailError)
              (\<lambda>_. throw (app_error ExternalLoginFailedError))) (\<lambda>email.
         bnd (find_user_by_email en email) (\<lambda>xo.
         if xo \<noteq> None then throw (app_error ExternalLoginFailedError)
         else bnd (create_customer en (clk 2) (fi_user fi) email) (\<lambda>y.
           bnd (modify (update_user (us_id y) (\<lambda>z. z\<lparr>us_email_verified_at := Some (clk 3)\<rparr>))) (\<lambda>_.
           ret (y\<lparr>us_email_verified_at := Some (clk 3)\<rparr>))))))"

text \<open>The user a link is for, after the checks that neither side is linked already.\<close>

definition link_user ::
  "verified_identity \<Rightarrow> external_identity option \<Rightarrow> user \<Rightarrow> user id_prog" where
  "link_user vi linked x = (case linked of
     Some ext \<Rightarrow> if ei_user_id ext = us_id x then throw (app_error ProviderAlreadyLinkedError)
       else throw (app_error ExternalLoginFailedError)
   | None \<Rightarrow> bnd (user_identity (us_id x) (vi_provider vi)) (\<lambda>already.
       if already \<noteq> None then throw (app_error ProviderAlreadyLinkedError) else ret x))"

definition link_identity ::
  "ident_env \<Rightarrow> (nat \<Rightarrow> instant) \<Rightarrow> fresh_ids \<Rightarrow> verified_identity \<Rightarrow> external_identity option \<Rightarrow> user \<Rightarrow> string \<Rightarrow> unit id_prog" where
  "link_identity en clk fi vi linked x cid = (case linked of
     None \<Rightarrow>
       bnd (lift_r (audit_actor_of x)) (\<lambda>a.
       bnd (audit (record_event (en_case en) (en_float en) (clk 5) (fi_audit fi)
              (identity_linked a (us_id x) cid (vi_provider vi)))) (\<lambda>_.
       insert_identity \<lparr>ei_id = fi_row fi, ei_user_id = us_id x, ei_provider = provider_value (vi_provider vi),
         ei_subject = vi_subject vi,
         ei_email_snapshot = (if truthy (vi_email vi) then Some (take 320 (the (vi_email vi))) else None),
         ei_email_verified = vi_email_verified vi, ei_last_login_at = clk 4\<rparr>))
   | Some ext \<Rightarrow> modify (touch_identity (ei_id ext) (clk 4)))"

definition open_session ::
  "ident_env \<Rightarrow> auth_settings \<Rightarrow> (nat \<Rightarrow> instant) \<Rightarrow> fresh_ids \<Rightarrow> string \<Rightarrow> uuid \<Rightarrow> verified_identity \<Rightarrow> user \<Rightarrow> string \<Rightarrow>
   string option id_prog" where
  "open_session en st clk fi secret session_id vi x cid =
     bnd (issue_session en st (clk 6) secret session_id x) (\<lambda>sec.
     bnd (query (\<lambda>db. get_row as_secret_hash (id_sessions db) (en_sha256 en sec))) (\<lambda>session. case session of
       None \<Rightarrow> throw (app_error ExternalLoginFailedError)
     | Some r \<Rightarrow>
         bnd (modify (set_authenticated (as_id r) (clk 7 - secs (st_recent_auth_seconds st + 1)))) (\<lambda>_.
         bnd (lift_r (audit_actor_of x)) (\<lambda>a.
         bnd (audit (record_event (en_case en) (en_float en) (clk 8) (fi_audit2 fi)
              (external_login_succeeded a (us_id x) cid (vi_provider vi)))) (\<lambda>_.
         bnd commit (\<lambda>_. ret (Some sec)))))))"

definition finish_oidc ::
  "ident_env \<Rightarrow> auth_settings \<Rightarrow> (nat \<Rightarrow> instant) \<Rightarrow> fresh_ids \<Rightarrow> string \<Rightarrow> uuid \<Rightarrow> verified_identity \<Rightarrow> attempt \<Rightarrow>
   actor option \<Rightarrow> string \<Rightarrow> string option id_prog" where
  "finish_oidc en st clk fi secret session_id vi a ac cid =
     (if vi_provider vi \<noteq> at_provider a then throw (app_error ExternalLoginFailedError)
      else bnd (find_identity vi) (\<lambda>linked.
        if at_intent a = Login then
          bnd (login_user en clk fi vi linked) (\<lambda>x.
          bnd (link_identity en clk fi vi linked x cid) (\<lambda>_.
          open_session en st clk fi secret session_id vi x cid))
        else
          bnd (lift_r (bound_actor a ac)) (\<lambda>actor.
          bnd (authorize (clk 0) (clk 1) actor Profile_Write
                 (if at_intent a = Link then Some (st_recent_auth_seconds st) else None)) (\<lambda>x.
          if at_intent a = Reauthenticate then finish_reauthentication en clk fi vi linked actor x cid
          else
            bnd (link_user vi linked x) (\<lambda>y.
            bnd (link_identity en clk fi vi linked y cid) (\<lambda>_.
            bnd commit (\<lambda>_. ret None)))))))"

definition list_identities :: "(nat \<Rightarrow> instant) \<Rightarrow> actor \<Rightarrow> provider_name list id_prog" where
  "list_identities clk ac =
     bnd (authorize (clk 0) (clk 1) ac Profile_Write None) (\<lambda>_.
     bnd (query (\<lambda>db. map ei_provider (filter (\<lambda>e. ei_user_id e = ac_user_id ac) (id_identities db)))) (\<lambda>ps.
     lift_r (those_r (map provider_of (sort_strings ps)))))"

definition unlink ::
  "ident_env \<Rightarrow> auth_settings \<Rightarrow> (nat \<Rightarrow> instant) \<Rightarrow> uuid \<Rightarrow> actor \<Rightarrow> provider_name \<Rightarrow> string \<Rightarrow> unit id_prog" where
  "unlink en st clk audit_id ac p cid =
     bnd (user_identity (ac_user_id ac) p) (\<lambda>first.
     if first = None then throw (app_error ExternalLoginFailedError)
     else
       bnd (authorize (clk 0) (clk 1) ac Profile_Write (Some (st_recent_auth_seconds st))) (\<lambda>_.
       bnd (user_identity (ac_user_id ac) p) (\<lambda>existing. case existing of
         None \<Rightarrow> throw (app_error ExternalLoginFailedError)
       | Some e \<Rightarrow>
           bnd (query (\<lambda>db. count_where (\<lambda>e. ei_user_id e = ac_user_id ac) (id_identities db))) (\<lambda>n.
           bnd (find_credential (ac_user_id ac)) (\<lambda>password.
           if n \<le> 1 \<and> password = None then throw (app_error FinalLoginMethodError)
           else
             bnd (modify (\<lambda>db. db\<lparr>id_identities := delete_where (\<lambda>x. ei_id x = ei_id e) (id_identities db)\<rparr>)) (\<lambda>_.
             bnd (audit (record_event (en_case en) (en_float en) (clk 2) audit_id
                (identity_unlinked (actor_from_session ac) (ac_user_id ac) cid p))) (\<lambda>_.
             commit)))))))"

section \<open>The callback\<close>

definition handshake ::
  "ident_env \<Rightarrow> auth_settings \<Rightarrow> string \<Rightarrow> (nat \<Rightarrow> instant) \<Rightarrow> fresh_ids \<Rightarrow> string \<Rightarrow> uuid \<Rightarrow> oidc_settings \<Rightarrow>
   (string \<Rightarrow> attempt \<Rightarrow> exn + verified_identity) \<Rightarrow> provider_name \<Rightarrow> string option \<Rightarrow> string option \<Rightarrow> string option \<Rightarrow>
   attempt \<Rightarrow> string \<Rightarrow> string option id_prog" where
  "handshake en st ns clk fi secret session_id oi exchange provider cd err cookie a cid =
     (if err \<noteq> None \<or> \<not> truthy cd \<or> \<not> cf_enabled (provider_config_of oi provider)
      then throw (app_error ExternalLoginFailedError)
      else
        bnd (if at_intent a = Login then ret None
             else bnd (resolve en ns (clk 9) cookie) (\<lambda>x. ret (Some x))) (\<lambda>ac.
        bnd (lift_r (exchange (the cd) a)) (\<lambda>vi.
        finish_oidc en st clk fi secret session_id vi a ac cid)))"

definition callback ::
  "ident_env \<Rightarrow> auth_settings \<Rightarrow> string \<Rightarrow> (nat \<Rightarrow> instant) \<Rightarrow> fresh_ids \<Rightarrow> string \<Rightarrow> uuid \<Rightarrow> oidc_settings \<Rightarrow>
   (string \<Rightarrow> attempt option) \<Rightarrow> (string \<Rightarrow> attempt \<Rightarrow> exn + verified_identity) \<Rightarrow>
   provider_name \<Rightarrow> string \<Rightarrow> string \<Rightarrow> string option \<Rightarrow> string option \<Rightarrow> string option \<Rightarrow> string \<Rightarrow> (string \<times> string option) id_prog" where
  "callback en st ns clk fi secret session_id oi load exchange provider state browser cd err cookie cid =
     bnd (outside (consume_attempt en ns load state browser provider)) (\<lambda>a.
     bnd (catch (handshake en st ns clk fi secret session_id oi exchange provider cd err cookie a cid)
        (\<lambda>e. is_app AuthenticationRequiredError e \<or> is_app ExternalLoginFailedError e)
        (\<lambda>e. bnd (record_failed_handshake en (clk 10) (fi_target fi) a cid) (\<lambda>_.
           throw (if is_app ExternalLoginFailedError e then e else app_error ExternalLoginFailedError)))) (\<lambda>sec.
     ret (at_return_path a, sec)))"

section \<open>The system invariant\<close>

lemma keeps_insert_identity [keeps_rules]: "keeps (sys_inv n a0 adm) (insert_identity e)"
  unfolding insert_identity_def
  by (rule keeps_session_op) (auto simp: Let_def intro!: sys_inv_identities split: if_splits)

lemma keeps_touch_identity [keeps_rules]: "keeps (sys_inv n a0 adm) (modify (touch_identity i t))"
  by (rule keeps_modify) (auto simp: touch_identity_def unique_key_update_ids sys_inv_identitiesD intro!: sys_inv_identities)

lemma keeps_set_authenticated [keeps_rules]: "keeps (sys_inv n a0 adm) (modify (set_authenticated i t))"
  by (rule keeps_modify) (auto simp: set_authenticated_def unique_key_update_ids sys_inv_unique intro!: sys_inv_sessions)

lemma keeps_delete_identity [keeps_rules]:
  "keeps (sys_inv n a0 adm) (modify (\<lambda>db. db\<lparr>id_identities := delete_where P (id_identities db)\<rparr>))"
  by (rule keeps_modify) (auto simp: unique_key_delete_where sys_inv_identitiesD intro!: sys_inv_identities)

lemma keeps_identity_queries [keeps_rules]: "keeps I (find_identity vi)" "keeps I (user_identity i p)"
  by (simp_all add: find_identity_def user_identity_def keeps_query)

lemma keeps_record_failed_handshake [keeps_rules]: "keeps (sys_inv n a0 adm) (record_failed_handshake en t i a cid)"
  unfolding record_failed_handshake_def by (intro keeps_rules)

lemma keeps_finish_oidc [keeps_rules]:
  "keeps (sys_inv n a0 adm) (finish_oidc en st clk fi secret session_id vi a ac cid)"
  unfolding finish_oidc_def finish_reauthentication_def login_user_def link_user_def link_identity_def open_session_def
  by (intro keeps_rules)

lemma keeps_callback:
  "keeps (sys_inv n a0 adm) (callback en st ns clk fi secret session_id oi load exchange provider state browser cd err cookie cid)"
  unfolding callback_def handshake_def by (intro keeps_rules)

lemma keeps_unlink: "keeps (sys_inv n a0 adm) (unlink en st clk audit_id ac p cid)"
  unfolding unlink_def by (intro keeps_rules)

end
