(* ===== verification/Auth_Security.thy ===== *)
theory Auth_Security
  imports Users_Service Oidc
begin

text \<open>
  What the authentication services promise, on whole requests: a request is a program run in a fresh
  unit of work (\<open>run_tx\<close>) from a database that satisfies the unique keys.
\<close>

section \<open>Concrete values\<close>

definition demo_world :: cache_world where
  "demo_world = \<lparr>cw_up = True, cw_store = Map.empty\<rparr>"

definition demo_attempt :: attempt where
  "demo_attempt = \<lparr>at_attempt_id = 9, at_provider = Google, at_intent = Login, at_browser_hash = replicate 20 CHR ''b'',
     at_nonce = [], at_verifier = [], at_redirect_uri = [], at_return_path = ''/profile'', at_actor_id = None,
     at_session_id = None, at_started_at = 0\<rparr>"

definition demo_identity :: external_identity where
  "demo_identity = \<lparr>ei_id = 5, ei_user_id = 1, ei_provider = ''google'', ei_subject = ''s'', ei_email_snapshot = None,
     ei_email_verified = True, ei_last_login_at = 0\<rparr>"

definition demo_credential :: password_credential where
  "demo_credential = \<lparr>pc_user_id = 1, pc_password_hash = replicate 15 CHR ''p''\<rparr>"

definition demo_linked_db :: identity_db where
  "demo_linked_db = demo_db\<lparr>id_identities := [demo_identity], id_credentials := [demo_credential]\<rparr>"

definition demo_settings :: auth_settings where
  "demo_settings = \<lparr>st_session_seconds = 604800, st_cache_seconds = 60, st_challenge_seconds = 600, st_challenge_attempts = 5,
     st_resend_seconds = 60, st_recent_auth_seconds = 300, st_allowed_origins = [], st_challenge_keys = (\<lambda>v. Some ''k''),
     st_active_challenge_key = ''v1''\<rparr>"

definition demo_ids :: fresh_ids where
  "demo_ids = \<lparr>fi_row = 11, fi_decoy = 12, fi_event = 13, fi_message = 14, fi_audit = 15, fi_audit2 = 16,
     fi_correlation = 17, fi_target = 18, fi_user = 19\<rparr>"

definition demo_verified :: verified_identity where
  "demo_verified = \<lparr>vi_provider = Google, vi_subject = ''s'', vi_email = None, vi_email_verified = False, vi_auth_time = None\<rparr>"

definition demo_challenge_db :: "string \<Rightarrow> identity_db" where
  "demo_challenge_db h = demo_linked_db\<lparr>id_challenges := [\<lparr>ec_id = 31, ec_email = ''a@b.c'', ec_purpose = ''password_reset'',
     ec_key_version = ''v1'', ec_code_hash = h, ec_attempts = 0, ec_created_at = 0, ec_expires_at = 100, ec_consumed_at = None\<rparr>]\<rparr>"

definition demo_password :: string where "demo_password = ''correct horse battery''"

section \<open>Sessions end\<close>

lemma demo_linked_ok: "id_ok demo_linked_db"
  by (simp add: id_ok_def demo_linked_db_def demo_db_def empty_db_def unique_key_def)

text \<open>No secret identifies the user \<open>i\<close>, whatever the cache holds and at whatever time.\<close>

definition signed_out :: "uuid \<Rightarrow> identity_db \<Rightarrow> bool" where
  "signed_out i db \<longleftrightarrow> (\<forall>en ns t sec w a. fst (run_tx (resolve en ns t sec) db w) = Inr a \<longrightarrow> ac_user_id a \<noteq> i)"

lemma resolve_result: "id_ok db \<Longrightarrow> fst (run_tx (resolve en ns t sec) db w) = resolve_spec en t sec db"
  using resolve_refines [of "started db w" en ns t sec] by (auto simp: run_tx_started)

lemma signed_outI:
  assumes "id_ok db" "\<And>r. r \<in> set (id_sessions db) \<Longrightarrow> as_user_id r = i \<Longrightarrow> as_revoked_at r \<noteq> None"
  shows "signed_out i db"
  unfolding signed_out_def resolve_result [OF assms(1)] resolve_spec_Inr [OF assms(1)] in_live_rows
  using assms(2) by fastforce

definition revoke_rows :: "instant \<Rightarrow> uuid \<Rightarrow> uuid option \<Rightarrow> identity_db \<Rightarrow> identity_db" where
  "revoke_rows now i j db = db\<lparr>id_sessions := update_where (revocable i j) (\<lambda>r. r\<lparr>as_revoked_at := Some now\<rparr>) (id_sessions db)\<rparr>"

lemma revoke_run:
  "active s \<Longrightarrow> revoke ns now i j s = (Inr u, s') \<longleftrightarrow>
    s' = s\<lparr>working := revoke_rows now i j (working s), in_tx := True,
      callbacks := callbacks s @ [drop_keys (map (session_key ns) (map as_secret_hash (filter (revocable i j) (id_sessions (working s)))))]\<rparr>"
  by (auto simp: revoke_def run_simps revoke_rows_def)

lemma revoke_rows_all:
  assumes "r \<in> set (id_sessions (revoke_rows now i None db))" "as_user_id r = i"
  shows "as_revoked_at r \<noteq> None"
proof -
  from assms(1) obtain q where q: "r = (if revocable i None q then q\<lparr>as_revoked_at := Some now\<rparr> else q)"
    unfolding revoke_rows_def update_where_def by fastforce
  show ?thesis
  proof (cases "revocable i None q")
    case True
    with q show ?thesis by simp
  next
    case False
    then have "r = q" using q by simp
    with False assms(2) show ?thesis by (simp add: revocable_def)
  qed
qed

lemma revoke_rows_others:
  "filter (\<lambda>r. as_user_id r \<noteq> i) (id_sessions (revoke_rows now i j db)) = filter (\<lambda>r. as_user_id r \<noteq> i) (id_sessions db)"
proof -
  have "filter (\<lambda>r. as_user_id r \<noteq> i) (update_where (revocable i j) (\<lambda>r. r\<lparr>as_revoked_at := Some now\<rparr>) xs) =
    filter (\<lambda>r. as_user_id r \<noteq> i) xs" for xs
    by (induction xs) (auto simp: update_where_def revocable_def)
  then show ?thesis by (simp add: revoke_rows_def)
qed

lemma id_ok_revoke_rows: "id_ok db \<Longrightarrow> id_ok (revoke_rows now i j db)"
  by (simp add: id_ok_def revoke_rows_def unique_key_update_where)

text \<open>
  Logging out everywhere ends every session. After \<open>logout_all\<close> no secret identifies the user any
  more, even when Redis still holds hints or was down when the cached keys should have been dropped;
  the sessions of other users are as they were.
\<close>

lemma logout_all_ends_sessions:
  assumes ok: "id_ok db" and r: "run_tx (logout_all ns clk ac) db w = (Inr u, db', w')"
  shows "signed_out (ac_user_id ac) db' \<and> id_users db' = id_users db \<and>
    filter (\<lambda>r. as_user_id r \<noteq> ac_user_id ac) (id_sessions db') = filter (\<lambda>r. as_user_id r \<noteq> ac_user_id ac) (id_sessions db)"
proof -
  have db': "db' = revoke_rows (clk 0) (ac_user_id ac) None db"
    using r by (auto simp: run_tx_eq logout_all_def find_user_by_id_def run_simps revoke_run)
  then have "signed_out (ac_user_id ac) db'"
    using id_ok_revoke_rows [OF ok] by (intro signed_outI) (auto dest: revoke_rows_all)
  moreover have "id_users db' = id_users db" by (simp add: db' revoke_rows_def)
  ultimately show ?thesis using db' revoke_rows_others by simp
qed

section \<open>Challenges\<close>

definition spend_attempt :: "uuid \<Rightarrow> identity_db \<Rightarrow> identity_db" where
  "spend_attempt i = update_challenge i (\<lambda>c. c\<lparr>ec_attempts := ec_attempts c + 1\<rparr>)"

definition mark_consumed :: "uuid \<Rightarrow> instant \<Rightarrow> identity_db \<Rightarrow> identity_db" where
  "mark_consumed i t = update_challenge i (\<lambda>c. c\<lparr>ec_consumed_at := Some t\<rparr>)"

lemma consume_run:
  assumes "active s" "consume_or_commit en st clk fi i cd purpose s = (Inr c', s')"
  shows "\<exists>c. get_row ec_id (id_challenges (working s)) i = Some c \<and> challenge_open st (clk 0) purpose c \<and>
    code_digest en st c cd = Inr (ec_code_hash c) \<and> ec_email c' = ec_email c \<and>
    s' = s\<lparr>working := mark_consumed i (clk 1) (spend_attempt i (working s)), in_tx := True\<rparr>"
  using assms
  by (auto simp: consume_or_commit_def consume_challenge_def Let_def run_simps mark_consumed_def spend_attempt_def
      split: if_splits)

text \<open>A code that is wrong, or comes when the challenge is no longer open, is refused, counted and recorded.\<close>

lemma consume_refused:
  assumes a: "active s" "callbacks s = []" "working s = durable s"
    and c: "get_row ec_id (id_challenges (working s)) i = Some c" and h: "code_digest en st c cd = Inr h"
    and bad: "\<not> challenge_open st (clk 0) purpose c \<or> h \<noteq> ec_code_hash c"
  shows "\<exists>r s'. consume_or_commit en st clk fi i cd purpose s = (Inl (app_error InvalidChallengeError), s') \<and>
    ar_outcome r = Audit_Denied \<and> ar_target_id r = i \<and> ar_action r = ''auth.challenge_verification_failed'' \<and>
    durable s' = (let db = (if challenge_open st (clk 0) purpose c then spend_attempt i (working s) else working s)
      in db\<lparr>id_audit := id_audit (working s) @ [r]\<rparr>)"
proof -
  let ?ev = "challenge_verification_failed i (correlation None (fi_correlation fi)) purpose"
  obtain r where r: "record_event (en_case en) (en_float en) (clk 0) (fi_audit2 fi) ?ev = Inr r"
    and r': "ar_outcome r = Audit_Denied" "ar_target_id r = i" "ar_action r = ''auth.challenge_verification_failed''"
    using failed_event [of "correlation None (fi_correlation fi)"] valid_uuid_correlation by (auto simp: correlation_def)
  have e: "is_app InvalidChallengeError (app_error InvalidChallengeError)" by (simp add: is_app_def instance_of_def)
  show ?thesis
    using a c h bad r r' e
    by (cases "challenge_open st (clk 0) purpose c")
      (auto simp: consume_or_commit_def consume_challenge_def Let_def prog_defs audit_def spend_attempt_def
        update_challenge_def intro!: exI [of _ r])
qed

lemma bnd_Inl: "p s = (Inl e, s') \<Longrightarrow> bnd p f s = (Inl e, s')"
  by (simp add: bnd_def)

lemma bnd_step: "p s = (Inr x, s') \<Longrightarrow> bnd p f s = f x s'"
  by (simp add: bnd_def)

lemma bnd_lift_Inr: "bnd (lift_r (Inr x)) f = f x"
  by (simp add: fun_eq_iff bnd_def lift_r_def)


lemma validate_new_password_id: "validate_new_password en p = Inr v \<Longrightarrow> v = p"
  by (auto simp: validate_new_password_def result_simps split: if_splits)


lemma normalize_run:
  "active s \<Longrightarrow> find_user_by_email en e s = (Inr xo, s') \<longleftrightarrow>
    (\<exists>n. normalize_email en e = Inr n \<and> xo = get_row us_email (id_users (working s)) n \<and> s' = s\<lparr>in_tx := True\<rparr>)"
  by (auto simp: find_user_by_email_def run_simps)

lemma row_again: "unique_key k tbl \<Longrightarrow> get_row f tbl n = Some x \<Longrightarrow> get_row k tbl (k x) = Some x"
  by (auto dest: get_row_SomeD intro: get_row_unique)

lemma finish_reset_run:
  assumes a: "active s" and u: "unique_key us_id (id_users (working s))"
    and r: "finish_reset en ns clk fi password cid ch s = (Inr u, s')"
  shows "\<exists>x a. x \<in> set (id_users (working s)) \<and> normalize_email en (ec_email ch) = Inr (us_email x) \<and> us_is_active x \<and>
    us_email_verified_at x \<noteq> None \<and> get_row pc_user_id (id_credentials (working s)) (us_id x) \<noteq> None \<and>
    durable s' = (revoke_rows (clk 2) (us_id x) None (set_credential (us_id x) (en_argon_hash en password) (working s)))\<lparr>id_audit := a\<rparr>"
proof -
  obtain n x aud where "normalize_email en (ec_email ch) = Inr n" "get_row us_email (id_users (working s)) n = Some x"
    "us_is_active x" "us_email_verified_at x \<noteq> None" "get_row pc_user_id (id_credentials (working s)) (us_id x) \<noteq> None"
    "durable s' = (revoke_rows (clk 2) (us_id x) None (set_credential (us_id x) (en_argon_hash en password) (working s)))\<lparr>id_audit := aud\<rparr>"
    using a r by (auto simp: finish_reset_def normalize_run find_user_by_id_def find_credential_def run_simps revoke_run audit_def
      hash_password_def validate_password_def result_simps row_again [OF u] split: if_splits)
  then show ?thesis using get_row_SomeD [of us_email "id_users (working s)" n x] by auto
qed

text \<open>
  C24: a completed reset proves control of the mailbox and ends what went before. It succeeds only with
  the right code for an open reset challenge of an active, verified user with a password, and then the
  new password, which passed the policy, is the only one, the challenge is consumed, and no earlier
  session identifies the user any more.
\<close>

theorem reset_replaces_password:
  assumes ok: "id_ok db" and r: "run_tx (complete_reset en st ns clk fi i cd password cid) db w = (Inr u, db', w')"
  shows "\<exists>c x. get_row ec_id (id_challenges db) i = Some c \<and> challenge_open st (clk 0) Password_Reset c \<and>
    code_digest en st c cd = Inr (ec_code_hash c) \<and>
    x \<in> set (id_users db) \<and> normalize_email en (ec_email c) = Inr (us_email x) \<and> us_is_active x \<and> us_email_verified_at x \<noteq> None \<and>
    validate_new_password en password = Inr password \<and>
    get_row pc_user_id (id_credentials db') (us_id x) = Some \<lparr>pc_user_id = us_id x, pc_password_hash = en_argon_hash en password\<rparr> \<and>
    (\<exists>d. get_row ec_id (id_challenges db') i = Some d \<and> ec_consumed_at d = Some (clk 1)) \<and>
    signed_out (us_id x) db'"
proof -
  obtain s' where run: "complete_reset en st ns clk fi i cd password cid (started db w) = (Inr u, s')" and db': "db' = durable s'"
    using r by (auto simp: run_tx_eq)
  obtain ch s1 where k: "consume_or_commit en st clk fi i cd Password_Reset (started db w) = (Inr ch, s1)"
    and s1: "finish_reset en ns clk fi password cid ch s1 = (Inr u, s')" and v: "validate_new_password en password = Inr password"
    using run validate_new_password_id by (fastforce simp: complete_reset_def run_simps)
  obtain c where c: "get_row ec_id (id_challenges db) i = Some c" "challenge_open st (clk 0) Password_Reset c"
    "code_digest en st c cd = Inr (ec_code_hash c)" "ec_email ch = ec_email c"
    and s1': "s1 = (started db w)\<lparr>working := mark_consumed i (clk 1) (spend_attempt i db), in_tx := True\<rparr>"
    using consume_run [OF _ k] by auto
  let ?db = "mark_consumed i (clk 1) (spend_attempt i db)"
  have same: "id_users ?db = id_users db" "id_credentials ?db = id_credentials db" "id_ok ?db"
    using ok by (simp_all add: mark_consumed_def spend_attempt_def update_challenge_def id_ok_def unique_key_update_ids)
  have u: "unique_key us_id (id_users (working s1))" using ok same(1) by (simp add: s1' id_ok_def del: One_nat_def)
  obtain x a where x: "x \<in> set (id_users db)" "normalize_email en (ec_email c) = Inr (us_email x)" "us_is_active x"
      "us_email_verified_at x \<noteq> None" "get_row pc_user_id (id_credentials db) (us_id x) \<noteq> None"
    and d: "db' = (revoke_rows (clk 2) (us_id x) None (set_credential (us_id x) (en_argon_hash en password) ?db))\<lparr>id_audit := a\<rparr>"
    using finish_reset_run [OF _ u s1] by (auto simp: s1' same c db' simp del: One_nat_def)
  have okd: "id_ok db'"
    using id_ok_revoke_rows [of "set_credential (us_id x) (en_argon_hash en password) ?db"] same(3)
    by (simp add: d id_ok_def set_credential_def unique_key_update_ids)
  have "signed_out (us_id x) db'"
    by (rule signed_outI [OF okd]) (auto simp: d dest: revoke_rows_all)
  moreover have "get_row pc_user_id (id_credentials db') (us_id x) = Some \<lparr>pc_user_id = us_id x, pc_password_hash = en_argon_hash en password\<rparr>"
  proof -
    obtain y where y: "get_row pc_user_id (id_credentials db) (us_id x) = Some y" using x(5) by blast
    then have "y\<lparr>pc_password_hash := en_argon_hash en password\<rparr> = \<lparr>pc_user_id = us_id x, pc_password_hash = en_argon_hash en password\<rparr>"
      using get_row_SomeD [OF y] by (cases y) simp
    with y same(2) show ?thesis by (simp add: d revoke_rows_def set_credential_def get_row_update_ids del: One_nat_def)
  qed
  moreover have "\<exists>d. get_row ec_id (id_challenges db') i = Some d \<and> ec_consumed_at d = Some (clk 1)"
    using c(1) by (simp add: d revoke_rows_def set_credential_def mark_consumed_def spend_attempt_def update_challenge_def get_row_update_ids)
  ultimately show ?thesis using c x v by blast
qed

theorem reset_replaces_password_witness:
  "id_ok (demo_challenge_db (hex_fixed 64 0)) \<and>
   signed_out 1 (fst (snd (run_tx (complete_reset demo_env demo_settings ''dev'' (\<lambda>n. 50) demo_ids 31 ''123456'' demo_password ''c'')
     (demo_challenge_db (hex_fixed 64 0)) demo_world)))"
proof -
  let ?p = "complete_reset demo_env demo_settings ''dev'' (\<lambda>n. 50) demo_ids 31 ''123456'' demo_password ''c''"
  let ?db = "demo_challenge_db (hex_fixed 64 0)"
  have ok: "id_ok ?db"
    by (simp add: id_ok_def demo_challenge_db_def demo_linked_db_def demo_db_def empty_db_def unique_key_def)
  have "fst (run_tx ?p ?db demo_world) = Inr ()" by code_simp
  then obtain db' w' where r: "run_tx ?p ?db demo_world = (Inr (), db', w')" by (metis fst_conv prod_cases3)
  obtain x where "x \<in> set (id_users ?db)" "signed_out (us_id x) db'" using reset_replaces_password [OF ok r] by blast
  moreover have "id_users ?db = [demo_user]" by (simp add: demo_challenge_db_def demo_linked_db_def demo_db_def)
  ultimately show ?thesis using ok r by (simp add: demo_user_def)
qed

section \<open>Logging in\<close>

lemma verify_password_None: "\<not> verify_password en None p"
  by (simp add: verify_password_def Let_def)

lemma issue_run:
  "active s \<Longrightarrow> issue_session en st now secret new_id x s = (Inr sec, s') \<longleftrightarrow>
    us_is_active x \<and> us_email_verified_at x \<noteq> None \<and> sec = secret \<and>
    en_sha256 en secret \<notin> as_secret_hash ` set (id_sessions (working s)) \<and> new_id \<notin> as_id ` set (id_sessions (working s)) \<and>
    s' = s\<lparr>working := (working s)\<lparr>id_sessions := id_sessions (working s) @ [\<lparr>as_id = new_id, as_user_id = us_id x,
            as_secret_hash = en_sha256 en secret, as_created_at = now, as_authenticated_at = now,
            as_expires_at = now + secs (st_session_seconds st), as_revoked_at = None\<rparr>]\<rparr>, in_tx := True\<rparr>"
  by (auto simp: issue_session_def run_simps split: if_splits)

text \<open>Revoking the session of another secret leaves the new one alone.\<close>

lemma revoke_previous_run:
  assumes a: "active s" and ok: "id_ok (working s)"
    and r: "revoke_previous en ns clk previous s = (Inr u, s')"
    and n: "\<And>p. previous = Some p \<Longrightarrow> en_sha256 en p \<noteq> h"
  shows "active s' \<and> id_users (working s') = id_users (working s) \<and> id_ok (working s') \<and>
    (\<forall>row \<in> set (id_sessions (working s)). as_secret_hash row = h \<longrightarrow> row \<in> set (id_sessions (working s')))"
proof (cases previous)
  case None
  then show ?thesis using assms by (simp add: revoke_previous_def run_simps)
next
  case (Some p)
  obtain s1 where s1: "resolve en ns (clk 1) (Some p) s = (resolve_spec en (clk 1) (Some p) (working s), s1)" "same_db s s1"
    using resolve_refines [OF ok a] by blast
  show ?thesis
  proof (cases "resolve_spec en (clk 1) (Some p) (working s)")
    case (Inl e)
    then have "s' = s1" using r s1(1) Some by (auto simp: revoke_previous_def run_simps bnd_Inl)
    then show ?thesis using s1(2) a ok by (simp add: same_db_def)
  next
    case (Inr ac)
    from Inr obtain row where row: "row \<in> set (id_sessions (working s))" "as_secret_hash row = en_sha256 en p" "ac_session_id ac = as_id row"
      by (auto simp: resolve_spec_Inr [OF ok] in_live_rows)
    have act: "active s1" using s1(2) a by (simp add: same_db_def)
    have "working s' = revoke_rows (clk 2) (ac_user_id ac) (Some (as_id row)) (working s)" "active s'"
      using r s1 Some Inr row(3) act by (auto simp: revoke_previous_def run_simps revoke_run same_db_def bnd_step ret_def)
    moreover have "q \<in> set (id_sessions (revoke_rows (clk 2) (ac_user_id ac) (Some (as_id row)) (working s)))"
      if q: "q \<in> set (id_sessions (working s))" "as_secret_hash q = h" for q
    proof -
      have "q \<noteq> row" using row(2) n Some q(2) by auto
      then have "\<not> revocable (ac_user_id ac) (Some (as_id row)) q"
        using ok q(1) row(1) by (auto simp: revocable_def id_ok_def dest: unique_keyD)
      then show ?thesis using q(1) by (auto simp: revoke_rows_def set_update_where)
    qed
    ultimately show ?thesis using ok by (simp add: id_ok_revoke_rows) (simp add: revoke_rows_def)
  qed
qed

definition new_session :: "ident_env \<Rightarrow> auth_settings \<Rightarrow> instant \<Rightarrow> string \<Rightarrow> uuid \<Rightarrow> uuid \<Rightarrow> auth_session" where
  "new_session en st now secret new_id i = \<lparr>as_id = new_id, as_user_id = i, as_secret_hash = en_sha256 en secret,
     as_created_at = now, as_authenticated_at = now, as_expires_at = now + secs (st_session_seconds st), as_revoked_at = None\<rparr>"

lemma login_run:
  assumes u: "unique_key us_id (id_users db)"
    and r: "login en st ns clk secret new_id email password previous (started db w) = (Inr sec, s')"
  shows "\<exists>x c creds s2 s3. x \<in> set (id_users db) \<and> normalize_email en email = Inr (us_email x) \<and>
    us_is_active x \<and> us_email_verified_at x \<noteq> None \<and> get_row pc_user_id (id_credentials db) (us_id x) = Some c \<and>
    verify_password en (Some (pc_password_hash c)) password \<and> sec = secret \<and> active s2 \<and>
    en_sha256 en secret \<notin> as_secret_hash ` set (id_sessions db) \<and> new_id \<notin> as_id ` set (id_sessions db) \<and>
    working s2 = db\<lparr>id_credentials := creds, id_sessions := id_sessions db @ [new_session en st (clk 0) secret new_id (us_id x)]\<rparr> \<and>
    (unique_key pc_user_id (id_credentials db) \<longrightarrow> unique_key pc_user_id creds) \<and>
    revoke_previous en ns clk previous s2 = (Inr (), s3) \<and> durable s' = working s3"
proof -
  obtain n x c s1 s2 s3 where n: "normalize_email en email = Inr n" and x: "get_row us_email (id_users db) n = Some x"
    and c: "get_row pc_user_id (id_credentials db) (us_id x) = Some c" "verify_password en (Some (pc_password_hash c)) password"
    and a: "us_is_active x" "us_email_verified_at x \<noteq> None"
    and s1: "(if en_argon_needs_rehash en (pc_password_hash c)
        then bnd (lift_r (hash_password en password)) (\<lambda>h. modify (set_credential (pc_user_id c) h)) else ret ())
        ((started db w)\<lparr>in_tx := True\<rparr>) = (Inr (), s1)"
    and s2: "issue_session en st (clk 0) secret new_id x s1 = (Inr sec, s2)"
    and s3: "revoke_previous en ns clk previous s2 = (Inr (), s3)" "durable s' = working s3"
    using r
    by (auto simp: login_def Let_def run_simps find_user_by_email_def find_user_by_id_def find_credential_def row_again [OF u]
        verify_password_None)
  have s1': "active s1" "\<exists>creds. working s1 = db\<lparr>id_credentials := creds\<rparr> \<and>
      (unique_key pc_user_id (id_credentials db) \<longrightarrow> unique_key pc_user_id creds)"
    using s1 by (auto simp: run_simps set_credential_def unique_key_update_ids intro: exI [of _ "id_credentials db"] split: if_splits)
  then obtain creds where creds: "working s1 = db\<lparr>id_credentials := creds\<rparr>"
    "unique_key pc_user_id (id_credentials db) \<longrightarrow> unique_key pc_user_id creds" by blast
  have "x \<in> set (id_users db)" "n = us_email x" using get_row_SomeD [OF x] by auto
  then show ?thesis
    using n c a s2 s3 creds s1'(1) issue_run [OF s1'(1)]
    by (intro exI [of _ x] exI [of _ c] exI [of _ creds] exI [of _ s2] exI [of _ s3]) (auto simp: new_session_def)
qed

text \<open>
  C23: logging in opens exactly one session, for the right person. When \<open>login\<close> returns a secret, the
  e-mail address belongs to an active, verified user whose stored password hash verifies the password;
  and until it expires the secret identifies that user, with the session just stored, whatever the
  cache holds.
\<close>

theorem login_opens_session:
  assumes ok: "id_ok db" and m: "fullmatch secret_re secret"
    and n: "\<And>p. previous = Some p \<Longrightarrow> en_sha256 en p \<noteq> en_sha256 en secret"
    and r: "run_tx (login en st ns clk secret new_id email password previous) db w = (Inr sec, db', w')"
  shows "sec = secret \<and> (\<exists>x c. x \<in> set (id_users db) \<and> normalize_email en email = Inr (us_email x) \<and>
    us_is_active x \<and> us_email_verified_at x \<noteq> None \<and> get_row pc_user_id (id_credentials db) (us_id x) = Some c \<and>
    verify_password en (Some (pc_password_hash c)) password \<and>
    (\<forall>rl t w2. role_of (us_role x) = Some rl \<and> t < clk 0 + secs (st_session_seconds st) \<longrightarrow>
      fst (run_tx (resolve en ns t (Some secret)) db' w2) =
        Inr \<lparr>ac_user_id = us_id x, ac_session_id = new_id, ac_role = rl, ac_authenticated_at = clk 0\<rparr>))"
proof -
  obtain s' where run: "login en st ns clk secret new_id email password previous (started db w) = (Inr sec, s')"
    and db': "db' = durable s'" using r by (auto simp: run_tx_eq)
  have u: "unique_key us_id (id_users db)" using ok by (simp add: id_ok_def)
  obtain x c creds s2 s3 where x: "x \<in> set (id_users db)" "normalize_email en email = Inr (us_email x)" "us_is_active x"
      "us_email_verified_at x \<noteq> None" "get_row pc_user_id (id_credentials db) (us_id x) = Some c"
      "verify_password en (Some (pc_password_hash c)) password" and sec: "sec = secret" and s2: "active s2"
    and f: "en_sha256 en secret \<notin> as_secret_hash ` set (id_sessions db)" "new_id \<notin> as_id ` set (id_sessions db)"
    and w2: "working s2 = db\<lparr>id_credentials := creds, id_sessions := id_sessions db @ [new_session en st (clk 0) secret new_id (us_id x)]\<rparr>"
    and cr: "unique_key pc_user_id (id_credentials db) \<longrightarrow> unique_key pc_user_id creds"
    and s3: "revoke_previous en ns clk previous s2 = (Inr (), s3)" "durable s' = working s3"
    using login_run [OF u run] by blast
  have ok2: "id_ok (working s2)"
    using ok f cr by (simp add: id_ok_def w2 unique_key_append_row new_session_def)
  note s3' = revoke_previous_run [OF s2 ok2 s3(1) n]
  have row: "new_session en st (clk 0) secret new_id (us_id x) \<in> set (id_sessions db')" "x \<in> set (id_users db')" "id_ok db'"
    using s3' x(1) by (simp_all add: w2 db' s3(2) new_session_def)
  have "resolve_spec en t (Some secret) db' = Inr \<lparr>ac_user_id = us_id x, ac_session_id = new_id, ac_role = rl, ac_authenticated_at = clk 0\<rparr>"
    if "role_of (us_role x) = Some rl" "t < clk 0 + secs (st_session_seconds st)" for rl t
    unfolding resolve_spec_Inr [OF row(3)] using that m row x(3,4)
    by (intro exI [of _ secret] exI [of _ "new_session en st (clk 0) secret new_id (us_id x)"] exI [of _ x] exI [of _ rl])
      (auto simp: in_live_rows new_session_def)
  then show ?thesis using x sec by (auto simp: resolve_result [OF row(3)])
qed

theorem login_opens_session_witness:
  "fst (run_tx (resolve demo_env ''dev'' 60 (Some (replicate 43 CHR ''y'')))
     (fst (snd (run_tx (login demo_env demo_settings ''dev'' (\<lambda>n. 50) (replicate 43 CHR ''y'') 21 ''a@b.c'' (replicate 15 CHR ''p'') None)
       demo_linked_db demo_world))) demo_world) =
   Inr \<lparr>ac_user_id = 1, ac_session_id = 21, ac_role = Admin, ac_authenticated_at = 50\<rparr>"
proof -
  let ?y = "replicate 43 CHR ''y''"
  let ?p = "login demo_env demo_settings ''dev'' (\<lambda>n. 50) ?y 21 ''a@b.c'' (replicate 15 CHR ''p'') None"
  have "isl (fst (run_tx ?p demo_linked_db demo_world)) = False" by code_simp
  then obtain sec db' w' where r: "run_tx ?p demo_linked_db demo_world = (Inr sec, db', w')"
    by (cases "run_tx ?p demo_linked_db demo_world"; cases "fst (run_tx ?p demo_linked_db demo_world)") auto
  have m: "fullmatch secret_re ?y"
    by (simp add: fullmatch_iff_lang secret_re_def in_class_def alnum_def list_all_iff)
  have u: "id_users demo_linked_db = [demo_user]" by (simp add: demo_linked_db_def demo_db_def)
  have "role_of (us_role demo_user) = Some Admin" "us_id demo_user = 1" by (simp_all add: demo_user_def role_of_def)
  moreover have "60 < 50 + secs (st_session_seconds demo_settings)" by (simp add: demo_settings_def secs_def)
  ultimately have "fst (run_tx (resolve demo_env ''dev'' 60 (Some ?y)) db' demo_world) =
      Inr \<lparr>ac_user_id = 1, ac_session_id = 21, ac_role = Admin, ac_authenticated_at = 50\<rparr>"
    using login_opens_session [OF demo_linked_ok m _ r] u by fastforce
  with r show ?thesis by simp
qed

section \<open>External providers\<close>

text \<open>
  C30: an attempt is bound to one browser and one provider and is used once. What the store was given
  under a state comes back to the browser and provider that began it; after any callback that reaches
  the store with this state, whether it was accepted or not, no callback is accepted for it again.
\<close>

theorem attempt_single_use:
  assumes c: "create_attempt en ns dump state a w = (Inr s, w1)"
    and rt: "load (dump a) = Some a"
    and len: "20 \<le> length state" "length state \<le> 128" "20 \<le> length browser" "length browser \<le> 128"
    and k: "consume_attempt en ns load state browser p w1 = (r, w2)"
  shows "(r = Inr a \<longleftrightarrow> p = at_provider a \<and> at_browser_hash a = en_sha256 en browser) \<and>
    (\<forall>b. r = Inr b \<longrightarrow> b = a) \<and>
    (\<forall>browser' p' b w3. consume_attempt en ns load state browser' p' w2 \<noteq> (Inr b, w3))"
proof -
  have w1: "cw_up w1" "cw_store w1 (attempt_key en ns state) = Some (dump a)"
    using c by (auto simp: create_attempt_def split: if_splits)
  have w2: "cw_up w2 \<and> cw_store w2 (attempt_key en ns state) = None"
    using k w1 len by (auto simp: consume_attempt_def getdel_def rt split: if_splits)
  have "consume_attempt en ns load state browser' p' w2 \<noteq> (Inr b, w3)" for browser' p' b w3
    using w2 by (auto simp: consume_attempt_def getdel_def)
  moreover have "(r = Inr a \<longleftrightarrow> p = at_provider a \<and> at_browser_hash a = en_sha256 en browser) \<and> (\<forall>b. r = Inr b \<longrightarrow> b = a)"
    using k w1 len by (auto simp: consume_attempt_def getdel_def rt split: if_splits)
  ultimately show ?thesis by blast
qed

theorem attempt_single_use_witness:
  "fst (consume_attempt demo_env ''dev'' (\<lambda>s. Some demo_attempt) (replicate 20 CHR ''s'') (replicate 20 CHR ''b'') Google
     (snd (create_attempt demo_env ''dev'' (\<lambda>a. []) (replicate 20 CHR ''s'') demo_attempt demo_world))) = Inr demo_attempt"
proof -
  let ?s = "replicate 20 CHR ''s''" and ?b = "replicate 20 CHR ''b''"
  let ?w1 = "snd (create_attempt demo_env ''dev'' (\<lambda>a. []) ?s demo_attempt demo_world)"
  have c: "create_attempt demo_env ''dev'' (\<lambda>a. []) ?s demo_attempt demo_world = (Inr ?s, ?w1)"
    by (simp add: create_attempt_def demo_world_def)
  obtain r w2 where k: "consume_attempt demo_env ''dev'' (\<lambda>s. Some demo_attempt) ?s ?b Google ?w1 = (r, w2)" by fastforce
  have "r = Inr demo_attempt \<longleftrightarrow> Google = at_provider demo_attempt \<and> at_browser_hash demo_attempt = en_sha256 demo_env ?b"
    by (rule attempt_single_use [OF c _ _ _ _ _ k, THEN conjunct1]) simp_all
  then have "r = Inr demo_attempt" by (simp add: demo_attempt_def demo_env_def)
  with k show ?thesis by simp
qed

lemma delete_one_of_many:
  assumes "e \<in> set tbl" "P e" "1 < count_where P tbl" "unique_key key tbl"
  shows "\<exists>r \<in> set (delete_where (\<lambda>x. key x = key e) tbl). P r"
proof (rule ccontr)
  assume "\<not> ?thesis"
  then have "x = e" if "x \<in> set (filter P tbl)" for x using that assms(1,4) by (auto dest: unique_keyD)
  moreover have "distinct (filter P tbl)" using assms(4) by (simp add: unique_key_def distinct_map)
  ultimately have "length (filter P tbl) \<le> 1"
    using distinct_length_filter by (metis card_mono card.empty card_insert_if distinct_card empty_iff finite.emptyI finite.insertI
        One_nat_def singletonI subsetI)
  with assms(3) show False by (simp add: count_where_def)
qed

text \<open>
  C29: removing a provider never locks a user out. When \<open>unlink\<close> succeeds the link to this provider is
  gone, and the user keeps a password or a link to another provider; no other user's links change.
\<close>

theorem unlink_keeps_login_method:
  assumes ok: "id_ok db" and r: "run_tx (unlink en st clk audit_id ac p cid) db w = (Inr u, db', w')"
  shows "(\<forall>e \<in> set (id_identities db'). \<not> (ei_user_id e = ac_user_id ac \<and> ei_provider e = provider_value p)) \<and>
    (get_row pc_user_id (id_credentials db') (ac_user_id ac) \<noteq> None \<or>
     (\<exists>e \<in> set (id_identities db'). ei_user_id e = ac_user_id ac)) \<and>
    filter (\<lambda>e. ei_user_id e \<noteq> ac_user_id ac) (id_identities db') = filter (\<lambda>e. ei_user_id e \<noteq> ac_user_id ac) (id_identities db)"
proof -
  let ?u = "ac_user_id ac"
  obtain e aud where e: "get_row (\<lambda>e. (ei_user_id e, ei_provider e)) (id_identities db) (?u, provider_value p) = Some e"
    and m: "1 < count_where (\<lambda>e. ei_user_id e = ?u) (id_identities db) \<or> get_row pc_user_id (id_credentials db) ?u \<noteq> None"
    and db': "db' = db\<lparr>id_identities := delete_where (\<lambda>x. ei_id x = ei_id e) (id_identities db), id_audit := aud\<rparr>"
    using r by (auto simp: run_tx_eq unlink_def user_identity_def find_credential_def audit_def run_simps authorize_run
        split: if_splits)
  have u: "unique_key ei_id (id_identities db)" "unique_key (\<lambda>e. (ei_user_id e, ei_provider e)) (id_identities db)"
    using ok by (simp_all add: id_ok_def)
  have e': "e \<in> set (id_identities db)" "ei_user_id e = ?u" "ei_provider e = provider_value p"
    using get_row_SomeD [OF e] by auto
  have gone: "\<not> (ei_user_id x = ?u \<and> ei_provider x = provider_value p)" if "x \<in> set (id_identities db')" for x
    using that e' db' unique_keyD [OF u(2), of x e] by auto
  have "filter (\<lambda>e. ei_user_id e \<noteq> ?u) (id_identities db') = filter (\<lambda>e. ei_user_id e \<noteq> ?u) (id_identities db)"
    using e' db' unique_keyD [OF u(1)] by (auto simp: delete_where_def intro!: filter_cong)
  moreover have "get_row pc_user_id (id_credentials db') ?u \<noteq> None \<or> (\<exists>e \<in> set (id_identities db'). ei_user_id e = ?u)"
    using m db' delete_one_of_many [OF e'(1) _ _ u(1), of "\<lambda>e. ei_user_id e = ?u"] e'(2) by auto
  ultimately show ?thesis using gone by blast
qed

theorem unlink_keeps_login_method_witness:
  "filter (\<lambda>e. ei_user_id e \<noteq> 1) (id_identities (fst (snd
     (run_tx (unlink demo_env demo_settings (\<lambda>n. 50) 7 demo_actor Google ''c'') demo_linked_db demo_world)))) = []"
proof -
  let ?p = "unlink demo_env demo_settings (\<lambda>n. 50) 7 demo_actor Google ''c''"
  have "fst (run_tx ?p demo_linked_db demo_world) = Inr ()" by code_simp
  then obtain db' w' where r: "run_tx ?p demo_linked_db demo_world = (Inr (), db', w')" by (metis fst_conv prod_cases3)
  have "ac_user_id demo_actor = 1" "filter (\<lambda>e. ei_user_id e \<noteq> 1) (id_identities demo_linked_db) = []"
    by (simp_all add: demo_actor_def demo_linked_db_def demo_identity_def)
  with unlink_keeps_login_method [OF demo_linked_ok r] r show ?thesis by simp
qed

lemma login_user_run:
  assumes "active s" "login_user en clk fi vi linked s = (Inr x, s')"
  shows "active s' \<and> id_sessions (working s') = id_sessions (working s) \<and> (case linked of
     Some ext \<Rightarrow> us_id x = ei_user_id ext
   | None \<Rightarrow> us_id x = fi_user fi \<and> fi_user fi \<notin> us_id ` set (id_users (working s)) \<and>
      (\<exists>y \<in> set (id_users (working s')). us_id y = fi_user fi \<and> us_email y \<notin> us_email ` set (id_users (working s))))"
  using assms
  by (cases linked) (auto simp: login_user_def run_simps find_user_by_id_def find_user_by_email_def create_customer_def
      insert_user_def update_user_def update_ids_def update_where_append dest!: get_row_SomeD split: if_splits)

lemma link_identity_run:
  assumes "active s" "link_identity en clk fi vi linked x cid s = (Inr u, s')"
  shows "active s' \<and> id_users (working s') = id_users (working s) \<and> id_sessions (working s') = id_sessions (working s)"
  using assms
  by (auto simp: link_identity_def run_simps audit_def insert_identity_def touch_identity_def Let_def split: if_splits)

lemma open_session_run:
  assumes "active s" "open_session en st clk fi secret session_id vi x cid s = (Inr so, s')"
  shows "so = Some secret \<and> id_users (durable s') = id_users (working s) \<and> (\<exists>row \<in> set (id_sessions (durable s')).
    as_secret_hash row = en_sha256 en secret \<and> as_user_id row = us_id x \<and>
    as_authenticated_at row = clk 7 - secs (st_recent_auth_seconds st + 1))"
proof -
  have new: "get_row as_secret_hash (xs @ [r]) h = Some r'' \<Longrightarrow> h \<notin> as_secret_hash ` set xs \<Longrightarrow> r'' = r" for xs r h r''
    by (auto simp: get_row_append get_row_single get_row_None_iff [symmetric] split: if_splits)
  show ?thesis
    using assms
    by (auto simp: open_session_def issue_session_def run_simps audit_def set_authenticated_def update_ids_def
        update_where_append dest!: new split: if_splits)
qed

text \<open>
  C28: an external login reaches an account only through a link that its owner made. When the handshake
  returns a session secret, the session belongs either to the user this provider subject is already
  linked to, or to a user that this request created, with an e-mail address no account had; in
  particular an equal e-mail address never opens an existing account. The session does not count as a
  recent authentication.
\<close>

theorem external_login_no_takeover:
  assumes ok: "id_ok db"
    and r: "run_tx (finish_oidc en st clk fi secret session_id vi a ac cid) db w = (Inr (Some sec), db', w')"
  shows "sec = secret \<and> at_intent a = Login \<and> (\<exists>row \<in> set (id_sessions db').
    as_secret_hash row = en_sha256 en secret \<and>
    as_authenticated_at row = clk 7 - secs (st_recent_auth_seconds st + 1) \<and>
    ((\<exists>e \<in> set (id_identities db). ei_provider e = provider_value (vi_provider vi) \<and> ei_subject e = vi_subject vi \<and>
        ei_user_id e = as_user_id row) \<or>
     (as_user_id row = fi_user fi \<and> fi_user fi \<notin> us_id ` set (id_users db) \<and>
      (\<exists>x \<in> set (id_users db'). us_id x = fi_user fi \<and> us_email x \<notin> us_email ` set (id_users db)))))"
proof -
  obtain s' where run: "finish_oidc en st clk fi secret session_id vi a ac cid (started db w) = (Inr (Some sec), s')"
    and db': "db' = durable s'" using r by (auto simp: run_tx_eq)
  obtain linked x s1 s2 where i: "at_intent a = Login"
    and l: "linked = get_row (\<lambda>e. (ei_provider e, ei_subject e)) (id_identities db) (provider_value (vi_provider vi), vi_subject vi)"
    and u: "login_user en clk fi vi linked ((started db w)\<lparr>in_tx := True\<rparr>) = (Inr x, s1)"
    and k: "link_identity en clk fi vi linked x cid s1 = (Inr (), s2)"
    and o: "open_session en st clk fi secret session_id vi x cid s2 = (Inr (Some sec), s')"
    using run by (auto simp: finish_oidc_def find_identity_def finish_reauthentication_def link_user_def
       run_simps split: if_splits)
  note us = login_user_run [OF _ u, simplified]
  have s1: "active s1" using us by simp
  note ks = link_identity_run [OF s1 k]
  note os = open_session_run [OF conjunct1 [OF ks] o]
  show ?thesis
  proof (cases linked)
    case None
    then show ?thesis using us ks os i db' by auto
  next
    case (Some ext)
    with get_row_SomeD [OF l [symmetric, unfolded Some]] us have "ext \<in> set (id_identities db)" "us_id x = ei_user_id ext"
      "ei_provider ext = provider_value (vi_provider vi)" "ei_subject ext = vi_subject vi" by auto
    then show ?thesis using os i db' by fastforce
  qed
qed

theorem external_login_no_takeover_witness:
  "fst (run_tx (finish_oidc demo_env demo_settings (\<lambda>n. 50) demo_ids ''secret'' 21 demo_verified demo_attempt None ''c'')
     demo_linked_db demo_world) = Inr (Some ''secret'')"
proof -
  let ?p = "finish_oidc demo_env demo_settings (\<lambda>n. 50) demo_ids ''secret'' 21 demo_verified demo_attempt None ''c''"
  have "case fst (run_tx ?p demo_linked_db demo_world) of Inr (Some s) \<Rightarrow> True | _ \<Rightarrow> False" by code_simp
  then obtain sec db' w' where r: "run_tx ?p demo_linked_db demo_world = (Inr (Some sec), db', w')"
    by (cases "run_tx ?p demo_linked_db demo_world") (auto split: sum.splits option.splits)
  with external_login_no_takeover [OF demo_linked_ok r] show ?thesis by simp
qed

section \<open>The breach lookup\<close>

text \<open>What a usable answer of the range service is, and what it says of a digest.\<close>

definition range_usable :: "nat \<Rightarrow> string \<Rightarrow> bool" where
  "range_usable status body \<longleftrightarrow> status = 200 \<and> length body \<le> max_range_bytes \<and> list_all is_ascii body \<and> py_splitlines [] body \<noteq> [] \<and>
     list_all (fullmatch range_row_re) (py_splitlines [] body) \<and> distinct (map (take 35) (py_splitlines [] body))"

definition range_lists :: "string \<Rightarrow> string \<Rightarrow> bool" where
  "range_lists digest body = list_ex (\<lambda>row. take 35 row = drop 5 digest \<and> 0 < digits_value (drop 36 row)) (py_splitlines [] body)"

lemma scan_rows_eq:
  "\<exists>m. scan_rows target rows seen found =
     (if list_all (fullmatch range_row_re) rows \<and> distinct (map (take 35) rows) \<and> set (map (take 35) rows) \<inter> set seen = {}
      then Inr (found \<or> list_ex (\<lambda>row. take 35 row = target \<and> 0 < digits_value (drop 36 row)) rows) else Inl (ValueError m))"
proof (induction rows arbitrary: seen found)
  case (Cons row rows)
  show ?case
  proof (cases "fullmatch range_row_re row \<and> take 35 row \<notin> set seen")
    case True
    let ?found = "found \<or> (take 35 row = target \<and> 0 < digits_value (drop 36 row))"
    have "scan_rows target (row # rows) seen found = scan_rows target rows (take 35 row # seen) ?found"
      using True by (simp del: fullmatch.simps add: Let_def)
    moreover obtain m where "scan_rows target rows (take 35 row # seen) ?found =
       (if list_all (fullmatch range_row_re) rows \<and> distinct (map (take 35) rows) \<and> set (map (take 35) rows) \<inter> set (take 35 row # seen) = {}
        then Inr (?found \<or> list_ex (\<lambda>row. take 35 row = target \<and> 0 < digits_value (drop 36 row)) rows) else Inl (ValueError m))"
      using Cons.IH [of "take 35 row # seen" ?found] by blast
    ultimately show ?thesis using True by (intro exI [of _ m]) (auto simp del: fullmatch.simps)
  qed (auto simp del: fullmatch.simps simp: Let_def)
qed simp

text \<open>
  C26: the breach lookup answers exactly what the range service said, or not at all. The loop over the
  rows, with its set of suffixes seen and its flag, agrees with the plain reading of the answer: for a
  usable answer it says whether a row with the rest of the digest has a positive count, padding rows with
  count zero aside; for anything else (no answer, another status, too long, malformed or repeated
  rows) the check is unavailable.
\<close>

theorem breach_lookup_exact:
  "hibp_is_breached digest response = (case response of
     Some (status, body) \<Rightarrow> if range_usable status body then Inr (range_lists digest body) else Inl (app_error PasswordCheckUnavailableError)
   | None \<Rightarrow> Inl (app_error PasswordCheckUnavailableError))"
proof (cases response)
  case (Some r)
  obtain status body where r: "r = (status, body)" by (cases r)
  obtain m where "scan_rows (drop 5 digest) (py_splitlines [] body) [] False =
     (if list_all (fullmatch range_row_re) (py_splitlines [] body) \<and> distinct (map (take 35) (py_splitlines [] body))
      then Inr (range_lists digest body) else Inl (ValueError m))"
    using scan_rows_eq [of "drop 5 digest" "py_splitlines [] body" "[]" False, unfolded list.set Int_empty_right simp_thms,
        folded range_lists_def] by blast
  then show ?thesis
    using Some r by (auto simp del: fullmatch.simps simp: hibp_is_breached_def read_range_def range_usable_def Let_def)
qed (simp add: hibp_is_breached_def)

end
