(* ===== verification/Users_Security.thy ===== *)
theory Users_Security
  imports Auth_Security
begin

text \<open>What the profile and administration services promise, on whole requests.\<close>

section \<open>Concrete values\<close>

definition demo_customer :: user where
  "demo_customer = \<lparr>us_id = 6, us_email = ''c@b.c'', us_display_name = [], us_phone = None, us_role = ''customer'',
     us_is_active = True, us_email_verified_at = Some 0, us_created_at = 0\<rparr>"

definition demo_admin_db :: identity_db where
  "demo_admin_db = demo_db\<lparr>id_users := [demo_user, demo_customer]\<rparr>"

definition demo_address :: address_input where
  "demo_address = \<lparr>ai_kind = ''shipping'', ai_recipient = ''r'', ai_line1 = ''l'', ai_line2 = None, ai_city = ''c'',
     ai_region = ''r'', ai_postal_code = None, ai_country_code = ''NG'', ai_phone = None, ai_is_default = True\<rparr>"

section \<open>Addresses\<close>

text \<open>The partial unique index, row by row.\<close>

lemma unique_filter_iff:
  assumes "unique_key f as"
  shows "unique_key k (filter P as) \<longleftrightarrow> (\<forall>a \<in> set as. \<forall>b \<in> set as. P a \<and> P b \<and> k a = k b \<longrightarrow> a = b)"
proof -
  have "distinct as" using assms by (simp add: unique_key_def distinct_map)
  then show ?thesis by (auto simp: unique_key_def distinct_map inj_on_def)
qed

lemma addresses_ok_iff:
  "addresses_ok as \<longleftrightarrow> unique_key ad_id as \<and> (\<forall>a \<in> set as. \<forall>b \<in> set as.
     ad_is_default a \<and> ad_is_default b \<and> ad_user_id a = ad_user_id b \<and> ad_kind a = ad_kind b \<longrightarrow> a = b)"
proof (cases "unique_key ad_id as")
  case True
  then show ?thesis by (simp add: addresses_ok_def unique_filter_iff [OF True])
qed (simp add: addresses_ok_def)

lemma in_update_whereE:
  assumes "x \<in> set (update_where P f tbl)"
  obtains r where "r \<in> set tbl" "P r" "x = f r" | "x \<in> set tbl" "\<not> P x"
  using assms by (auto simp: update_where_def split: if_splits)

definition no_default :: "uuid \<Rightarrow> string \<Rightarrow> address list \<Rightarrow> bool" where
  "no_default u k as \<longleftrightarrow> (\<forall>a \<in> set as. ad_user_id a = u \<and> ad_kind a = k \<longrightarrow> \<not> ad_is_default a)"

lemma clear_default_clears: "no_default u k (id_addresses (clear_default u k db))"
  unfolding no_default_def clear_default_def
proof (simp, intro ballI impI)
  let ?P = "\<lambda>a. ad_user_id a = u \<and> ad_kind a = k \<and> ad_is_default a"
  fix a assume "a \<in> set (update_where ?P (\<lambda>a. a\<lparr>ad_is_default := False\<rparr>) (id_addresses db))" "ad_user_id a = u \<and> ad_kind a = k"
  then show "\<not> ad_is_default a" by (elim in_update_whereE) auto
qed

lemma clear_default_ok: "addresses_ok (id_addresses db) \<Longrightarrow> addresses_ok (id_addresses (clear_default u k db))"
  by (simp add: clear_default_def addresses_ok_clear)

lemma insert_address_ok:
  assumes "addresses_ok as" "ad_id a \<notin> ad_id ` set as" "ad_is_default a \<longrightarrow> no_default (ad_user_id a) (ad_kind a) as"
  shows "addresses_ok (as @ [a])"
  using assms by (auto simp: addresses_ok_iff unique_key_append_row no_default_def)

lemma update_address_rows:
  assumes u: "unique_key ad_id as" and r: "r \<in> set as" and x: "x \<in> set (update_ids ad_id [ad_id r] (apply_address data) as)"
  shows "x = apply_address data r \<or> x \<in> set as"
  using x
proof (elim in_update_idsE)
  fix q assume "q \<in> set as" "ad_id q \<in> set [ad_id r]" "x = apply_address data q"
  then show ?thesis using unique_keyD [OF u _ r, of q] by simp
qed simp

lemma update_address_ok:
  assumes ok: "addresses_ok as" and r: "r \<in> set as" and d: "ai_is_default data \<longrightarrow> no_default (ad_user_id r) (ai_kind data) as"
  shows "addresses_ok (update_ids ad_id [ad_id r] (apply_address data) as)" (is "addresses_ok ?as")
proof -
  let ?A = "apply_address data r"
  have u: "unique_key ad_id as" using ok by (simp add: addresses_ok_def)
  have x: "x = ?A \<or> x \<in> set as" if "x \<in> set ?as" for x by (rule update_address_rows [OF u r that])
  have new: False if "y \<in> set as" "ad_is_default y" "ad_is_default ?A" "ad_user_id y = ad_user_id ?A" "ad_kind y = ad_kind ?A" for y
    using d that by (simp add: no_default_def)
  have old: "a = b" if "a \<in> set as" "b \<in> set as" "ad_is_default a" "ad_is_default b" "ad_user_id a = ad_user_id b" "ad_kind a = ad_kind b" for a b
    using ok that unfolding addresses_ok_iff by blast
  have "a = b" if "a \<in> set ?as" "b \<in> set ?as" "ad_is_default a" "ad_is_default b" "ad_user_id a = ad_user_id b" "ad_kind a = ad_kind b" for a b
    using x [OF that(1)] x [OF that(2)] that(3-6) new old by metis
  moreover have "unique_key ad_id ?as" using u by (simp add: unique_key_update_ids)
  ultimately show ?thesis unfolding addresses_ok_iff by blast
qed

lemma own_address_Some:
  "own_address u i db = Some r \<Longrightarrow> r \<in> set (id_addresses db) \<and> ad_user_id r = u \<and> ad_id r = i"
  by (auto simp: own_address_def find_Some_iff)

text \<open>The row found before the default marks were withdrawn, as it is in the table afterwards.\<close>

lemma store_address_ok:
  assumes ok: "addresses_ok (id_addresses db)" and f: "new_id \<notin> ad_id ` set (id_addresses db)"
    and r: "\<And>r. row = Some r \<Longrightarrow> \<exists>q \<in> set (id_addresses db). ad_id q = ad_id r \<and> ad_user_id q = u"
    and d: "ai_is_default data \<longrightarrow> no_default u (ai_kind data) (id_addresses db)"
  shows "\<exists>a db'. store_address clk new_id u data row db = Inr (a, db')"
proof (cases row)
  case None
  have "addresses_ok (id_addresses db @ [apply_address data (fresh_address new_id u (clk 2))])"
    by (rule insert_address_ok [OF ok]) (use f d in simp_all)
  then show ?thesis using None by (simp add: store_address_def Let_def flush_addresses_def)
next
  case (Some r)
  obtain q where q: "q \<in> set (id_addresses db)" "ad_id q = ad_id r" "ad_user_id q = u" using assms(3) [OF Some] by blast
  have "addresses_ok (update_ids ad_id [ad_id r] (apply_address data) (id_addresses db))"
    using update_address_ok [OF ok q(1), of data] d q by simp
  then show ?thesis using Some by (simp add: store_address_def flush_addresses_def)
qed

end
