(* ===== verification/Rate_Limits.thy ===== *)
theory Rate_Limits
  imports Identity
begin

text \<open>
  Rate limits: \<open>core/rate_limits.py\<close> with its Lua script, \<open>auth/rate_limits.py\<close>,
  \<open>auth/rate_dependencies.py\<close>, \<open>users/settings.py\<close> and \<open>users/rate_dependencies.py\<close>.

  A sorted set is the list of its members with their scores; Redis runs a script atomically, and its
  clock is in milliseconds. A set that \<open>PEXPIRE\<close> has let expire holds only scores that the next call
  would remove, so it is modelled by the removal. A request's counters are in \<open>limiter\<close>: a store that
  is reachable or not.
\<close>

section \<open>The script\<close>

type_synonym zset = "(string \<times> int) list"

text \<open>\<open>ZADD key score member\<close>: the score of a member that is there is replaced.\<close>

definition zadd :: "int \<Rightarrow> string \<Rightarrow> zset \<Rightarrow> zset" where
  "zadd score m z = filter (\<lambda>(k, _). k \<noteq> m) z @ [(m, score)]"

definition min_score :: "zset \<Rightarrow> int" where
  "min_score z = Min (snd ` set z)"

text \<open>\<open>math.ceil(n / 1000)\<close> on integers.\<close>

definition ceil_seconds :: "int \<Rightarrow> int" where
  "ceil_seconds n = - ((- n) div 1000)"

definition sliding_window :: "int \<Rightarrow> int \<Rightarrow> int \<Rightarrow> string \<Rightarrow> zset \<Rightarrow> int \<times> zset" where
  "sliding_window now window limit m z0 =
     (let z = filter (\<lambda>(_, t). \<not> t \<le> now - window) z0 in
      if limit \<le> int (length z) then (max 1 (ceil_seconds (min_score z + window - now)), z)
      else (0, zadd now m z))"

section \<open>Limits\<close>

record limiter =
  lm_up :: bool
  lm_sets :: "string \<Rightarrow> zset"

definition private_identifier :: "ident_env \<Rightarrow> string \<Rightarrow> string \<Rightarrow> string" where
  "private_identifier en v key = hex_fixed 64 (en_hmac en key v)"

definition rate_limit_key :: "ident_env \<Rightarrow> string \<Rightarrow> string \<Rightarrow> string \<Rightarrow> string \<Rightarrow> string \<Rightarrow> string \<Rightarrow> string" where
  "rate_limit_key en namespace scope operation identity secret version =
     ''ekumidayomi:'' @ namespace @ '':'' @ scope @ '':'' @ version @ '':limit:'' @ operation @ '':'' @
     private_identifier en identity secret"

text \<open>
  \<open>now\<close> is Redis's clock and \<open>m\<close> the random member. An answer below zero would be an error of the
  script.
\<close>

definition sliding_window_retry_after ::
  "int \<Rightarrow> string \<Rightarrow> string \<Rightarrow> pyval \<Rightarrow> pyval \<Rightarrow> limiter \<Rightarrow> (exn + int) \<times> limiter" where
  "sliding_window_retry_after now m key limit window_seconds w = (case limit of
     VInt l \<Rightarrow>
       if l < 1 then (Inl (ValueError ''limit must be a positive integer''), w)
       else (case window_seconds of
         VInt n \<Rightarrow>
           if n < 1 then (Inl (ValueError ''window_seconds must be a positive integer''), w)
           else if \<not> lm_up w then (Inl RedisError, w)
           else (case sliding_window now (n * 1000) l m (lm_sets w key) of (retry, z) \<Rightarrow>
             let w' = w\<lparr>lm_sets := (lm_sets w)(key := z)\<rparr> in
             if retry < 0 then (Inl (RuntimeError ''rate limiter returned an invalid retry delay''), w')
             else (Inr retry, w'))
       | _ \<Rightarrow> (Inl (ValueError ''window_seconds must be a positive integer''), w))
   | _ \<Rightarrow> (Inl (ValueError ''limit must be a positive integer''), w))"

text \<open>The error with its whole number of seconds; the constructor accepts every positive number.\<close>

definition rate_limit_error :: "ident_env \<Rightarrow> error_class \<Rightarrow> int \<Rightarrow> exn" where
  "rate_limit_error en c retry = (case make_rate_limit_error (en_case en) c (VInt retry) of Inl e \<Rightarrow> e | Inr e \<Rightarrow> e)"

definition enforce ::
  "ident_env \<Rightarrow> int \<Rightarrow> string \<Rightarrow> string \<Rightarrow> string \<Rightarrow> string \<Rightarrow> string \<Rightarrow> int \<Rightarrow> int \<Rightarrow> limiter \<Rightarrow> (exn + unit) \<times> limiter" where
  "enforce en now m namespace operation identity secret limit window_seconds w =
     (case sliding_window_retry_after now m (rate_limit_key en namespace ''auth'' operation identity secret ''v1'')
         (VInt limit) (VInt window_seconds) w of
        (Inl e, w') \<Rightarrow> (Inl (if e = RedisError then app_error IdentityUnavailableError else e), w')
      | (Inr retry, w') \<Rightarrow> (if 0 < retry then Inl (rate_limit_error en IdentityRateLimitExceededError retry) else Inr (), w'))"

section \<open>Identity endpoints\<close>

record http_request =
  hr_method :: string
  hr_path :: string
  hr_origin :: "string option"
  hr_client :: "string option"
  hr_body :: string
  hr_cookie :: "string option"

text \<open>The members of the JSON body the dependency reads; None when it is not a JSON object.\<close>

record body_data =
  bd_email :: "string option"
  bd_challenge_id :: "string option"

record limit_config =
  lc_api_prefix :: string
  lc_namespace :: string
  lc_secret :: string
  lc_allowed_origins :: "string list"

definition safe_method :: "string \<Rightarrow> bool" where
  "safe_method m \<longleftrightarrow> m \<in> {''GET'', ''HEAD'', ''OPTIONS''}"

definition trusted_origin :: "limit_config \<Rightarrow> http_request \<Rightarrow> exn + unit" where
  "trusted_origin cf r = (case hr_origin r of
     Some og \<Rightarrow> if og \<in> set (lc_allowed_origins cf) then Inr () else Inl (app_error UntrustedOriginError)
   | None \<Rightarrow> Inl (app_error UntrustedOriginError))"

definition identity_limits :: "(string \<times> (int \<times> int \<times> int)) list" where
  "identity_limits =
     [(''/auth/login'', (30, 10, 300)), (''/auth/register'', (20, 3, 600)), (''/auth/register/resend'', (20, 3, 600)),
      (''/auth/register/verify'', (30, 5, 600)), (''/auth/password-reset/request'', (20, 3, 600)),
      (''/auth/password-reset/confirm'', (30, 5, 600)), (''/auth/reauthenticate'', (2, 5, 300))]"

definition limit_rule :: "string \<Rightarrow> (int \<times> int \<times> int) option" where
  "limit_rule path = (if py_startswith path ''/auth/oidc/'' then Some (30, 10, 300) else map_of identity_limits path)"

definition strip_slashes :: "string \<Rightarrow> string" where
  "strip_slashes s = rev (dropWhile (\<lambda>c. c = CHR ''/'') (rev (dropWhile (\<lambda>c. c = CHR ''/'') s)))"

definition operation_name :: "string \<Rightarrow> string" where
  "operation_name path = py_replace (CHR ''/'') (CHR ''-'') (strip_slashes path)"

definition max_body_bytes :: nat where "max_body_bytes = 16384"

text \<open>The account a request is about; \<open>data\<close> is the parsed body.\<close>

definition request_identity :: "ident_env \<Rightarrow> string \<Rightarrow> body_data option \<Rightarrow> http_request \<Rightarrow> string" where
  "request_identity en path data r =
     (let from_body =
        (if hr_method r \<noteq> ''POST'' then [] else (case data of
           None \<Rightarrow> []
         | Some d \<Rightarrow>
             let i = (case bd_email d of None \<Rightarrow> []
                      | Some e \<Rightarrow> (case normalize_email en e of Inr n \<Rightarrow> n
                          | Inl _ \<Rightarrow> take 320 (py_casefold (en_case en) (py_strip e))))
             in if i = [] then (case bd_challenge_id d of None \<Rightarrow> [] | Some c \<Rightarrow> take 64 c) else i));
          cookie = (case hr_cookie r of None \<Rightarrow> [] | Some c \<Rightarrow> c);
          i1 = (if from_body = [] \<and> path = ''/auth/reauthenticate'' then cookie else from_body)
      in if i1 = [] \<and> \<not> safe_method (hr_method r) \<and> py_startswith path ''/auth/oidc/'' \<and> \<not> py_endswith path ''/start''
         then cookie else i1)"

definition bnd_w :: "('w \<Rightarrow> (exn + 'a) \<times> 'w) \<Rightarrow> ('a \<Rightarrow> 'w \<Rightarrow> (exn + 'b) \<times> 'w) \<Rightarrow> 'w \<Rightarrow> (exn + 'b) \<times> 'w" where
  "bnd_w p f w = (case p w of (Inl e, w') \<Rightarrow> (Inl e, w') | (Inr x, w') \<Rightarrow> f x w')"

definition identify_rate_limit ::
  "ident_env \<Rightarrow> limit_config \<Rightarrow> int \<Rightarrow> string \<Rightarrow> string \<Rightarrow> (string \<Rightarrow> body_data option) \<Rightarrow> http_request \<Rightarrow> limiter \<Rightarrow> (exn + unit) \<times> limiter" where
  "identify_rate_limit en cf now m1 m2 parse r w =
     (case (if safe_method (hr_method r) then Inr () else trusted_origin cf r) of
        Inl e \<Rightarrow> (Inl e, w)
      | Inr _ \<Rightarrow>
        let path = removeprefix (lc_api_prefix cf) (hr_path r) in
        (case limit_rule path of
           None \<Rightarrow> (Inr (), w)
         | Some (ip_limit, account_limit, window) \<Rightarrow>
             bnd_w (enforce en now m1 (lc_namespace cf) (operation_name path @ ''-ip'')
                (case hr_client r of None \<Rightarrow> ''unknown'' | Some h \<Rightarrow> h) (lc_secret cf) ip_limit window) (\<lambda>_ w1.
             if hr_method r = ''POST'' \<and> max_body_bytes < length (hr_body r)
             then (Inl (app_error AuthenticationRequestTooLargeError), w1)
             else
               let identity = request_identity en path (parse (hr_body r)) r in
               if identity = [] then (Inr (), w1)
               else enforce en now m2 (lc_namespace cf) (operation_name path @ ''-account'') identity (lc_secret cf)
                      account_limit window w1) w))"

section \<open>Profile endpoints\<close>

record profile_limits =
  pl_profile_update_limit :: int
  pl_address_mutation_limit :: int
  pl_window_seconds :: int

definition profile_limits_ok :: "profile_limits \<Rightarrow> bool" where
  "profile_limits_ok s \<longleftrightarrow> 1 \<le> pl_profile_update_limit s \<and> pl_profile_update_limit s \<le> 1000 \<and>
     1 \<le> pl_address_mutation_limit s \<and> pl_address_mutation_limit s \<le> 2000 \<and>
     60 \<le> pl_window_seconds s \<and> pl_window_seconds s \<le> 3600"

definition profile_operations :: "((string \<times> string) \<times> (string \<times> string)) list" where
  "profile_operations =
     [((''PUT'', ''/profile''), (''profile-update'', ''profile'')),
      ((''POST'', ''/profile/addresses''), (''address-create'', ''address'')),
      ((''PUT'', ''/profile/addresses/{address_id}''), (''address-update'', ''address'')),
      ((''DELETE'', ''/profile/addresses/{address_id}''), (''address-delete'', ''address''))]"

definition rstrip_slash :: "string \<Rightarrow> string" where
  "rstrip_slash s = rev (dropWhile (\<lambda>c. c = CHR ''/'') (rev s))"

definition profile_rate_limit_operation :: "ident_env \<Rightarrow> string \<Rightarrow> string \<Rightarrow> string \<Rightarrow> (string \<times> string) option" where
  "profile_rate_limit_operation en method route_path api_prefix =
     (let prefix = rstrip_slash api_prefix in
      map_of profile_operations (py_upper (en_case en) method,
        (if prefix = [] then route_path else removeprefix prefix route_path)))"

text \<open>Redis failing is no reason to refuse a profile change.\<close>

definition profile_rate_limit ::
  "ident_env \<Rightarrow> limit_config \<Rightarrow> profile_limits \<Rightarrow> int \<Rightarrow> string \<Rightarrow> string \<Rightarrow> string \<Rightarrow> actor \<Rightarrow> limiter \<Rightarrow> (exn + unit) \<times> limiter" where
  "profile_rate_limit en cf pl now m method route_path ac w =
     (case profile_rate_limit_operation en method route_path (lc_api_prefix cf) of
        None \<Rightarrow> (Inr (), w)
      | Some (operation, grp) \<Rightarrow>
          (let limit = (if grp = ''profile'' then pl_profile_update_limit pl else pl_address_mutation_limit pl)
           in case sliding_window_retry_after now m
                (rate_limit_key en (lc_namespace cf) ''users'' operation (uuid_str (ac_user_id ac)) (lc_secret cf) ''v1'')
                (VInt limit) (VInt (pl_window_seconds pl)) w of
              (Inl e, w') \<Rightarrow> (if e = RedisError then Inr () else Inl e, w')
            | (Inr retry, w') \<Rightarrow> (if 0 < retry then Inl (rate_limit_error en ProfileRateLimitExceededError retry) else Inr (), w')))"

section \<open>What the limit guarantees\<close>

text \<open>The times at which a sequence of requests \<open>(time, member)\<close> for one key is admitted.\<close>

fun admitted :: "int \<Rightarrow> int \<Rightarrow> (int \<times> string) list \<Rightarrow> zset \<Rightarrow> int list" where
  "admitted window limit [] z = []"
| "admitted window limit ((now, m) # cs) z = (case sliding_window now window limit m z of
     (retry, z') \<Rightarrow> (if retry = 0 then [now] else []) @ admitted window limit cs z')"

text \<open>How many of the times \<open>ts\<close> lie in the window that ends at \<open>t\<close>.\<close>

definition in_window :: "int \<Rightarrow> int \<Rightarrow> int list \<Rightarrow> nat" where
  "in_window window t ts = length (filter (\<lambda>x. t - window < x \<and> x \<le> t) ts)"

lemma sliding_window_cases:
  fixes z0 :: zset and now window :: int
  defines "z \<equiv> filter (\<lambda>(k, t). now - window < t) z0"
  shows "limit \<le> int (length z) \<and> sliding_window now window limit m z0 = (max 1 (ceil_seconds (min_score z + window - now)), z) \<or>
    int (length z) < limit \<and> sliding_window now window limit m z0 = (0, zadd now m z)"
  by (auto simp: sliding_window_def Let_def z_def not_le)

text \<open>
  The set agrees with the history of admissions \<open>hist\<close> on everything younger than a window, and the
  history respects the limit.
\<close>

definition agrees :: "int \<Rightarrow> int \<Rightarrow> int \<Rightarrow> int list \<Rightarrow> zset \<Rightarrow> bool" where
  "agrees window limit T hist z \<longleftrightarrow> (\<forall>x \<in> set hist. x \<le> T) \<and>
     (\<forall>a \<ge> T - window. length (filter (\<lambda>(k, x). a < x) z) = length (filter (\<lambda>x. a < x) hist)) \<and>
     (\<forall>t. int (in_window window t hist) \<le> limit)"

lemma in_window_le: "in_window window t ts \<le> length (filter (\<lambda>x. t - window < x) ts)"
  unfolding in_window_def by (induction ts) auto

lemma length_filter_mono: "(\<And>x. P x \<Longrightarrow> Q x) \<Longrightarrow> length (filter P xs) \<le> length (filter Q xs)"
  by (induction xs) auto

lemma zadd_fresh: "m \<notin> fst ` set z \<Longrightarrow> zadd t m z = z @ [(m, t)]"
  unfolding zadd_def by (simp add: filter_id_conv) force

lemma agrees_purge:
  assumes "agrees window limit T hist z" "T \<le> now"
  shows "agrees window limit now hist (filter (\<lambda>(k, t). now - window < t) z)"
proof -
  have "length (filter (\<lambda>(k, x). a < x) (filter (\<lambda>(k, t). now - window < t) z)) = length (filter (\<lambda>x. a < x) hist)"
    if "now - window \<le> a" for a
  proof -
    have "filter (\<lambda>(k, x). a < x) (filter (\<lambda>(k, t). now - window < t) z) = filter (\<lambda>(k, x). a < x) z"
      using that by (auto simp: filter_filter intro!: filter_cong)
    then show ?thesis using assms that by (simp add: agrees_def)
  qed
  then show ?thesis using assms by (fastforce simp: agrees_def)
qed

lemma agrees_admit:
  assumes a: "agrees window limit now hist z" and l: "int (length (filter (\<lambda>(k, t). now - window < t) z)) < limit"
    and m: "m \<notin> fst ` set z" and w: "0 < window"
  shows "agrees window limit now (hist @ [now]) (zadd now m z)"
proof -
  have "int (in_window window t (hist @ [now])) \<le> limit" for t
  proof (cases "t - window < now \<and> now \<le> t")
    case True
    then have "in_window window t hist \<le> length (filter (\<lambda>x. now - window < x) hist)"
      using in_window_le [of window t hist] length_filter_mono [of "\<lambda>x. t - window < x" "\<lambda>x. now - window < x" hist] by auto
    also have "\<dots> = length (filter (\<lambda>(k, t). now - window < t) z)" using a by (simp add: agrees_def)
    finally show ?thesis using l True by (simp add: in_window_def)
  next
    case False
    then show ?thesis using a by (auto simp: agrees_def in_window_def)
  qed
  then show ?thesis using a m by (simp add: agrees_def zadd_fresh)
qed

lemma admitted_within_limit:
  assumes "agrees window limit T hist z" "sorted (T # map fst cs)" "distinct (map snd cs)"
    "\<And>m. m \<in> snd ` set cs \<Longrightarrow> m \<notin> fst ` set z" "0 < window"
  shows "int (in_window window t (hist @ admitted window limit cs z)) \<le> limit"
  using assms
proof (induction cs arbitrary: T hist z)
  case Nil
  then show ?case by (simp add: agrees_def)
next
  case (Cons c cs)
  obtain now m where c: "c = (now, m)" by fastforce
  let ?z = "filter (\<lambda>(k, t). now - window < t) z"
  have srt: "sorted (now # map fst cs)" "T \<le> now" using Cons.prems(2) c by simp_all
  have dst: "distinct (map snd cs)" "m \<notin> snd ` set cs" using Cons.prems(3) c by simp_all
  have p: "agrees window limit now hist ?z" by (rule agrees_purge [OF Cons.prems(1) srt(2)])
  have sub: "fst ` set ?z \<subseteq> fst ` set z" by (rule image_mono) simp
  have m: "m \<notin> fst ` set ?z" using Cons.prems(4) [of m] c sub by auto
  have fresh: "m' \<notin> fst ` set ?z" if "m' \<in> snd ` set cs" for m' using Cons.prems(4) [of m'] c sub that by auto
  consider (no) "sliding_window now window limit m z = (max 1 (ceil_seconds (min_score ?z + window - now)), ?z)"
    | (yes) "int (length ?z) < limit" "sliding_window now window limit m z = (0, zadd now m ?z)"
    using sliding_window_cases [of limit now window z m] by blast
  then show ?case
  proof cases
    case no
    have "max 1 r \<noteq> 0" for r :: int by simp
    with no have "admitted window limit (c # cs) z = admitted window limit cs ?z" using c by simp
    with Cons.IH [OF p srt(1) dst(1) fresh Cons.prems(5)] show ?thesis by simp
  next
    case yes
    have "int (length (filter (\<lambda>(k, t). now - window < t) ?z)) < limit" using yes(1) by simp
    then have q: "agrees window limit now (hist @ [now]) (zadd now m ?z)" by (rule agrees_admit [OF p _ m Cons.prems(5)])
    have "m' \<notin> fst ` set (zadd now m ?z)" if "m' \<in> snd ` set cs" for m'
      using fresh [OF that] that dst(2) by (auto simp: zadd_fresh [OF m])
    with Cons.IH [OF q srt(1) dst(1) _ Cons.prems(5)] show ?thesis using yes(2) c by simp
  qed
qed

lemma ceil_seconds_bounds: "n \<le> ceil_seconds n * 1000" "ceil_seconds n * 1000 < n + 1000"
  unfolding ceil_seconds_def by linarith+

lemma min_score_in: "z \<noteq> [] \<Longrightarrow> \<exists>k. (k, min_score z) \<in> set z"
proof -
  assume "z \<noteq> []"
  then have "min_score z \<in> snd ` set z" unfolding min_score_def by (intro Min_in) auto
  then show ?thesis by force
qed

text \<open>A refusal names a delay after which one place is free.\<close>

lemma refused_then_admitted:
  assumes r: "sliding_window now window limit m z = (retry, z')" "0 < retry"
    and l: "int (length z) \<le> limit" "1 \<le> limit" and t: "now + retry * 1000 \<le> later"
  shows "fst (sliding_window later window limit m' z') = 0"
proof -
  let ?z = "filter (\<lambda>(k, t). now - window < t) z"
  from r sliding_window_cases [of limit now window z m]
  have z': "z' = ?z" "retry = max 1 (ceil_seconds (min_score ?z + window - now))" "limit \<le> int (length ?z)" by auto
  then have ne: "?z \<noteq> []" using l(2) by auto
  from min_score_in [OF ne] obtain k where k: "(k, min_score ?z) \<in> set ?z" by blast
  have "min_score ?z + window - now \<le> retry * 1000"
    using ceil_seconds_bounds(1) [of "min_score ?z + window - now"] z'(2) by simp
  then have "\<not> later - window < min_score ?z" using t by linarith
  then have "length (filter (\<lambda>(k, t). later - window < t) ?z) < length ?z"
    using length_filter_less [OF k, of "\<lambda>(k, t). later - window < t"] by simp
  also have "\<dots> \<le> length z" by (rule length_filter_le)
  finally show ?thesis
    using l(1) z'(1) sliding_window_cases [of limit later window z' m'] by auto
qed

section \<open>Properties\<close>

text \<open>
  C31: the sliding window admits at most \<open>limit\<close> requests in any window. Whatever requests arrive for a
  key, at whatever times (Redis's clock does not go back) and with distinct members, every interval of
  the length of the window contains at most \<open>limit\<close> admitted requests.
\<close>

theorem sliding_window_limits:
  assumes "sorted (map fst cs)" "distinct (map snd cs)" "0 < window" "0 \<le> limit"
  shows "int (in_window window t (admitted window limit cs [])) \<le> limit"
proof (cases cs)
  case Nil
  then show ?thesis using assms(4) by (simp add: in_window_def)
next
  case (Cons c cs')
  have "agrees window limit (fst c) [] []" using assms(4) by (simp add: agrees_def in_window_def)
  from admitted_within_limit [OF this, of cs t] show ?thesis using assms(1-3) Cons by auto
qed

theorem sliding_window_limits_witness:
  "admitted 1000 2 [(0, ''a''), (10, ''b''), (20, ''c''), (1005, ''d'')] [] = [0, 10, 1005] \<and>
   int (in_window 1000 20 (admitted 1000 2 [(0, ''a''), (10, ''b''), (20, ''c''), (1005, ''d'')] [])) \<le> 2"
  using sliding_window_limits [of "[(0, ''a''), (10, ''b''), (20, ''c''), (1005, ''d'')]" 1000 2 20]
  by (simp add: sliding_window_def zadd_def min_score_def ceil_seconds_def)

text \<open>
  C32: the delay a refusal names is honest. For a set within its limit whose scores are not in the
  future, a refused request gets a delay of at least one second and at most the window, rounded up;
  and a request for the same key after that delay, with none in between, is admitted.
\<close>

theorem retry_after_honest:
  assumes r: "sliding_window now (n * 1000) limit m z = (retry, z')" "retry \<noteq> 0"
    and l: "int (length z) \<le> limit" "1 \<le> limit" "1 \<le> n" and p: "list_all (\<lambda>(k, t). t \<le> now) z"
  shows "1 \<le> retry \<and> retry \<le> n \<and>
    (\<forall>later m'. now + retry * 1000 \<le> later \<longrightarrow> fst (sliding_window later (n * 1000) limit m' z') = 0)"
proof -
  let ?z = "filter (\<lambda>(k, t). now - n * 1000 < t) z"
  from r sliding_window_cases [of limit now "n * 1000" z m]
  have z': "retry = max 1 (ceil_seconds (min_score ?z + n * 1000 - now))" "limit \<le> int (length ?z)" by auto
  then have "?z \<noteq> []" using l(2) by auto
  from min_score_in [OF this] have "min_score ?z \<le> now" using p by (auto simp: list_all_iff)
  then have "ceil_seconds (min_score ?z + n * 1000 - now) * 1000 < n * 1000 + 1000"
    using ceil_seconds_bounds(2) [of "min_score ?z + n * 1000 - now"] by linarith
  then have "retry \<le> n" "1 \<le> retry" using z'(1) l(3) by simp_all
  with refused_then_admitted [OF r(1) _ l(1,2)] show ?thesis by auto
qed

theorem retry_after_honest_witness:
  "fst (sliding_window 500 1000 1 ''b'' [(''a'', 0)]) = 1 \<and>
   fst (sliding_window 1500 1000 1 ''b'' (snd (sliding_window 500 1000 1 ''b'' [(''a'', 0)]))) = 0"
proof -
  have "sliding_window 500 (1 * 1000) 1 ''b'' [(''a'', 0)] = (1, [(''a'', 0)])"
    by (simp add: sliding_window_def min_score_def ceil_seconds_def)
  from retry_after_honest [OF this] this show ?thesis by simp
qed

text \<open>
  Redis failing closes the identity endpoints and leaves profile changes open. With Redis down a
  request to a limited identity path never gets through; a profile change is never refused for it; and
  with Redis up an identity request gets through only if its origin is trusted (or its method safe) and
  its address had a place in the window.
\<close>

lemma limits_fail_closed:
  assumes "limit_rule (removeprefix (lc_api_prefix cf) (hr_path r)) = Some rule"
  shows "(\<not> lm_up w \<longrightarrow> fst (identify_rate_limit en cf now m1 m2 parse r w) \<noteq> Inr ()) \<and>
    (\<not> lm_up w \<and> profile_limits_ok pl \<longrightarrow> profile_rate_limit en cf pl now m method route ac w = (Inr (), w)) \<and>
    (fst (identify_rate_limit en cf now m1 m2 parse r w) = Inr () \<longrightarrow>
      (safe_method (hr_method r) \<or> trusted_origin cf r = Inr ()) \<and>
      fst (enforce en now m1 (lc_namespace cf) (operation_name (removeprefix (lc_api_prefix cf) (hr_path r)) @ ''-ip'')
        (case hr_client r of None \<Rightarrow> ''unknown'' | Some h \<Rightarrow> h) (lc_secret cf) (fst rule) (snd (snd rule)) w) = Inr ())"
proof -
  obtain a b c where rule: "rule = (a, b, c)" by (cases rule)
  have pos: "1 \<le> a \<and> 1 \<le> c"
    using assms rule by (auto simp: limit_rule_def identity_limits_def split: if_splits)
  have down: "enforce en now m1 ns op i k a c w = (Inl (app_error IdentityUnavailableError), w)" if "\<not> lm_up w" for ns op i k
    using that pos by (simp add: enforce_def sliding_window_retry_after_def)
  have closed: "fst (identify_rate_limit en cf now m1 m2 parse r w) \<noteq> Inr ()" if "\<not> lm_up w"
    using down [OF that] assms rule by (auto simp: identify_rate_limit_def Let_def bnd_w_def split: sum.splits)
  have opn: "profile_rate_limit en cf pl now m method route ac w = (Inr (), w)" if "\<not> lm_up w" "profile_limits_ok pl"
    using that by (auto simp: profile_rate_limit_def profile_limits_ok_def sliding_window_retry_after_def Let_def split: option.splits)
  have "(safe_method (hr_method r) \<or> trusted_origin cf r = Inr ()) \<and>
      fst (enforce en now m1 (lc_namespace cf) (operation_name (removeprefix (lc_api_prefix cf) (hr_path r)) @ ''-ip'')
        (case hr_client r of None \<Rightarrow> ''unknown'' | Some h \<Rightarrow> h) (lc_secret cf) (fst rule) (snd (snd rule)) w) = Inr ()"
    if "fst (identify_rate_limit en cf now m1 m2 parse r w) = Inr ()"
    using that assms rule by (auto simp: identify_rate_limit_def Let_def bnd_w_def split: sum.splits prod.splits if_splits)
  then show ?thesis using closed opn by blast
qed

end
