(* ===== verification/Requests.thy ===== *)
theory Requests
  imports Contracts Users_Service Oidc
begin

text \<open>
  The identity services as one system: a request is a call of one of them in its own unit of work, and
  an execution is any sequence of requests, failed ones included, with the cache changing arbitrarily
  between them. Requests on the same rows are ordered by the row and advisory locks the services take,
  so that an interleaving of transactions is a sequence of requests.
\<close>

section \<open>Requests\<close>

text \<open>The clock readings, fresh identifiers and secrets of a request come with it.\<close>

datatype request =
    Begin_Registration "nat \<Rightarrow> instant" fresh_ids string "string option"
  | Complete_Registration "nat \<Rightarrow> instant" fresh_ids uuid string string "string option"
  | Log_In "nat \<Rightarrow> instant" string uuid string string "string option"
  | Log_Out "nat \<Rightarrow> instant" "string option"
  | Log_Out_All "nat \<Rightarrow> instant" actor
  | Reauthenticate_Password "nat \<Rightarrow> instant" actor string
  | Begin_Reset "nat \<Rightarrow> instant" fresh_ids string
  | Complete_Reset "nat \<Rightarrow> instant" fresh_ids uuid string string string
  | Bootstrap "nat \<Rightarrow> instant" fresh_ids string string
  | Update_Profile "nat \<Rightarrow> instant" actor profile_input
  | Save_Address "nat \<Rightarrow> instant" uuid actor address_input "uuid option"
  | Delete_Address "nat \<Rightarrow> instant" actor uuid
  | Change_Access "nat \<Rightarrow> instant" uuid actor uuid "role option" "bool option" string
  | Oidc_Callback "nat \<Rightarrow> instant" fresh_ids string uuid "string \<Rightarrow> attempt option"
      "string \<Rightarrow> attempt \<Rightarrow> exn + verified_identity" provider_name string string "string option" "string option" "string option" string
  | Unlink "nat \<Rightarrow> instant" uuid actor provider_name string
  | Cache_Becomes cache_world

definition discard :: "'a id_prog \<Rightarrow> unit id_prog" where
  "discard p = bnd p (\<lambda>_. ret ())"

record deployment =
  dp_env :: ident_env
  dp_auth :: auth_settings
  dp_oidc :: oidc_settings
  dp_namespace :: string

fun handle :: "deployment \<Rightarrow> request \<Rightarrow> unit id_prog" where
  "handle d (Begin_Registration clk fi email cid) = discard (begin_registration (dp_env d) (dp_auth d) clk fi email cid)"
| "handle d (Complete_Registration clk fi i cd password cid) = complete_registration (dp_env d) (dp_auth d) clk fi i cd password cid"
| "handle d (Log_In clk secret new_id email password previous) =
     discard (login (dp_env d) (dp_auth d) (dp_namespace d) clk secret new_id email password previous)"
| "handle d (Log_Out clk secret) = logout (dp_env d) (dp_namespace d) clk secret"
| "handle d (Log_Out_All clk ac) = logout_all (dp_namespace d) clk ac"
| "handle d (Reauthenticate_Password clk ac password) = reauthenticate (dp_env d) clk ac password"
| "handle d (Begin_Reset clk fi email) = discard (begin_reset (dp_env d) (dp_auth d) clk fi email)"
| "handle d (Complete_Reset clk fi i cd password cid) =
     complete_reset (dp_env d) (dp_auth d) (dp_namespace d) clk fi i cd password cid"
| "handle d (Bootstrap clk fi email password) = run_bootstrap (dp_env d) clk fi email password"
| "handle d (Update_Profile clk ac data) = discard (update_profile clk ac data)"
| "handle d (Save_Address clk new_id ac data i) = discard (save_address clk new_id ac data i)"
| "handle d (Delete_Address clk ac i) = delete_address clk ac i"
| "handle d (Change_Access clk audit_id ac target role act cid) =
     change_access (dp_env d) (dp_auth d) (dp_namespace d) clk audit_id ac target role act cid"
| "handle d (Oidc_Callback clk fi secret session_id load exchange p state browser cd err cookie cid) =
     discard (callback (dp_env d) (dp_auth d) (dp_namespace d) clk fi secret session_id (dp_oidc d) load exchange p state browser cd err cookie cid)"
| "handle d (Unlink clk audit_id ac p cid) = unlink (dp_env d) (dp_auth d) clk audit_id ac p cid"
| "handle d (Cache_Becomes w) = outside (\<lambda>_. (Inr (), w))"

text \<open>A request that raises may have committed before (a counted wrong code, a recorded denial).\<close>

definition exec_request :: "deployment \<Rightarrow> request \<Rightarrow> identity_db \<times> cache_world \<Rightarrow> exn + (unit list \<times> (identity_db \<times> cache_world))" where
  "exec_request d op s = (case run_tx (handle d op) (fst s) (snd s) of (r, db', w') \<Rightarrow> Inr ([], (db', w')))"

definition any_order :: "unit list \<Rightarrow> unit list \<Rightarrow> bool" where
  "any_order es es' = True"

definition demo_cache :: cache_world where "demo_cache = \<lparr>cw_up = True, cw_store = Map.empty\<rparr>"

definition demo_provider :: provider_config where
  "demo_provider = \<lparr>cf_enabled = False, cf_client_id = [], cf_client_secret = [], cf_redirect_uri = [], cf_pkce_verified = False\<rparr>"

definition demo_deployment :: deployment where
  "demo_deployment = \<lparr>dp_env = demo_env,
     dp_auth = \<lparr>st_session_seconds = 604800, st_cache_seconds = 60, st_challenge_seconds = 600, st_challenge_attempts = 5,
       st_resend_seconds = 60, st_recent_auth_seconds = 300, st_allowed_origins = [], st_challenge_keys = (\<lambda>v. Some ''k''),
       st_active_challenge_key = ''v1''\<rparr>,
     dp_oidc = \<lparr>oi_google = demo_provider, oi_yahoo = demo_provider, oi_attempt_seconds = 600\<rparr>, dp_namespace = ''dev''\<rparr>"

section \<open>The invariant of executions\<close>

lemma keeps_discard [keeps_rules]: "keeps I p \<Longrightarrow> keeps I (discard p)"
  unfolding discard_def by (intro keeps_rules)

lemma keeps_handle:
  assumes "0 \<le> st_challenge_attempts (dp_auth d)"
  shows "keeps (sys_inv (st_challenge_attempts (dp_auth d)) a0 adm) (handle d op)"
  using assms
  by (cases op) (auto intro!: keeps_discard keeps_outside keeps_begin_registration keeps_complete_registration keeps_login
      keeps_logout keeps_logout_all keeps_reauthenticate keeps_begin_reset keeps_complete_reset keeps_run_bootstrap
      keeps_update_profile keeps_save_address keeps_delete_address keeps_change_access keeps_callback keeps_unlink)

text \<open>What a database must satisfy for the invariant to be about it.\<close>

definition start_ok :: "deployment \<Rightarrow> identity_db \<Rightarrow> bool" where
  "start_ok d db \<longleftrightarrow> 0 \<le> st_challenge_attempts (dp_auth d) \<and> sys_inv (st_challenge_attempts (dp_auth d)) [] False db"

lemma sys_inv_start:
  "start_ok d db \<Longrightarrow> sys_inv (st_challenge_attempts (dp_auth d)) (id_audit db) (has_admin db) db"
  by (simp add: start_ok_def sys_inv_def)

interpretation sys: run_invariant "exec_request d" any_order "(db0, w0)"
  "\<lambda>s es. start_ok d db0 \<longrightarrow> sys_inv (st_challenge_attempts (dp_auth d)) (id_audit db0) (has_admin db0) (fst s)"
  for d db0 w0
proof
  fix s es op es' s'
  assume i: "start_ok d db0 \<longrightarrow> sys_inv (st_challenge_attempts (dp_auth d)) (id_audit db0) (has_admin db0) (fst s)"
    and e: "exec_request d op s = Inr (es', s')"
  obtain r db' w' where run: "run_tx (handle d op) (fst s) (snd s) = (r, db', w')" by (metis prod_cases3)
  with e have s': "fst s' = db'" by (auto simp: exec_request_def)
  show "start_ok d db0 \<longrightarrow> sys_inv (st_challenge_attempts (dp_auth d)) (id_audit db0) (has_admin db0) (fst s')"
  proof
    assume ok: "start_ok d db0"
    then have "0 \<le> st_challenge_attempts (dp_auth d)" by (simp add: start_ok_def)
    from keeps_run_tx [OF keeps_handle [OF this] _ run] show "sys_inv (st_challenge_attempts (dp_auth d)) (id_audit db0) (has_admin db0) (fst s')"
      using i ok s' by simp
  qed
qed (simp add: sys_inv_start)

section \<open>Properties\<close>

text \<open>
  C2: what every execution of the identity services keeps. From a database that satisfies its
  constraints, after any sequence of requests, whether they succeed or fail and whatever the cache
  does: every unique key still holds, with at most one default address of a kind per user; the audit
  trail has only grown; if there was an active, verified administrator there is one; no challenge was
  tried more often than configured; and no user has more than 20 addresses.
\<close>

theorem identity_system_invariant:
  assumes r: "run (exec_request d) any_order (db0, w0) (db, w) es" and ok: "start_ok d db0"
  shows "id_ok db \<and> (\<exists>new. id_audit db = id_audit db0 @ new) \<and> (has_admin db0 \<longrightarrow> has_admin db) \<and>
    (\<forall>c \<in> set (id_challenges db). 0 \<le> ec_attempts c \<and> ec_attempts c \<le> st_challenge_attempts (dp_auth d)) \<and>
    (\<forall>i. count_where (\<lambda>a. ad_user_id a = i) (id_addresses db) \<le> 20)"
proof -
  have s: "sys_inv (st_challenge_attempts (dp_auth d)) (id_audit db0) (has_admin db0) db"
    using sys.run_inv [OF r] ok by simp
  then have "id_audit db = id_audit db0 @ drop (length (id_audit db0)) (id_audit db)"
    by (metis sys_inv_def append_take_drop_id)
  with s show ?thesis by (auto simp: sys_inv_def)
qed

theorem identity_system_invariant_witness:
  "\<exists>db w. run (exec_request demo_deployment) any_order (demo_db, demo_cache) (db, w) [] \<and>
     list_all (\<lambda>r. as_revoked_at r = Some 50) (id_sessions db) \<and> id_ok db \<and> has_admin db"
proof -
  let ?op = "Log_Out_All (\<lambda>n. 50) demo_actor"
  obtain r db w where x: "run_tx (handle demo_deployment ?op) demo_db demo_cache = (r, db, w)" by (metis prod_cases3)
  have "list_all (\<lambda>r. as_revoked_at r = Some 50)
      (id_sessions (fst (snd (run_tx (handle demo_deployment ?op) demo_db demo_cache))))" by code_simp
  then have rv: "list_all (\<lambda>r. as_revoked_at r = Some 50) (id_sessions db)" by (simp only: x fst_conv snd_conv)
  have "exec_request demo_deployment ?op (demo_db, demo_cache) = Inr ([], (db, w))"
    by (simp only: exec_request_def x fst_conv snd_conv prod.case)
  then have "run_ops (exec_request demo_deployment) any_order [?op] ((demo_db, demo_cache), []) = Some ((db, w), [])"
    by (simp add: any_order_def)
  then have run: "run (exec_request demo_deployment) any_order (demo_db, demo_cache) (db, w) []" by (rule run_opsI)
  have "start_ok demo_deployment demo_db" "has_admin demo_db"
    using demo_db_ok by (simp_all add: start_ok_def sys_inv_def demo_deployment_def demo_db_def empty_db_def count_where_def
        has_admin_def active_admin_def demo_user_def role_value_def)
  with identity_system_invariant [OF run] run rv show ?thesis by blast
qed

end
