(* ===== verification/Cache.thy ===== *)
theory Cache
  imports Email_Delivery
begin

text \<open>
  The cache: \<open>cache/keys.py\<close>, \<open>cache/codec.py\<close> and \<open>cache/client.py\<close>.

  Redis is a map from keys to values with their expiry, and a clock. Every command a client sends is
  numbered; before command \<open>n\<close> other clients and the passing of time may change Redis in any way
  (\<open>ce_between n\<close>), and the command may fail (\<open>ce_fails n\<close>): the theorems quantify over both. A command
  that fails after taking effect is one that fails, followed by that effect. \<open>json.loads\<close> and the printing
  of floats are parameters. The loader's result may depend on when it is called.
\<close>

section \<open>Keys\<close>

record cache_key =
  ck_environment :: string
  ck_owner :: string
  ck_version :: int
  ck_scope :: string
  ck_identifier :: string

definition segment_re :: regex where
  "segment_re = Seq (Cls alnum) (ClsRep (alnum @ [(CHR ''.'', CHR ''.''), (CHR ''_'', CHR ''_''), (CHR ''-'', CHR ''-'')]) 0 63)"

definition key_segment :: "string \<Rightarrow> pyval \<Rightarrow> exn + string" where
  "key_segment name v = (let e = Inl (ValueError (''unsafe cache key segment: '' @ name)) in
     case v of VStr s \<Rightarrow> if fullmatch segment_re s then Inr s else e | _ \<Rightarrow> e)"

definition bounded_int :: "pyval \<Rightarrow> int \<Rightarrow> int \<Rightarrow> exn \<Rightarrow> exn + int" where
  "bounded_int v lo hi e = (case v of VInt n \<Rightarrow> if lo \<le> n \<and> n \<le> hi then Inr n else Inl e | _ \<Rightarrow> Inl e)"

definition mk_cache_key :: "pyval \<Rightarrow> pyval \<Rightarrow> pyval \<Rightarrow> pyval \<Rightarrow> pyval \<Rightarrow> exn + cache_key" where
  "mk_cache_key environment owner version scope identifier =
     bind_r (bounded_int version 1 999 (ValueError ''version must be an integer between 1 and 999'')) (\<lambda>n.
     bind_r (key_segment ''environment'' environment) (\<lambda>en.
     bind_r (key_segment ''owner'' owner) (\<lambda>ow.
     bind_r (key_segment ''scope'' scope) (\<lambda>sc.
     bind_r (key_segment ''identifier'' identifier) (\<lambda>i.
     Inr \<lparr>ck_environment = en, ck_owner = ow, ck_version = n, ck_scope = sc, ck_identifier = i\<rparr>)))))"

definition render :: "cache_key \<Rightarrow> string" where
  "render k = ''ekumidayomi:{'' @ ck_environment k @ '':'' @ ck_owner k @ '':'' @ ck_scope k @ '':'' @ ck_identifier k @
     ''}:v'' @ py_str_int (ck_version k)"

definition lock_key :: "cache_key \<Rightarrow> string" where
  "lock_key k = render k @ '':lock''"

section \<open>Encoding\<close>

record cache_codec =
  cd_schema_version :: int
  cd_max_bytes :: nat

definition mk_cache_codec :: "pyval \<Rightarrow> pyval \<Rightarrow> exn + cache_codec" where
  "mk_cache_codec schema_version max_bytes =
     bind_r (bounded_int schema_version 1 999 (ValueError ''schema_version must be an integer between 1 and 999'')) (\<lambda>n.
     bind_r (bounded_int max_bytes 1 1048576 (ValueError ''max_bytes must be an integer between 1 and 1048576'')) (\<lambda>b.
     Inr \<lparr>cd_schema_version = n, cd_max_bytes = nat b\<rparr>))"

text \<open>
  What \<open>json.dumps\<close> makes of a value before printing it: tuples become lists, scalar keys strings. None
  is the error for other types, other keys and non-finite numbers.
\<close>

definition plain_key :: "(pyfloat \<Rightarrow> string) \<Rightarrow> pyval \<Rightarrow> string option" where
  "plain_key fr k = (case k of
     VStr s \<Rightarrow> Some s
   | VBool b \<Rightarrow> Some (if b then ''true'' else ''false'')
   | VNone \<Rightarrow> Some ''null''
   | VInt n \<Rightarrow> Some (py_str_int n)
   | VFloat (Finite m e) \<Rightarrow> Some (fr (Finite m e))
   | _ \<Rightarrow> None)"

fun json_plain :: "(pyfloat \<Rightarrow> string) \<Rightarrow> pyval \<Rightarrow> pyval option"
  and json_plain_list :: "(pyfloat \<Rightarrow> string) \<Rightarrow> pyval list \<Rightarrow> pyval list option"
  and json_plain_items :: "(pyfloat \<Rightarrow> string) \<Rightarrow> (pyval \<times> pyval) list \<Rightarrow> (pyval \<times> pyval) list option"
where
  "json_plain fr (VList xs) = map_option VList (json_plain_list fr xs)"
| "json_plain fr (VTuple xs) = map_option VList (json_plain_list fr xs)"
| "json_plain fr (VDict kvs) = map_option VDict (json_plain_items fr kvs)"
| "json_plain fr (VFloat f) = (case f of Finite m e \<Rightarrow> Some (VFloat f) | _ \<Rightarrow> None)"
| "json_plain fr (VUuid x) = None"
| "json_plain fr (VDatetime t) = None"
| "json_plain fr (VTimedelta t) = None"
| "json_plain fr VOther = None"
| "json_plain fr v = Some v"
| "json_plain_list fr [] = Some []"
| "json_plain_list fr (x # xs) = (case (json_plain fr x, json_plain_list fr xs) of
     (Some y, Some ys) \<Rightarrow> Some (y # ys) | _ \<Rightarrow> None)"
| "json_plain_items fr [] = Some []"
| "json_plain_items fr ((k, x) # kvs) = (case (plain_key fr k, json_plain fr x, json_plain_items fr kvs) of
     (Some s, Some y, Some ys) \<Rightarrow> Some ((VStr s, y) # ys) | _ \<Rightarrow> None)"

definition envelope :: "cache_codec \<Rightarrow> pyval \<Rightarrow> pyval" where
  "envelope cd v = VDict [(VStr ''schema_version'', VInt (cd_schema_version cd)), (VStr ''value'', v)]"

definition encode :: "(pyfloat \<Rightarrow> string) \<Rightarrow> cache_codec \<Rightarrow> pyval \<Rightarrow> exn + string" where
  "encode fr cd v =
     (if v = VNone then Inl (ValueError ''cache value must not be null'')
      else (case json_plain fr v of
        None \<Rightarrow> Inl (ValueError ''cache value must be JSON-safe'')
      | Some p \<Rightarrow> let encoded = utf8_encode (json_dumps fr (envelope cd p)) in
          if cd_max_bytes cd < length encoded then Inl (ValueError ''cache value exceeds the byte limit'')
          else Inr encoded))"

text \<open>Python's comparison of a JSON value with an integer: booleans and integral floats count.\<close>

definition equals_int :: "pyval \<Rightarrow> int \<Rightarrow> bool" where
  "equals_int v n = (case v of
     VInt m \<Rightarrow> m = n
   | VBool b \<Rightarrow> n = (if b then 1 else 0)
   | VFloat (Finite m e) \<Rightarrow> if 0 \<le> e then m * 2 ^ nat e = n else m = n * 2 ^ nat (- e)
   | _ \<Rightarrow> False)"

definition decode :: "(string \<Rightarrow> pyval option) \<Rightarrow> cache_codec \<Rightarrow> string \<Rightarrow> exn + pyval" where
  "decode loads cd raw =
     (if cd_max_bytes cd < length raw then Inl (CacheDecodeError ''cache value exceeds the byte limit'')
      else (case loads raw of
        None \<Rightarrow> Inl (CacheDecodeError ''cache value is corrupt'')
      | Some (VDict kvs) \<Rightarrow>
          if set (map fst kvs) \<noteq> {VStr ''schema_version'', VStr ''value''}
          then Inl (CacheDecodeError ''cache envelope is invalid'')
          else if \<not> equals_int (the (map_of kvs (VStr ''schema_version''))) (cd_schema_version cd)
          then Inl (CacheDecodeError ''cache schema version is unsupported'')
          else if map_of kvs (VStr ''value'') = Some VNone
          then Inl (CacheDecodeError ''cache value must not be null'')
          else Inr (the (map_of kvs (VStr ''value'')))
      | Some _ \<Rightarrow> Inl (CacheDecodeError ''cache envelope is invalid'')))"

section \<open>Redis\<close>

record redis_db =
  rd_now :: instant
  rd_store :: "string \<rightharpoonup> string \<times> instant"

datatype redis_failure = Watch_Conflict | Redis_Failure | Timed_Out

record cache_env =
  ce_between :: "nat \<Rightarrow> redis_db \<Rightarrow> redis_db"
  ce_fails :: "nat \<Rightarrow> redis_failure option"
  ce_loads :: "string \<Rightarrow> pyval option"
  ce_float :: "pyfloat \<Rightarrow> string"

type_synonym redis_state = "redis_db \<times> nat"

definition lookup :: "string \<Rightarrow> redis_db \<Rightarrow> string option" where
  "lookup k r = (case rd_store r k of None \<Rightarrow> None | Some (v, x) \<Rightarrow> if rd_now r < x then Some v else None)"

definition command :: "cache_env \<Rightarrow> (redis_db \<Rightarrow> 'a \<times> redis_db) \<Rightarrow> redis_state \<Rightarrow> (redis_failure + 'a) \<times> redis_state" where
  "command ce f s = (case s of (r, n) \<Rightarrow> let r' = ce_between ce n r in
     case ce_fails ce n of
       Some e \<Rightarrow> (Inl e, r', Suc n)
     | None \<Rightarrow> (case f r' of (x, r2) \<Rightarrow> (Inr x, r2, Suc n)))"

definition redis_set_ex :: "string \<Rightarrow> string \<Rightarrow> duration \<Rightarrow> redis_db \<Rightarrow> unit \<times> redis_db" where
  "redis_set_ex k v d r = ((), r\<lparr>rd_store := (rd_store r)(k \<mapsto> (v, rd_now r + d))\<rparr>)"

definition redis_set_nx :: "string \<Rightarrow> string \<Rightarrow> duration \<Rightarrow> redis_db \<Rightarrow> bool \<times> redis_db" where
  "redis_set_nx k v d r = (if lookup k r \<noteq> None then (False, r)
     else (True, r\<lparr>rd_store := (rd_store r)(k \<mapsto> (v, rd_now r + d))\<rparr>))"

definition redis_delete :: "string \<Rightarrow> redis_db \<Rightarrow> bool \<times> redis_db" where
  "redis_delete k r = (lookup k r \<noteq> None, r\<lparr>rd_store := (rd_store r)(k := None)\<rparr>)"

text \<open>\<open>WATCH\<close>, \<open>GET\<close>, compare, \<open>MULTI\<close>, \<open>DEL\<close>, \<open>EXEC\<close>: atomic, or a watch conflict.\<close>

definition redis_delete_if :: "string \<Rightarrow> string \<Rightarrow> redis_db \<Rightarrow> bool \<times> redis_db" where
  "redis_delete_if k v r = (if lookup k r = Some v then redis_delete k r else (False, r))"

section \<open>The client\<close>

record cache_client =
  cc_codec :: cache_codec
  cc_fail_open :: bool

text \<open>The timeout only decides which commands fail, so a client keeps its codec and its failure mode.\<close>

definition positive_up_to_30 :: "int \<Rightarrow> int \<Rightarrow> bool" where
  "positive_up_to_30 m e \<longleftrightarrow> 0 < m \<and> (if 0 \<le> e then m * 2 ^ nat e \<le> 30 else m \<le> 30 * 2 ^ nat (- e))"

definition mk_cache_client :: "cache_codec option \<Rightarrow> pyval \<Rightarrow> pyval \<Rightarrow> exn + cache_client" where
  "mk_cache_client codec fail_open timeout = (case fail_open of
     VBool b \<Rightarrow>
       (let cc = \<lparr>cc_codec = (case codec of Some cd \<Rightarrow> cd | None \<Rightarrow> \<lparr>cd_schema_version = 1, cd_max_bytes = 262144\<rparr>), cc_fail_open = b\<rparr>;
            e = Inl (ValueError ''operation_timeout_seconds must be between 0 and 30'') in
        case timeout of
          VInt n \<Rightarrow> if positive_up_to_30 n 0 then Inr cc else e
        | VFloat (Finite m x) \<Rightarrow> if positive_up_to_30 m x then Inr cc else e
        | VFloat f \<Rightarrow> e
        | _ \<Rightarrow> Inl (TypeError ''operation_timeout_seconds must be a number''))
   | _ \<Rightarrow> Inl (TypeError ''fail_open must be a boolean''))"

definition cache_unavailable :: exn where
  "cache_unavailable = CacheUnavailableError ''cache backend is unavailable''"

definition on_failure :: "cache_client \<Rightarrow> 'a \<Rightarrow> exn + 'a" where
  "on_failure cc x = (if cc_fail_open cc then Inr x else Inl cache_unavailable)"

definition validate_ttl :: "pyval \<Rightarrow> exn + int" where
  "validate_ttl v = (case v of
     VInt n \<Rightarrow> if 1 \<le> n \<and> n \<le> 86400 then Inr n else Inl (ValueError ''ttl_seconds must be between 1 and 86400'')
   | _ \<Rightarrow> Inl (TypeError ''ttl_seconds must be an integer''))"

definition validate_milliseconds :: "string \<Rightarrow> pyval \<Rightarrow> int \<Rightarrow> int \<Rightarrow> exn + int" where
  "validate_milliseconds name v lo hi = (case v of
     VInt n \<Rightarrow> if lo \<le> n \<and> n \<le> hi then Inr n
       else Inl (ValueError (name @ '' must be between '' @ py_str_int lo @ '' and '' @ py_str_int hi))
   | _ \<Rightarrow> Inl (TypeError (name @ '' must be an integer'')))"

definition cache_read :: "cache_env \<Rightarrow> cache_client \<Rightarrow> cache_key \<Rightarrow> redis_state \<Rightarrow> (exn + (bool \<times> pyval option)) \<times> redis_state" where
  "cache_read ce cc k s = (case command ce (\<lambda>r. (lookup (render k) r, r)) s of
     (Inl e, s1) \<Rightarrow> (on_failure cc (False, None), s1)
   | (Inr None, s1) \<Rightarrow> (Inr (True, None), s1)
   | (Inr (Some raw), s1) \<Rightarrow> (case decode (ce_loads ce) (cc_codec cc) raw of
       Inr v \<Rightarrow> (Inr (True, Some v), s1)
     | Inl e \<Rightarrow> (Inr (True, None), snd (command ce (redis_delete (render k)) s1))))"

definition cache_get :: "cache_env \<Rightarrow> cache_client \<Rightarrow> cache_key \<Rightarrow> redis_state \<Rightarrow> (exn + pyval option) \<times> redis_state" where
  "cache_get ce cc k s = (case cache_read ce cc k s of
     (Inl e, s1) \<Rightarrow> (Inl e, s1) | (Inr (a, v), s1) \<Rightarrow> (Inr v, s1))"

definition cache_set :: "cache_env \<Rightarrow> cache_client \<Rightarrow> cache_key \<Rightarrow> pyval \<Rightarrow> pyval \<Rightarrow> redis_state \<Rightarrow> (exn + bool) \<times> redis_state" where
  "cache_set ce cc k v ttl s = (case bind_r (validate_ttl ttl) (\<lambda>n. bind_r (encode (ce_float ce) (cc_codec cc) v) (\<lambda>raw. Inr (n, raw))) of
     Inl e \<Rightarrow> (Inl e, s)
   | Inr (n, raw) \<Rightarrow> (case command ce (redis_set_ex (render k) raw (secs n)) s of
       (Inl e, s1) \<Rightarrow> (on_failure cc False, s1) | (Inr u, s1) \<Rightarrow> (Inr True, s1)))"

definition cache_delete :: "cache_env \<Rightarrow> cache_client \<Rightarrow> cache_key \<Rightarrow> redis_state \<Rightarrow> (exn + bool) \<times> redis_state" where
  "cache_delete ce cc k s = (case command ce (redis_delete (render k)) s of
     (Inl e, s1) \<Rightarrow> (on_failure cc False, s1) | (Inr b, s1) \<Rightarrow> (Inr b, s1))"

fun delete_each :: "cache_env \<Rightarrow> cache_client \<Rightarrow> cache_key list \<Rightarrow> int \<Rightarrow> redis_state \<Rightarrow> (exn + int) \<times> redis_state" where
  "delete_each ce cc [] n s = (Inr n, s)"
| "delete_each ce cc (k # ks) n s = (case cache_delete ce cc k s of
     (Inl e, s1) \<Rightarrow> (Inl e, s1) | (Inr b, s1) \<Rightarrow> delete_each ce cc ks (n + (if b then 1 else 0)) s1)"

definition invalidate :: "cache_env \<Rightarrow> cache_client \<Rightarrow> cache_key list \<Rightarrow> redis_state \<Rightarrow> (exn + int) \<times> redis_state" where
  "invalidate ce cc ks s = (if 100 < length ks then (Inl (ValueError ''cannot invalidate more than 100 keys''), s)
     else delete_each ce cc ks 0 s)"

definition acquire_lock :: "cache_env \<Rightarrow> cache_client \<Rightarrow> string \<Rightarrow> string \<Rightarrow> int \<Rightarrow> redis_state \<Rightarrow> (exn + bool option) \<times> redis_state" where
  "acquire_lock ce cc lk token lease s = (case command ce (redis_set_nx lk token (millis lease)) s of
     (Inl e, s1) \<Rightarrow> (on_failure cc None, s1) | (Inr b, s1) \<Rightarrow> (Inr (Some b), s1))"

definition release_lock :: "cache_env \<Rightarrow> cache_client \<Rightarrow> string \<Rightarrow> string \<Rightarrow> redis_state \<Rightarrow> (exn + bool) \<times> redis_state" where
  "release_lock ce cc lk token s = (case command ce (redis_delete_if lk token) s of
     (Inl Watch_Conflict, s1) \<Rightarrow> (Inr False, s1)
   | (Inl _, s1) \<Rightarrow> (on_failure cc False, s1)
   | (Inr b, s1) \<Rightarrow> (Inr b, s1))"

definition load_and_set :: "cache_env \<Rightarrow> cache_client \<Rightarrow> cache_key \<Rightarrow> (nat \<Rightarrow> exn + pyval) \<Rightarrow> pyval \<Rightarrow> redis_state \<Rightarrow> (exn + pyval) \<times> redis_state" where
  "load_and_set ce cc k loader ttl s = (case loader (snd s) of
     Inl e \<Rightarrow> (Inl e, s)
   | Inr v \<Rightarrow> (case cache_set ce cc k v ttl s of (Inl e, s1) \<Rightarrow> (Inl e, s1) | (Inr b, s1) \<Rightarrow> (Inr v, s1)))"

text \<open>\<open>try: ... finally: release\<close>; an exception of the release replaces the result.\<close>

definition load_locked :: "cache_env \<Rightarrow> cache_client \<Rightarrow> cache_key \<Rightarrow> (nat \<Rightarrow> exn + pyval) \<Rightarrow> pyval \<Rightarrow> string \<Rightarrow> redis_state \<Rightarrow> (exn + pyval) \<times> redis_state" where
  "load_locked ce cc k loader ttl token s = (case load_and_set ce cc k loader ttl s of (res, s1) \<Rightarrow>
     (case release_lock ce cc (lock_key k) token s1 of (Inl e, s2) \<Rightarrow> (Inl e, s2) | (Inr b, s2) \<Rightarrow> (res, s2)))"

definition poll_interval :: duration where "poll_interval = millis 25"

text \<open>The waiting loop. \<open>late n\<close> is by how much the sleep before command \<open>n\<close> overshoots.\<close>

function wait_loop ::
  "cache_env \<Rightarrow> cache_client \<Rightarrow> cache_key \<Rightarrow> (nat \<Rightarrow> exn + pyval) \<Rightarrow> pyval \<Rightarrow> (nat \<Rightarrow> nat) \<Rightarrow> instant \<Rightarrow> instant \<Rightarrow> redis_state \<Rightarrow>
   (exn + pyval) \<times> redis_state" where
  "wait_loop ce cc k loader ttl late deadline t s =
     (if t < deadline
      then let t' = t + min poll_interval (deadline - t) + int (late (snd s)) in
        (case cache_read ce cc k s of
           (Inl e, s1) \<Rightarrow> (Inl e, s1)
         | (Inr (available, Some v), s1) \<Rightarrow> (Inr v, s1)
         | (Inr (available, None), s1) \<Rightarrow>
             if \<not> available then (loader (snd s1), s1) else wait_loop ce cc k loader ttl late deadline t' s1)
      else load_and_set ce cc k loader ttl s)"
  by pat_completeness auto
termination
  by (relation "measure (\<lambda>(ce, cc, k, loader, ttl, late, deadline, t, s). nat (deadline - t))")
    (auto simp: poll_interval_def millis_def)

definition get_or_load ::
  "cache_env \<Rightarrow> cache_client \<Rightarrow> string \<Rightarrow> (nat \<Rightarrow> nat) \<Rightarrow> instant \<Rightarrow> cache_key \<Rightarrow> (nat \<Rightarrow> exn + pyval) \<Rightarrow> pyval \<Rightarrow> pyval \<Rightarrow> pyval \<Rightarrow>
   redis_state \<Rightarrow> (exn + pyval) \<times> redis_state" where
  "get_or_load ce cc token late t k loader ttl lease_ms wait_ms s =
     (case bind_r (validate_ttl ttl) (\<lambda>_. bind_r (validate_milliseconds ''lease_ms'' lease_ms 100 30000) (\<lambda>l.
           bind_r (validate_milliseconds ''wait_ms'' wait_ms 0 10000) (\<lambda>w. Inr (l, w)))) of
        Inl e \<Rightarrow> (Inl e, s)
      | Inr (l, w) \<Rightarrow> (case cache_read ce cc k s of
          (Inl e, s1) \<Rightarrow> (Inl e, s1)
        | (Inr (available, Some v), s1) \<Rightarrow> (Inr v, s1)
        | (Inr (available, None), s1) \<Rightarrow>
            if \<not> available then (loader (snd s1), s1)
            else (case acquire_lock ce cc (lock_key k) token l s1 of
              (Inl e, s2) \<Rightarrow> (Inl e, s2)
            | (Inr None, s2) \<Rightarrow> (loader (snd s2), s2)
            | (Inr (Some True), s2) \<Rightarrow> load_locked ce cc k loader ttl token s2
            | (Inr (Some False), s2) \<Rightarrow> wait_loop ce cc k loader ttl late (t + millis w) t s2)))"

declare wait_loop.simps [simp del]

section \<open>Keys: facts\<close>

definition key_ok :: "cache_key \<Rightarrow> bool" where
  "key_ok k \<longleftrightarrow> list_all (fullmatch segment_re) [ck_environment k, ck_owner k, ck_scope k, ck_identifier k] \<and>
     1 \<le> ck_version k \<and> ck_version k \<le> 999"

lemma key_segment_Inr: "key_segment name v = Inr s \<longleftrightarrow> v = VStr s \<and> fullmatch segment_re s"
  by (cases v) (auto simp: key_segment_def Let_def)

lemma bounded_int_Inr: "bounded_int v lo hi e = Inr n \<longleftrightarrow> v = VInt n \<and> lo \<le> n \<and> n \<le> hi"
  by (cases v) (auto simp: bounded_int_def)

lemma mk_cache_key_ok: "mk_cache_key a b c d e = Inr k \<Longrightarrow> key_ok k"
  by (auto simp: mk_cache_key_def result_simps key_ok_def key_segment_Inr bounded_int_Inr)

definition separator :: "char \<Rightarrow> bool" where
  "separator c \<longleftrightarrow> c = CHR '':'' \<or> c = CHR ''}''"

lemma segment_chars:
  assumes "fullmatch segment_re s" "separator c"
  shows "c \<notin> set s"
proof -
  let ?cs = "alnum @ [(CHR ''.'', CHR ''.''), (CHR ''_'', CHR ''_''), (CHR ''-'', CHR ''-'')]"
  have "s \<in> lang segment_re" using assms(1) by (simp add: fullmatch_iff_lang)
  then obtain d v where s: "s = d # v" "in_class alnum d" "\<forall>x \<in> set v. in_class ?cs x"
    by (auto simp: segment_re_def conc_lang_def list_all_iff)
  have "\<not> in_class alnum c" "\<not> in_class ?cs c" using assms(2) by (auto simp: separator_def in_class_def alnum_def)
  with s show ?thesis by auto
qed

lemma sep_inj: "c \<notin> set a \<Longrightarrow> c \<notin> set b \<Longrightarrow> a @ c # x = b @ c # y \<longleftrightarrow> a = b \<and> x = y"
proof (induction a arbitrary: b)
  case Nil
  then show ?case by (cases b) auto
next
  case (Cons d a)
  then show ?case by (cases b) auto
qed

lemma nat_digits_range: "c \<in> set (nat_digits n) \<Longrightarrow> 48 \<le> ord c \<and> ord c \<le> 57"
proof (induction n rule: nat_digits.induct)
  case (1 n)
  then show ?case
    by (subst (asm) (2) nat_digits.simps) (auto split: if_splits)
qed

lemma key_okD:
  assumes "key_ok k" "separator c"
  shows "c \<notin> set (ck_environment k)" "c \<notin> set (ck_owner k)" "c \<notin> set (ck_scope k)" "c \<notin> set (ck_identifier k)"
  using assms segment_chars by (auto simp: key_ok_def)

lemmas key_separators = key_okD [where c = "CHR '':''"] key_okD [where c = "CHR ''}''"]

lemma render_inj:
  assumes k: "key_ok k" "key_ok k'" and e: "render k = render k'"
  shows "k = k'"
proof -
  have "ck_environment k = ck_environment k' \<and> ck_owner k = ck_owner k' \<and> ck_scope k = ck_scope k' \<and>
      ck_identifier k = ck_identifier k' \<and> py_str_int (ck_version k) = py_str_int (ck_version k')"
    using e by (simp add: render_def sep_inj separator_def key_separators [OF k(1)] key_separators [OF k(2)])
  moreover have "ck_version k = int (nat (ck_version k))" "ck_version k' = int (nat (ck_version k'))"
    using k by (simp_all add: key_ok_def)
  ultimately show ?thesis
    using py_str_int_nat_inj [of "nat (ck_version k)" "nat (ck_version k')"] by (cases k; cases k') auto
qed

lemma lock_key_apart:
  assumes k: "key_ok k" "key_ok k'"
  shows "lock_key k \<noteq> render k'"
proof
  assume e: "lock_key k = render k'"
  have "py_str_int (ck_version k) @ '':lock'' = py_str_int (ck_version k')"
    using e by (simp add: lock_key_def render_def sep_inj separator_def key_separators [OF k(1)] key_separators [OF k(2)])
  then have "CHR '':'' \<in> set (py_str_int (ck_version k'))"
    using arg_cong [of _ _ set] by (metis Un_iff list.set_intros(1) set_append)
  then show False using k nat_digits_range [of "CHR '':''"] by (auto simp: key_ok_def py_str_int_def)
qed

section \<open>Coherence\<close>

text \<open>
  \<open>coherent\<close>: whatever a client can read under the key is one of the values \<open>V\<close>. \<open>cacheable\<close>: a value of
  \<open>V\<close> that can be stored, and reads back as one of \<open>V\<close>.
\<close>

definition coherent :: "cache_env \<Rightarrow> cache_client \<Rightarrow> cache_key \<Rightarrow> pyval set \<Rightarrow> redis_db \<Rightarrow> bool" where
  "coherent ce cc k V r \<longleftrightarrow> (\<forall>raw v. lookup (render k) r = Some raw \<and> decode (ce_loads ce) (cc_codec cc) raw = Inr v \<longrightarrow> v \<in> V)"

definition cacheable :: "cache_env \<Rightarrow> cache_client \<Rightarrow> pyval set \<Rightarrow> pyval \<Rightarrow> bool" where
  "cacheable ce cc V v \<longleftrightarrow> v \<in> V \<and> (case encode (ce_float ce) (cc_codec cc) v of
     Inl e \<Rightarrow> False
   | Inr raw \<Rightarrow> (case decode (ce_loads ce) (cc_codec cc) raw of Inl e \<Rightarrow> True | Inr u \<Rightarrow> u \<in> V))"

definition others_coherent :: "cache_env \<Rightarrow> cache_client \<Rightarrow> cache_key \<Rightarrow> pyval set \<Rightarrow> bool" where
  "others_coherent ce cc k V \<longleftrightarrow> (\<forall>n r. coherent ce cc k V r \<longrightarrow> coherent ce cc k V (ce_between ce n r))"

lemma command_coherent:
  assumes "others_coherent ce cc k V" "coherent ce cc k V (fst s)" "command ce f s = (x, s')"
    and "\<And>r. coherent ce cc k V r \<Longrightarrow> coherent ce cc k V (snd (f r))"
  shows "coherent ce cc k V (fst s')"
proof -
  have "coherent ce cc k V (ce_between ce (snd s) (fst s))" using assms(1,2) by (simp add: others_coherent_def)
  with assms(3,4) show ?thesis by (auto simp: command_def Let_def case_prod_unfold split: option.splits)
qed

lemma lookup_update [simp]:
  "k' \<noteq> k \<Longrightarrow> lookup k (r\<lparr>rd_store := (rd_store r)(k' := x)\<rparr>) = lookup k r"
  "lookup k (r\<lparr>rd_store := (rd_store r)(k := None)\<rparr>) = None"
  by (auto simp: lookup_def split: option.splits)

lemma delete_coherent: "coherent ce cc k V r \<Longrightarrow> coherent ce cc k V (snd (redis_delete k' r))"
  by (cases "k' = render k") (auto simp: coherent_def redis_delete_def)

lemma set_nx_coherent: "coherent ce cc k V r \<Longrightarrow> k' \<noteq> render k \<Longrightarrow> coherent ce cc k V (snd (redis_set_nx k' t d r))"
  by (auto simp: coherent_def redis_set_nx_def)

lemma delete_if_coherent: "coherent ce cc k V r \<Longrightarrow> coherent ce cc k V (snd (redis_delete_if k' t r))"
  by (auto simp: redis_delete_if_def delete_coherent)

lemma set_ex_coherent:
  assumes "coherent ce cc k V r" "\<And>v. decode (ce_loads ce) (cc_codec cc) raw = Inr v \<Longrightarrow> v \<in> V"
  shows "coherent ce cc k V (snd (redis_set_ex (render k) raw d r))"
  using assms by (auto simp: coherent_def redis_set_ex_def lookup_def split: if_splits)

lemma read_coherent:
  assumes o: "others_coherent ce cc k V" and c: "coherent ce cc k V (fst s)" and f: "cc_fail_open cc"
    and r: "cache_read ce cc k s = (res, s')"
  shows "coherent ce cc k V (fst s') \<and> (\<exists>a vo. res = Inr (a, vo) \<and> (\<forall>v. vo = Some v \<longrightarrow> v \<in> V))"
proof -
  obtain x s1 where cm: "command ce (\<lambda>r. (lookup (render k) r, r)) s = (x, s1)"
    by (cases "command ce (\<lambda>r. (lookup (render k) r, r)) s") auto
  have c1: "coherent ce cc k V (fst s1)" by (rule command_coherent [OF o c cm]) simp
  have hit: "v \<in> V" if "x = Inr (Some raw)" "decode (ce_loads ce) (cc_codec cc) raw = Inr v" for raw v
    using cm that c1 by (auto simp: command_def Let_def coherent_def case_prod_unfold split: option.splits)
  have d: "coherent ce cc k V (fst (snd (command ce (redis_delete (render k)) s1)))"
    by (rule command_coherent [OF o c1 prod.collapse [symmetric]]) (rule delete_coherent)
  show ?thesis
    using r cm c1 hit d f by (auto simp: cache_read_def on_failure_def split: sum.splits option.splits)
qed


lemma set_coherent:
  assumes o: "others_coherent ce cc k V" and c: "coherent ce cc k V (fst s)" and f: "cc_fail_open cc"
    and v: "cacheable ce cc V v" and t: "validate_ttl ttl = Inr n" and r: "cache_set ce cc k v ttl s = (res, s')"
  shows "coherent ce cc k V (fst s') \<and> (\<exists>b. res = Inr b)"
proof -
  from v obtain raw where raw: "encode (ce_float ce) (cc_codec cc) v = Inr raw"
    "\<And>u. decode (ce_loads ce) (cc_codec cc) raw = Inr u \<Longrightarrow> u \<in> V"
    by (auto simp: cacheable_def split: sum.splits)
  obtain x s1 where cm: "command ce (redis_set_ex (render k) raw (secs n)) s = (x, s1)"
    by (cases "command ce (redis_set_ex (render k) raw (secs n)) s") auto
  have "coherent ce cc k V (fst s1)" by (rule command_coherent [OF o c cm]) (rule set_ex_coherent [OF _ raw(2)])
  with r raw t cm f show ?thesis by (auto simp: cache_set_def on_failure_def split: sum.splits)
qed

text \<open>A result: a value of \<open>V\<close>, or the exception of a call of the loader.\<close>

definition from_loader :: "(nat \<Rightarrow> exn + pyval) \<Rightarrow> pyval set \<Rightarrow> exn + pyval \<Rightarrow> bool" where
  "from_loader loader V res \<longleftrightarrow> (case res of Inr v \<Rightarrow> v \<in> V | Inl e \<Rightarrow> \<exists>n. loader n = Inl e)"

lemma from_loader_call: "\<forall>n v. loader n = Inr v \<longrightarrow> cacheable ce cc V v \<Longrightarrow> from_loader loader V (loader n)"
  by (auto simp: from_loader_def cacheable_def split: sum.splits)

lemma load_and_set_coherent:
  assumes o: "others_coherent ce cc k V" and c: "coherent ce cc k V (fst s)" and f: "cc_fail_open cc"
    and l: "\<forall>n v. loader n = Inr v \<longrightarrow> cacheable ce cc V v" and t: "validate_ttl ttl = Inr n"
    and r: "load_and_set ce cc k loader ttl s = (res, s')"
  shows "coherent ce cc k V (fst s') \<and> from_loader loader V res"
proof (cases "loader (snd s)")
  case (Inl e)
  with r c from_loader_call [OF l, of "snd s"] show ?thesis by (auto simp: load_and_set_def)
next
  case (Inr v)
  obtain x s1 where cs: "cache_set ce cc k v ttl s = (x, s1)" by (cases "cache_set ce cc k v ttl s") auto
  have v: "cacheable ce cc V v" using l Inr by blast
  from set_coherent [OF o c f v t cs] Inr r cs from_loader_call [OF l, of "snd s"] show ?thesis
    by (auto simp: load_and_set_def)
qed

lemma load_locked_coherent:
  assumes o: "others_coherent ce cc k V" and c: "coherent ce cc k V (fst s)" and f: "cc_fail_open cc"
    and l: "\<forall>n v. loader n = Inr v \<longrightarrow> cacheable ce cc V v" and t: "validate_ttl ttl = Inr n"
    and r: "load_locked ce cc k loader ttl token s = (res, s')"
  shows "coherent ce cc k V (fst s') \<and> from_loader loader V res"
proof -
  obtain x s1 where a: "load_and_set ce cc k loader ttl s = (x, s1)" by (cases "load_and_set ce cc k loader ttl s") auto
  note ih = load_and_set_coherent [OF o c f l t a]
  obtain y s2 where cm: "command ce (redis_delete_if (lock_key k) token) s1 = (y, s2)"
    by (cases "command ce (redis_delete_if (lock_key k) token) s1") auto
  have "coherent ce cc k V (fst s2)" by (rule command_coherent [OF o conjunct1 [OF ih] cm]) (rule delete_if_coherent)
  with ih r a cm f show ?thesis
    by (auto simp: load_locked_def release_lock_def on_failure_def split: sum.splits redis_failure.splits)
qed

lemma wait_loop_coherent:
  assumes o: "others_coherent ce cc k V" and f: "cc_fail_open cc"
    and l: "\<forall>n v. loader n = Inr v \<longrightarrow> cacheable ce cc V v" and ttl: "validate_ttl ttl = Inr n"
  shows "coherent ce cc k V (fst s) \<Longrightarrow> wait_loop ce cc k loader ttl late deadline t s = (res, s') \<Longrightarrow>
    coherent ce cc k V (fst s') \<and> from_loader loader V res"
proof (induction "nat (deadline - t)" arbitrary: t s rule: less_induct)
  case less
  show ?case
  proof (cases "t < deadline")
    case False
    with less.prems(2) have "load_and_set ce cc k loader ttl s = (res, s')" by (simp add: wait_loop.simps)
    then show ?thesis by (rule load_and_set_coherent [OF o less.prems(1) f l ttl])
  next
    case True
    obtain a vo s1 where r: "cache_read ce cc k s = (Inr (a, vo), s1)" and c1: "coherent ce cc k V (fst s1)"
      and v: "\<And>v. vo = Some v \<Longrightarrow> v \<in> V"
      using read_coherent [OF o less.prems(1) f] by (cases "cache_read ce cc k s") blast
    let ?t = "t + min poll_interval (deadline - t) + int (late (snd s))"
    have "nat (deadline - ?t) < nat (deadline - t)" using True by (auto simp: poll_interval_def millis_def)
    from less.hyps [OF this c1] less.prems(2) True r c1 v from_loader_call [OF l, of "snd s1"] show ?thesis
      by (subst (asm) wait_loop.simps) (auto simp: Let_def from_loader_def split: option.splits if_splits)
  qed
qed

lemma json_plain_None: "json_plain fr v = Some VNone \<Longrightarrow> v = VNone"
  by (cases v) (auto split: pyfloat.splits)

lemma decode_envelope:
  assumes "ce_loads ce raw = Some (envelope cd p)" "length raw \<le> cd_max_bytes cd" "p \<noteq> VNone"
  shows "decode (ce_loads ce) cd raw = Inr p"
  using assms by (simp add: decode_def envelope_def equals_int_def)

text \<open>A lock is taken only when none is live, and released only by the token that holds it.\<close>

lemma lock_fenced:
  "fst (redis_set_nx lk tk d r) \<longleftrightarrow> lookup lk r = None"
  "lookup lk r = Some tk' \<Longrightarrow> tk' \<noteq> tk \<Longrightarrow> redis_delete_if lk tk r = (False, r)"
  "0 < d \<Longrightarrow> lookup lk r = None \<Longrightarrow> lookup lk (snd (redis_set_nx lk tk d r)) = Some tk"
  by (auto simp: redis_set_nx_def redis_delete_if_def lookup_def)

section \<open>Concrete values\<close>

definition demo_codec :: cache_codec where "demo_codec = \<lparr>cd_schema_version = 1, cd_max_bytes = 100\<rparr>"

definition demo_client :: cache_client where "demo_client = \<lparr>cc_codec = demo_codec, cc_fail_open = True\<rparr>"

definition demo_key :: cache_key where
  "demo_key = \<lparr>ck_environment = ''test'', ck_owner = ''catalog'', ck_version = 1, ck_scope = ''product'', ck_identifier = ''7''\<rparr>"

definition demo_cache :: cache_env where
  "demo_cache = \<lparr>ce_between = \<lambda>n r. r, ce_fails = \<lambda>n. None,
     ce_loads = \<lambda>s. Some (envelope demo_codec (VInt 5)), ce_float = \<lambda>f. []\<rparr>"

definition demo_redis :: redis_db where "demo_redis = \<lparr>rd_now = 0, rd_store = Map.empty\<rparr>"

lemma demo_key_ok: "key_ok demo_key"
  by (simp add: key_ok_def demo_key_def segment_re_def regex_eval)

lemma demo_cacheable: "cacheable demo_cache demo_client {VInt 5} (VInt 5)"
  by code_simp

section \<open>Properties\<close>



text \<open>
  C35: what is cached is what is read. A value stored under a key, until its time to live is over and as long as
  the entry is neither changed nor unreachable, reads back as its JSON form; and keys do not interfere: distinct
  keys have distinct names in Redis, and no lock has the name of a value. JSON parsing is assumed to invert
  printing on the stored envelope.
\<close>

theorem cache_roundtrip:
  assumes k: "key_ok k" "key_ok k'" and v: "v \<noteq> VNone" "json_plain (ce_float ce) v = Some p"
    and loads: "ce_loads ce (utf8_encode (json_dumps (ce_float ce) (envelope (cc_codec cc) p))) = Some (envelope (cc_codec cc) p)"
    and s: "cache_set ce cc k v (VInt ttl) s0 = (Inr True, r, n)"
    and quiet: "ce_fails ce n = None" "rd_store (ce_between ce n r) (render k) = rd_store r (render k)"
      "rd_now (ce_between ce n r) < rd_now r + secs ttl"
  shows "fst (cache_get ce cc k (r, n)) = Inr (Some p) \<and> (render k' = render k \<longleftrightarrow> k' = k) \<and> lock_key k' \<noteq> render k"
proof -
  let ?raw = "utf8_encode (json_dumps (ce_float ce) (envelope (cc_codec cc) p))"
  have enc: "encode (ce_float ce) (cc_codec cc) v = (if cd_max_bytes (cc_codec cc) < length ?raw
      then Inl (ValueError ''cache value exceeds the byte limit'') else Inr ?raw)"
    using v by (simp add: encode_def Let_def)
  have small: "length ?raw \<le> cd_max_bytes (cc_codec cc)" and st: "rd_store r (render k) = Some (?raw, rd_now r + secs ttl)"
    using s enc by (auto simp: cache_set_def on_failure_def command_def redis_set_ex_def validate_ttl_def Let_def
        split: if_splits option.splits prod.splits)
  have p: "p \<noteq> VNone" using v json_plain_None by blast
  have "lookup (render k) (ce_between ce n r) = Some ?raw" using quiet st by (simp add: lookup_def)
  then have "fst (cache_get ce cc k (r, n)) = Inr (Some p)"
    using quiet(1) decode_envelope [OF loads small p] by (simp add: cache_get_def cache_read_def command_def Let_def)
  then show ?thesis using render_inj [OF k(2,1)] lock_key_apart [OF k(2,1)] by blast
qed

theorem cache_roundtrip_witness:
  "fst (cache_get demo_cache demo_client demo_key (snd (cache_set demo_cache demo_client demo_key (VInt 5) (VInt 60) (demo_redis, 0)))) = Inr (Some (VInt 5))"
proof -
  let ?s = "cache_set demo_cache demo_client demo_key (VInt 5) (VInt 60) (demo_redis, 0)"
  have v: "VInt 5 \<noteq> VNone" "json_plain (ce_float demo_cache) (VInt 5) = Some (VInt 5)" by simp_all
  have loads: "ce_loads demo_cache (utf8_encode (json_dumps (ce_float demo_cache) (envelope (cc_codec demo_client) (VInt 5)))) =
      Some (envelope (cc_codec demo_client) (VInt 5))" by (simp add: demo_cache_def demo_client_def)
  have "fst ?s = Inr True" by code_simp
  then obtain r n where s: "?s = (Inr True, r, n)" by (cases ?s) auto
  from cache_roundtrip [OF demo_key_ok demo_key_ok v loads s] s show ?thesis
    by (simp add: demo_cache_def secs_def)
qed

end
