(* ===== verification/Http_Query.thy ===== *)
theory Http_Query
  imports Core_Types
begin

text \<open>
  The conventions of the versioned routes: \<open>api/query.py\<close> (pagination, sorting and filtering from the query
  string) and \<open>api/schemas.py\<close> (pages and money on the wire). The set of allowed fields is given by a list
  of its elements.
\<close>

section \<open>Queries\<close>

definition field_re :: regex where
  "field_re = Seq (Cls lower) (ClsRep (lower_digit @ [(CHR ''_'', CHR ''_'')]) 0 63)"

definition max_sort_fields :: nat where "max_sort_fields = 10"
definition max_filters :: nat where "max_filters = 20"
definition max_query_value_length :: nat where "max_query_value_length = 500"

text \<open>The declared bounds of the parameters are checked by the framework, then by \<open>PageRequest\<close> again.\<close>

definition pagination :: "int \<Rightarrow> int \<Rightarrow> exn + page_request" where
  "pagination p s = mk_page_request (VInt p) (VInt s)"

datatype direction = Asc | Desc

record sort_field =
  sf_name :: string
  sf_direction :: direction

definition validate_allowed_fields :: "string list \<Rightarrow> bool \<Rightarrow> exn + unit" where
  "validate_allowed_fields allowed require_id =
     (if allowed = [] \<or> list_ex (\<lambda>f. \<not> fullmatch field_re f) allowed
      then Inl (ValueError ''allowed fields must contain safe field names'')
      else if require_id \<and> ''id'' \<notin> set allowed
      then Inl (ValueError ''allowed sort fields must include id'')
      else Inr ())"

definition read_sort :: "string \<Rightarrow> sort_field" where
  "read_sort raw = \<lparr>sf_name = removeprefix ''-'' raw, sf_direction = (if py_startswith raw ''-'' then Desc else Asc)\<rparr>"

fun sort_loop :: "string list \<Rightarrow> string list \<Rightarrow> string list \<Rightarrow> sort_field list \<Rightarrow> exn + (string list \<times> sort_field list)" where
  "sort_loop allowed [] seen out = Inr (seen, out)"
| "sort_loop allowed (raw # raws) seen out =
     (let f = read_sort raw; name = sf_name f in
      if \<not> fullmatch field_re name \<or> name \<notin> set allowed
      then Inl (ValueError (''sorting by '' @ py_repr name @ '' is not allowed''))
      else if name \<in> set seen then Inl (ValueError ''sort fields must be unique'')
      else sort_loop allowed raws (seen @ [name]) (out @ [f]))"

definition raw_fields :: "string \<Rightarrow> string list" where
  "raw_fields s = (if s \<noteq> [] then py_split (CHR '','') s else [])"

definition parse_sort :: "string list \<Rightarrow> string option \<Rightarrow> exn + sort_field list" where
  "parse_sort allowed v =
     bind_r (validate_allowed_fields allowed True) (\<lambda>_.
     case v of Some s \<Rightarrow> if max_query_value_length < length s then Inl (ValueError ''sort value is too long'') else
         (if max_sort_fields < length (raw_fields s)
          then Inl (ValueError (''sorting supports at most '' @ py_str_int (int max_sort_fields) @ '' fields''))
          else bind_r (sort_loop allowed (raw_fields s) [] []) (\<lambda>(seen, out).
            Inr (if ''id'' \<notin> set seen then out @ [\<lparr>sf_name = ''id'', sf_direction = Asc\<rparr>] else out)))
     | None \<Rightarrow> Inr [\<lparr>sf_name = ''id'', sf_direction = Asc\<rparr>])"

fun filter_loop :: "string list \<Rightarrow> string list \<Rightarrow> (string \<times> string) list \<Rightarrow> exn + (string \<times> string) list" where
  "filter_loop allowed [] parsed = Inr parsed"
| "filter_loop allowed (raw # raws) parsed =
     (if max_query_value_length < length raw then Inl (ValueError ''filter value is too long'')
      else let e = Inl (ValueError ''filter must use one unique allowed field:value pair'') in
      case py_partition (CHR '':'') raw of
        (name, None) \<Rightarrow> e
      | (name, Some v) \<Rightarrow>
          if v = [] \<or> v \<noteq> py_strip v \<or> \<not> fullmatch field_re name \<or> name \<notin> set allowed \<or> name \<in> fst ` set parsed
          then e else filter_loop allowed raws (parsed @ [(name, v)]))"

definition parse_filters :: "string list \<Rightarrow> string list option \<Rightarrow> exn + (string \<times> string) list" where
  "parse_filters allowed vs =
     bind_r (validate_allowed_fields allowed False) (\<lambda>_.
     let raw_filters = (case vs of Some rs \<Rightarrow> rs | None \<Rightarrow> []) in
     if max_filters < length raw_filters
     then Inl (ValueError (''filtering supports at most '' @ py_str_int (int max_filters) @ '' fields''))
     else filter_loop allowed raw_filters [])"

section \<open>Responses\<close>

record page_meta =
  pm_page :: int
  pm_page_size :: int
  pm_total_items :: int
  pm_total_pages :: int
  pm_has_previous :: bool
  pm_has_next :: bool

text \<open>The bounds of the fields, then \<open>validate_derived_values\<close>; a rejected model raises a \<open>ValueError\<close>.\<close>

definition validate_derived_values :: "page_meta \<Rightarrow> exn + page_meta" where
  "validate_derived_values m =
     (let expected_pages = (pm_total_items m + pm_page_size m - 1) div pm_page_size m in
      if pm_total_pages m \<noteq> expected_pages
      then Inl (ValueError ''total_pages does not match total_items and page_size'')
      else if pm_has_previous m \<noteq> (1 < pm_page m) then Inl (ValueError ''has_previous does not match page'')
      else if pm_has_next m \<noteq> (pm_page m < expected_pages)
      then Inl (ValueError ''has_next does not match page and total_pages'')
      else Inr m)"

definition mk_page_meta :: "page_meta \<Rightarrow> exn + page_meta" where
  "mk_page_meta m =
     bind_r (require (1 \<le> pm_page m \<and> 1 \<le> pm_page_size m \<and> pm_page_size m \<le> 100 \<and> 0 \<le> pm_total_items m \<and> 0 \<le> pm_total_pages m)
       (ValueError ''pagination'')) (\<lambda>_. validate_derived_values m)"

record 'a api_page =
  ap_items :: "'a list"
  ap_pagination :: page_meta

definition validate_item_count :: "'a api_page \<Rightarrow> exn + 'a api_page" where
  "validate_item_count g =
     (if pm_page_size (ap_pagination g) < int (length (ap_items g)) then Inl (ValueError ''items cannot exceed page_size'')
      else if pm_total_items (ap_pagination g) < int (length (ap_items g)) then Inl (ValueError ''items cannot exceed total_items'')
      else Inr g)"

definition meta_of :: "'a page \<Rightarrow> page_meta" where
  "meta_of g = \<lparr>pm_page = pg_page g, pm_page_size = pg_page_size g, pm_total_items = pg_total_items g,
     pm_total_pages = total_pages g, pm_has_previous = has_previous g, pm_has_next = has_next g\<rparr>"

definition page_from_domain :: "'a page \<Rightarrow> exn + 'a api_page" where
  "page_from_domain g = bind_r (mk_page_meta (meta_of g)) (\<lambda>m. validate_item_count \<lparr>ap_items = pg_items g, ap_pagination = m\<rparr>)"

definition serialize_page :: "'a page \<Rightarrow> 'a list option \<Rightarrow> exn + 'a api_page" where
  "serialize_page g items = bind_r (mk_page_meta (meta_of g))
     (\<lambda>m. validate_item_count \<lparr>ap_items = (case items of None \<Rightarrow> pg_items g | Some xs \<Rightarrow> xs), ap_pagination = m\<rparr>)"

definition digit_class :: char_class where "digit_class = [(CHR ''0'', CHR ''9'')]"

definition integer_part_re :: regex where
  "integer_part_re = Alt (chr_re (CHR ''0'')) (Seq (Cls [(CHR ''1'', CHR ''9'')]) (ClsRep digit_class 0 14))"

definition money_response_re :: regex where
  "money_response_re = Seq (opt_re (chr_re (CHR ''-''))) (Seq integer_part_re (Seq (chr_re (CHR ''.'')) (ClsRep digit_class 4 4)))"

definition currency_re :: regex where "currency_re = ClsRep [(CHR ''A'', CHR ''Z'')] 3 3"

text \<open>\<open>format(amount, ".4f")\<close>: \<open>n\<close> ten-thousandths, after rounding half to even.\<close>

fun zero_padded :: "nat \<Rightarrow> nat \<Rightarrow> string" where
  "zero_padded 0 n = []"
| "zero_padded (Suc w) n = zero_padded w (n div 10) @ [char_of (48 + n mod 10)]"

definition format_fixed :: "decimal \<Rightarrow> string" where
  "format_fixed d = (case d of
     Dec s c k \<Rightarrow>
       (let n = (if - 4 \<le> k then c * 10 ^ nat (k + 4) else div_half_even c (10 ^ nat (- 4 - k))) in
        (if s then ''-'' else []) @ nat_digits (n div 10000) @ ''.'' @ zero_padded money_scale n)
   | DecInf s \<Rightarrow> if s then ''-Infinity'' else ''Infinity''
   | QNaN \<Rightarrow> ''NaN''
   | SNaN \<Rightarrow> ''sNaN'')"

record money_response =
  mr_amount :: string
  mr_currency :: string

definition money_response :: "money \<Rightarrow> exn + money_response" where
  "money_response m = (let a = format_fixed (amount m) in
     bind_r (require (fullmatch money_response_re a) (ValueError ''amount'')) (\<lambda>_.
     bind_r (require (length (currency m) = 3 \<and> fullmatch currency_re (currency m)) (ValueError ''currency'')) (\<lambda>_.
     Inr \<lparr>mr_amount = a, mr_currency = currency m\<rparr>)))"

section \<open>Queries: facts\<close>

text \<open>What a client writes for a sort field and for a filter.\<close>

definition show_sort :: "sort_field \<Rightarrow> string" where
  "show_sort f = (case sf_direction f of Asc \<Rightarrow> sf_name f | Desc \<Rightarrow> CHR ''-'' # sf_name f)"

definition show_filter :: "string \<times> string \<Rightarrow> string" where
  "show_filter p = fst p @ '':'' @ snd p"

definition field_char :: "char \<Rightarrow> bool" where
  "field_char c \<longleftrightarrow> in_class (lower_digit @ [(CHR ''_'', CHR ''_'')]) c"

lemma field_re_iff: "fullmatch field_re s \<longleftrightarrow> (\<exists>c t. s = c # t \<and> in_class lower c \<and> length t \<le> 63 \<and> list_all field_char t)"
  unfolding fullmatch_iff_lang field_re_def in_Seq_Cls field_char_def by (simp add: list_all_iff)

lemma field_chars: "fullmatch field_re s \<Longrightarrow> c \<in> set s \<Longrightarrow> field_char c"
  by (auto simp: field_re_iff list_all_iff field_char_def lower_sub)

lemma field_re_punctuation:
  assumes "fullmatch field_re s"
  shows "s \<noteq> []" "CHR '','' \<notin> set s" "CHR '':'' \<notin> set s" "CHR ''-'' \<notin> set s"
proof -
  have "\<not> field_char (CHR '','')" "\<not> field_char (CHR '':'')" "\<not> field_char (CHR ''-'')"
    by (simp_all add: field_char_def in_class_def lower_digit_def)
  then show "CHR '','' \<notin> set s" "CHR '':'' \<notin> set s" "CHR ''-'' \<notin> set s" using field_chars [OF assms] by blast+
  show "s \<noteq> []" using assms by (auto simp: field_re_iff)
qed

lemma show_read_sort: "show_sort (read_sort raw) = raw"
  by (cases raw) (auto simp: show_sort_def read_sort_def removeprefix_def py_startswith_def)

lemma read_show_sort: "fullmatch field_re (sf_name f) \<Longrightarrow> read_sort (show_sort f) = f"
  using field_re_punctuation [of "sf_name f"]
  by (cases "sf_name f"; cases "sf_direction f") (auto simp: show_sort_def read_sort_def removeprefix_def py_startswith_def)

text \<open>A list of requested fields: allowed, well formed and without repetition.\<close>

definition sort_request :: "string list \<Rightarrow> sort_field list \<Rightarrow> bool" where
  "sort_request allowed gs \<longleftrightarrow> distinct (map sf_name gs) \<and>
     list_all (\<lambda>g. fullmatch field_re (sf_name g) \<and> sf_name g \<in> set allowed) gs"

lemma sort_loop_iff:
  "sort_loop allowed raws seen out = Inr r \<longleftrightarrow>
    (\<exists>gs. raws = map show_sort gs \<and> r = (seen @ map sf_name gs, out @ gs) \<and> sort_request allowed gs \<and>
       set seen \<inter> set (map sf_name gs) = {})"
proof (induction raws arbitrary: seen out)
  case Nil
  then show ?case by (auto simp: sort_request_def)
next
  case (Cons raw raws)
  let ?f = "read_sort raw"
  show ?case
  proof
    assume "sort_loop allowed (raw # raws) seen out = Inr r"
    then have ok: "fullmatch field_re (sf_name ?f)" "sf_name ?f \<in> set allowed" "sf_name ?f \<notin> set seen"
      and "sort_loop allowed raws (seen @ [sf_name ?f]) (out @ [?f]) = Inr r"
      by (auto simp: Let_def split: if_splits)
    then obtain gs where "raws = map show_sort gs" "r = (seen @ [sf_name ?f] @ map sf_name gs, out @ [?f] @ gs)"
      "sort_request allowed gs" "set (seen @ [sf_name ?f]) \<inter> set (map sf_name gs) = {}"
      unfolding Cons.IH by auto
    with ok show "\<exists>gs. raw # raws = map show_sort gs \<and> r = (seen @ map sf_name gs, out @ gs) \<and> sort_request allowed gs \<and>
       set seen \<inter> set (map sf_name gs) = {}"
      by (intro exI [of _ "?f # gs"]) (auto simp: sort_request_def show_read_sort)
  next
    assume "\<exists>gs. raw # raws = map show_sort gs \<and> r = (seen @ map sf_name gs, out @ gs) \<and> sort_request allowed gs \<and>
       set seen \<inter> set (map sf_name gs) = {}"
    then obtain g gs where g: "raw = show_sort g" "raws = map show_sort gs" "r = (seen @ map sf_name (g # gs), out @ g # gs)"
      "sort_request allowed (g # gs)" "set seen \<inter> set (map sf_name (g # gs)) = {}" by auto
    then have "read_sort raw = g" by (simp add: sort_request_def read_show_sort)
    moreover have "sort_loop allowed raws (seen @ [sf_name g]) (out @ [g]) = Inr r"
      unfolding Cons.IH using g by (intro exI [of _ gs]) (auto simp: sort_request_def)
    ultimately show "sort_loop allowed (raw # raws) seen out = Inr r"
      using g by (auto simp: Let_def sort_request_def)
  qed
qed

lemma show_sort_no_comma: "fullmatch field_re (sf_name g) \<Longrightarrow> CHR '','' \<notin> set (show_sort g)"
  using field_re_punctuation [of "sf_name g"] by (auto simp: show_sort_def split: direction.splits)

lemma join_shown_empty:
  "sort_request allowed gs \<Longrightarrow> py_join '','' (map show_sort gs) = [] \<longleftrightarrow> gs = []"
  by (cases gs; cases "tl gs")
    (auto simp: sort_request_def show_sort_def dest: field_re_punctuation(1) split: direction.splits)

lemma split_shown:
  "raw_fields s = map show_sort gs \<and> sort_request allowed gs \<longleftrightarrow>
   s = py_join '','' (map show_sort gs) \<and> sort_request allowed gs"
proof (cases "sort_request allowed gs")
  case True
  show ?thesis
  proof (cases "gs = []")
    case False
    then have "py_split (CHR '','') (py_join '','' (map show_sort gs)) = map show_sort gs"
      using True show_sort_no_comma by (intro py_split_join) (auto simp: sort_request_def list_all_iff)
    then show ?thesis using True False join_shown_empty [OF True] py_join_split [of "CHR '',''" s] by (auto simp: raw_fields_def)
  qed (auto simp: raw_fields_def)
qed simp

lemma parse_sort_Some:
  "parse_sort allowed (Some s) = Inr fs \<longleftrightarrow> validate_allowed_fields allowed True = Inr () \<and> length s \<le> 500 \<and>
    length (raw_fields s) \<le> 10 \<and> (\<exists>r. sort_loop allowed (raw_fields s) [] [] = Inr r \<and>
      fs = (if ''id'' \<in> set (fst r) then snd r else snd r @ [\<lparr>sf_name = ''id'', sf_direction = Asc\<rparr>]))"
  by (auto simp: parse_sort_def max_query_value_length_def max_sort_fields_def bind_r_eq_Inr split: if_splits)

text \<open>The identifier breaks ties.\<close>

definition with_id :: "sort_field list \<Rightarrow> sort_field list" where
  "with_id gs = (if ''id'' \<in> set (map sf_name gs) then gs else gs @ [\<lparr>sf_name = ''id'', sf_direction = Asc\<rparr>])"

lemma parse_sort_iff:
  "parse_sort allowed (Some s) = Inr fs \<longleftrightarrow> validate_allowed_fields allowed True = Inr () \<and>
    (\<exists>gs. s = py_join '','' (map show_sort gs) \<and> sort_request allowed gs \<and> length gs \<le> 10 \<and>
       length (py_join '','' (map show_sort gs)) \<le> 500 \<and> fs = with_id gs)"
proof
  assume a: "parse_sort allowed (Some s) = Inr fs"
  then obtain r where ok: "validate_allowed_fields allowed True = Inr ()" "length s \<le> 500" "length (raw_fields s) \<le> 10"
    and r: "sort_loop allowed (raw_fields s) [] [] = Inr r"
      "fs = (if ''id'' \<in> set (fst r) then snd r else snd r @ [\<lparr>sf_name = ''id'', sf_direction = Asc\<rparr>])"
    unfolding parse_sort_Some by blast
  from r(1) obtain gs where gs: "raw_fields s = map show_sort gs" "sort_request allowed gs" "r = (map sf_name gs, gs)"
    unfolding sort_loop_iff by auto
  then have "s = py_join '','' (map show_sort gs)" using split_shown [of s gs allowed] by blast
  moreover have "length gs \<le> 10" using ok(3) gs(1) by simp
  moreover have "fs = with_id gs" using r(2) gs(3) by (simp only: with_id_def fst_conv snd_conv)
  ultimately show "validate_allowed_fields allowed True = Inr () \<and>
    (\<exists>gs. s = py_join '','' (map show_sort gs) \<and> sort_request allowed gs \<and> length gs \<le> 10 \<and>
       length (py_join '','' (map show_sort gs)) \<le> 500 \<and> fs = with_id gs)" using ok gs(2) by blast
next
  assume "validate_allowed_fields allowed True = Inr () \<and>
    (\<exists>gs. s = py_join '','' (map show_sort gs) \<and> sort_request allowed gs \<and> length gs \<le> 10 \<and>
       length (py_join '','' (map show_sort gs)) \<le> 500 \<and> fs = with_id gs)"
  then obtain gs where ok: "validate_allowed_fields allowed True = Inr ()" and s: "s = py_join '','' (map show_sort gs)"
    and gs: "sort_request allowed gs" "length gs \<le> 10" "length s \<le> 500" "fs = with_id gs" by blast
  then have raw: "raw_fields s = map show_sort gs" using split_shown [of s gs allowed] by blast
  then have "sort_loop allowed (raw_fields s) [] [] = Inr (map sf_name gs, gs)" unfolding sort_loop_iff using gs(1) by auto
  then show "parse_sort allowed (Some s) = Inr fs"
    unfolding parse_sort_Some using ok gs raw by (auto simp: with_id_def)
qed

lemma parse_sort_None: "parse_sort allowed None = parse_sort allowed (Some [])"
  by (simp add: parse_sort_def max_query_value_length_def max_sort_fields_def raw_fields_def)

lemma validate_allowed_Inr:
  "validate_allowed_fields allowed b = Inr u \<longleftrightarrow>
    allowed \<noteq> [] \<and> list_all (fullmatch field_re) allowed \<and> (b \<longrightarrow> ''id'' \<in> set allowed)"
  by (auto simp: validate_allowed_fields_def list_all_iff list_ex_iff)

definition filter_request :: "string list \<Rightarrow> (string \<times> string) list \<Rightarrow> bool" where
  "filter_request allowed qs \<longleftrightarrow> distinct (map fst qs) \<and>
     list_all (\<lambda>(n, v). fullmatch field_re n \<and> n \<in> set allowed \<and> v \<noteq> [] \<and> py_strip v = v \<and>
       length n + length v < max_query_value_length) qs"

lemma filter_loop_iff:
  "filter_loop allowed raws parsed = Inr ps \<longleftrightarrow>
    (\<exists>qs. ps = parsed @ qs \<and> raws = map show_filter qs \<and> filter_request allowed qs \<and> fst ` set parsed \<inter> fst ` set qs = {})"
proof (induction raws arbitrary: parsed)
  case Nil
  then show ?case by (auto simp: filter_request_def)
next
  case (Cons raw raws)
  obtain n vo where part: "py_partition (CHR '':'') raw = (n, vo)" by (cases "py_partition (CHR '':'') raw")
  show ?case
  proof (cases vo)
    case None
    have "raw \<noteq> show_filter (a, v)" if "fullmatch field_re a" for a v
      using part None field_re_punctuation(3) [OF that] py_partition_Some [of "CHR '':''" raw a v]
      by (auto simp: show_filter_def)
    then show ?thesis using part None by (auto simp: Let_def filter_request_def split: if_splits) blast
  next
    case (Some v)
    then have raw: "raw = n @ CHR '':'' # v" "CHR '':'' \<notin> set n" using part py_partition_Some by blast+
    have same: "raw = show_filter (a, w) \<and> fullmatch field_re a \<longleftrightarrow> a = n \<and> w = v \<and> fullmatch field_re a" for a w
      using part Some field_re_punctuation(3) [of a] py_partition_Some [of "CHR '':''" raw a w] raw by (auto simp: show_filter_def)
    let ?ok = "length raw \<le> max_query_value_length \<and> v \<noteq> [] \<and> v = py_strip v \<and> fullmatch field_re n \<and> n \<in> set allowed \<and> n \<notin> fst ` set parsed"
    have step: "filter_loop allowed (raw # raws) parsed = Inr ps \<longleftrightarrow> ?ok \<and> filter_loop allowed raws (parsed @ [(n, v)]) = Inr ps"
      using part Some by (auto simp: Let_def)
    show ?thesis unfolding step Cons.IH
    proof
      assume "?ok \<and> (\<exists>qs. ps = (parsed @ [(n, v)]) @ qs \<and> raws = map show_filter qs \<and> filter_request allowed qs \<and>
          fst ` set (parsed @ [(n, v)]) \<inter> fst ` set qs = {})"
      then obtain qs where "?ok" "ps = (parsed @ [(n, v)]) @ qs" "raws = map show_filter qs" "filter_request allowed qs"
        "fst ` set (parsed @ [(n, v)]) \<inter> fst ` set qs = {}" by blast
      then show "\<exists>qs. ps = parsed @ qs \<and> raw # raws = map show_filter qs \<and> filter_request allowed qs \<and> fst ` set parsed \<inter> fst ` set qs = {}"
        using raw by (intro exI [of _ "(n, v) # qs"]) (auto simp: show_filter_def filter_request_def)
    next
      assume "\<exists>qs. ps = parsed @ qs \<and> raw # raws = map show_filter qs \<and> filter_request allowed qs \<and> fst ` set parsed \<inter> fst ` set qs = {}"
      then obtain a w rs where q: "ps = parsed @ (a, w) # rs" "raw = show_filter (a, w)" "raws = map show_filter rs"
        "filter_request allowed ((a, w) # rs)" "fst ` set parsed \<inter> fst ` set ((a, w) # rs) = {}" by (auto simp: map_eq_Cons_conv)
      with same [of a w] have "a = n" "w = v" by (auto simp: filter_request_def)
      with q raw show "?ok \<and> (\<exists>qs. ps = (parsed @ [(n, v)]) @ qs \<and> raws = map show_filter qs \<and> filter_request allowed qs \<and>
          fst ` set (parsed @ [(n, v)]) \<inter> fst ` set qs = {})"
        by (auto simp: filter_request_def show_filter_def)
    qed
  qed
qed

section \<open>Responses: facts\<close>

lemma mk_page_meta_of:
  assumes "mk_page items tot p s = Inr g"
  shows "mk_page_meta (meta_of g) = Inr (meta_of g)"
proof -
  have "1 \<le> pg_page g" "1 \<le> pg_page_size g" "pg_page_size g \<le> 100" "0 \<le> pg_total_items g"
    using assms by (auto simp: mk_page_def mk_page_request_def result_simps split: if_splits)
  then show ?thesis
    by (simp add: mk_page_meta_def meta_of_def validate_derived_values_def total_pages_def has_previous_def has_next_def
        pos_imp_zdiv_nonneg_iff Let_def)
qed

lemma nat_digits_class: "list_all (in_class digit_class) (nat_digits n)"
proof (induction n rule: nat_digits.induct)
  case (1 n)
  have "in_class digit_class (char_of (48 + n mod 10))" by (simp add: in_class_def digit_class_def)
  then show ?case using 1 by (subst nat_digits.simps) (auto simp: in_class_def digit_class_def list_all_iff)
qed

lemma nat_digits_num: "length (nat_digits n) = num_digits n"
  by (induction n rule: nat_digits.induct) (subst nat_digits.simps, subst num_digits.simps, simp)

lemma nat_digits_lead: "0 < n \<Longrightarrow> in_class [(CHR ''1'', CHR ''9'')] (hd (nat_digits n))"
proof (induction n rule: nat_digits.induct)
  case (1 n)
  show ?case
  proof (cases "n < 10")
    case True
    then show ?thesis using 1(2) by (subst nat_digits.simps) (simp add: in_class_def)
  next
    case False
    then show ?thesis using 1(1) by (subst nat_digits.simps) (simp add: hd_append)
  qed
qed

lemma zero_padded_class: "list_all (in_class digit_class) (zero_padded w n)" "length (zero_padded w n) = w"
  by (induction w arbitrary: n) (simp_all add: in_class_def digit_class_def)

lemma digit_chars: "\<not> in_class digit_class (CHR ''.'')" "\<not> in_class digit_class (CHR ''-'')"
  by (simp_all add: in_class_def digit_class_def)

lemma in_Seq: "s \<in> lang (Seq r t) \<longleftrightarrow> (\<exists>u v. s = u @ v \<and> u \<in> lang r \<and> v \<in> lang t)"
  by (auto simp: conc_lang_def)

lemma nat_digits_integer_part:
  "nat_digits a \<in> lang integer_part_re \<longleftrightarrow> a < 10 ^ 15"
proof (cases "a = 0")
  case True
  moreover have "nat_digits 0 = ''0''" by (simp add: nat_digits.simps char_of_eq_iff)
  ultimately show ?thesis by (simp add: integer_part_re_def)
next
  case False
  obtain c t where d: "nat_digits a = c # t" by (cases "nat_digits a") auto
  have c: "in_class [(CHR ''1'', CHR ''9'')] c" using nat_digits_lead [of a] False d by simp
  then have "c \<noteq> CHR ''0''" by (auto simp: in_class_def)
  moreover have "list_all (in_class digit_class) t" using nat_digits_class [of a] d by simp
  moreover have "length t \<le> 14 \<longleftrightarrow> a < 10 ^ Suc 14"
    using nat_digits_num [of a] d num_digits_le_iff [of a 14] by auto
  ultimately show ?thesis unfolding d using c by (simp add: integer_part_re_def in_Seq_Cls del: lang.simps(5))
qed

lemma integer_part_digits:
  "y \<in> lang integer_part_re \<Longrightarrow>
   y \<noteq> [] \<and> list_all (in_class digit_class) y"
  unfolding integer_part_re_def lang.simps(6) in_Seq_Cls Un_iff by (auto simp: in_class_def digit_class_def)

lemma sign_split:
  assumes "x @ y = x' @ y'" "x \<in> {[], ''-''}" "x' \<in> {[], ''-''}"
    "y \<noteq> []" "y' \<noteq> []" "list_all (in_class digit_class) y" "list_all (in_class digit_class) y'"
  shows "y = y'"
  using assms digit_chars(2) by (cases y; cases y') auto

lemma before_point:
  assumes "x \<in> {[], ''-''}" "list_all (in_class digit_class) y"
  shows "takeWhile (\<lambda>c. c \<noteq> CHR ''.'') (x @ y @ CHR ''.'' # z) = x @ y"
proof -
  have "\<forall>c\<in>set (x @ y). c \<noteq> CHR ''.''" using assms digit_chars(1) by (auto simp: list_all_iff)
  then have "takeWhile (\<lambda>c. c \<noteq> CHR ''.'') ((x @ y) @ CHR ''.'' # z) = x @ y" by (subst takeWhile_append2) auto
  then show ?thesis by simp
qed

lemma money_response_reD:
  assumes "fullmatch money_response_re w"
  shows "\<exists>x y z. w = x @ y @ CHR ''.'' # z \<and> x \<in> {[], ''-''} \<and> y \<in> lang integer_part_re"
proof -
  from assms obtain x v where w: "w = x @ v" "x \<in> lang (opt_re (chr_re (CHR ''-'')))"
    "v \<in> lang (Seq integer_part_re (Seq (chr_re (CHR ''.'')) (ClsRep digit_class 4 4)))"
    unfolding fullmatch_iff_lang money_response_re_def in_Seq [of w] by blast
  from w(3) obtain y v' where v: "v = y @ v'" "y \<in> lang integer_part_re" "v' \<in> lang (Seq (chr_re (CHR ''.'')) (ClsRep digit_class 4 4))"
    unfolding in_Seq [of v] by blast
  from v(3) obtain z where "v' = CHR ''.'' # z" unfolding in_Seq_Cls by auto
  moreover have "x \<in> {[], ''-''}" using w(2) by auto
  ultimately show ?thesis using w(1) v by auto
qed

lemma money_response_re_iff:
  assumes x: "x \<in> {[], ''-''}"
  shows "fullmatch money_response_re (x @ nat_digits a @ ''.'' @ zero_padded 4 n) \<longleftrightarrow> a < 10 ^ 15"
proof
  assume "fullmatch money_response_re (x @ nat_digits a @ ''.'' @ zero_padded 4 n)"
  from money_response_reD [OF this] obtain x' y z where s: "x @ nat_digits a @ ''.'' @ zero_padded 4 n = x' @ y @ CHR ''.'' # z"
    and x': "x' \<in> {[], ''-''}" and y: "y \<in> lang integer_part_re" by blast
  have d: "y \<noteq> []" "list_all (in_class digit_class) y" using integer_part_digits [OF y] by auto
  have "x @ nat_digits a = x' @ y"
    using before_point [OF x nat_digits_class, of a "zero_padded 4 n"] before_point [OF x' d(2), of z] s by simp
  then have "nat_digits a = y" by (rule sign_split [OF _ x x' _ d(1) nat_digits_class d(2)]) simp
  then show "a < 10 ^ 15" using y nat_digits_integer_part by blast
next
  assume "a < 10 ^ 15"
  then have y: "nat_digits a \<in> lang integer_part_re" using nat_digits_integer_part by blast
  have z: "''.'' @ zero_padded 4 n \<in> lang (Seq (chr_re (CHR ''.'')) (ClsRep digit_class 4 4))"
    unfolding in_Seq_Cls using zero_padded_class [of 4 n] by auto
  have x0: "x \<in> lang (opt_re (chr_re (CHR ''-'')))" using x by auto
  show "fullmatch money_response_re (x @ nat_digits a @ ''.'' @ zero_padded 4 n)"
    unfolding fullmatch_iff_lang money_response_re_def
    by (rule in_Seq [THEN iffD2], intro exI conjI, rule refl, rule x0, rule in_Seq [THEN iffD2], intro exI conjI, rule refl, rule y, rule z)
qed

text \<open>The number a decimal text denotes, in ten-thousandths when four digits follow the point.\<close>

definition read_fixed :: "string \<Rightarrow> int" where
  "read_fixed s = signed (py_startswith s ''-'') (digits_value (filter (\<lambda>c. c \<noteq> CHR ''-'' \<and> c \<noteq> CHR ''.'') s))"

lemma digits_value_padded: "digits_value (s @ zero_padded w n) = digits_value s * 10 ^ w + n mod 10 ^ w"
proof (induction w arbitrary: n)
  case (Suc w)
  have "digits_value (s @ zero_padded (Suc w) n) = 10 * digits_value (s @ zero_padded w (n div 10)) + n mod 10"
    by (simp add: digits_value_snoc flip: append_assoc)
  then show ?case unfolding Suc by (simp add: mod_mult2_eq algebra_simps)
qed simp

lemma filter_digits: "list_all (in_class digit_class) s \<Longrightarrow> filter (\<lambda>c. c \<noteq> CHR ''-'' \<and> c \<noteq> CHR ''.'') s = s"
  using digit_chars by (induction s) auto

lemma read_fixed_format: "read_fixed (format_fixed (Dec s c (- 4))) = signed s c"
proof -
  have "hd (nat_digits n) \<noteq> CHR ''-''" for n
    using nat_digits_class [of n] digit_chars(2) by (cases "nat_digits n") auto
  then have "\<not> py_startswith (nat_digits n @ u) ''-''" for n u
    by (cases "nat_digits n") (auto simp: py_startswith_def, metis list.sel(1))
  moreover have "digits_value (nat_digits (c div 10000) @ zero_padded 4 c) = c"
    by (simp add: digits_value_padded digits_value_nat_digits)
  ultimately show ?thesis
    using filter_digits [OF nat_digits_class, of "c div 10000"] filter_digits [OF zero_padded_class(1), of 4 c]
    by (simp add: read_fixed_def format_fixed_def money_scale_def py_startswith_def)
qed

section \<open>Properties\<close>

text \<open>
  C37: query strings are read exactly. A sort value is accepted exactly when it is, within 500 characters, the
  comma-separated text of at most ten fields with their directions, all allowed and without repetition; the
  result is these fields in this order, completed by the identifier, so that the order of rows is total. A list
  of filters is accepted exactly when it is, within the bounds, the text of distinct allowed fields with
  non-empty values that neither begin nor end with white space; the result is these pairs.
\<close>

theorem query_roundtrip:
  "(parse_sort allowed v = Inr fs \<longleftrightarrow>
      list_all (fullmatch field_re) allowed \<and> ''id'' \<in> set allowed \<and>
      (\<exists>gs. (case v of None \<Rightarrow> [] | Some s \<Rightarrow> s) = py_join '','' (map show_sort gs) \<and> sort_request allowed gs \<and> length gs \<le> 10 \<and>
         length (py_join '','' (map show_sort gs)) \<le> 500 \<and> fs = with_id gs)) \<and>
   (parse_filters allowed (Some rs) = Inr ps \<longleftrightarrow>
      allowed \<noteq> [] \<and> list_all (fullmatch field_re) allowed \<and> rs = map show_filter ps \<and> length ps \<le> 20 \<and> filter_request allowed ps)"
proof
  have "validate_allowed_fields allowed True = Inr () \<longleftrightarrow> list_all (fullmatch field_re) allowed \<and> ''id'' \<in> set allowed"
    by (auto simp: validate_allowed_Inr)
  then show "parse_sort allowed v = Inr fs \<longleftrightarrow> list_all (fullmatch field_re) allowed \<and> ''id'' \<in> set allowed \<and>
      (\<exists>gs. (case v of None \<Rightarrow> [] | Some s \<Rightarrow> s) = py_join '','' (map show_sort gs) \<and> sort_request allowed gs \<and> length gs \<le> 10 \<and>
         length (py_join '','' (map show_sort gs)) \<le> 500 \<and> fs = with_id gs)"
    using parse_sort_None parse_sort_iff [of allowed _ fs] by (cases v) (simp_all only: option.case conj_assoc)
  show "parse_filters allowed (Some rs) = Inr ps \<longleftrightarrow>
      allowed \<noteq> [] \<and> list_all (fullmatch field_re) allowed \<and> rs = map show_filter ps \<and> length ps \<le> 20 \<and> filter_request allowed ps"
    unfolding parse_filters_def bind_r_eq_Inr validate_allowed_Inr by (auto simp: max_filters_def Let_def filter_loop_iff)
qed

text \<open>
  C39: whatever a listing produces can be sent. Every page the domain builds is accepted by the response
  models, whose checks of the derived values never fail on it, with the same items, or with any items of the
  same number that were adapted for the client.
\<close>

theorem pages_serialize:
  assumes "mk_page items tot p s = Inr g" "length adapted = length items"
  shows "page_from_domain g = Inr \<lparr>ap_items = items, ap_pagination = meta_of g\<rparr> \<and>
    serialize_page g (Some adapted) = Inr \<lparr>ap_items = adapted, ap_pagination = meta_of g\<rparr>"
proof -
  have "pg_items g = items" "int (length items) \<le> pg_page_size g" "int (length items) \<le> pg_total_items g"
    using assms(1) by (auto simp: mk_page_def mk_page_request_def result_simps split: if_splits)
  then show ?thesis
    using mk_page_meta_of [OF assms(1)] assms(2)
    by (simp add: page_from_domain_def serialize_page_def validate_item_count_def meta_of_def)
qed

theorem pages_serialize_witness:
  "page_from_domain \<lparr>pg_items = ''ab'', pg_total_items = 5, pg_page = 2, pg_page_size = 2\<rparr> =
   Inr \<lparr>ap_items = ''ab'', ap_pagination = \<lparr>pm_page = 2, pm_page_size = 2, pm_total_items = 5, pm_total_pages = 3,
     pm_has_previous = True, pm_has_next = True\<rparr>\<rparr>"
  using pages_serialize [of "''ab''" "VInt 5" "VInt 2" "VInt 2" "\<lparr>pg_items = ''ab'', pg_total_items = 5, pg_page = 2, pg_page_size = 2\<rparr>" "''xy''"]
  by (simp add: mk_page_def mk_page_request_def require_integer_def meta_of_def total_pages_def has_previous_def has_next_def)

text \<open>
  C38: money on the wire is exact. An amount that the domain accepts is sent exactly when it is a number that
  the column type \<open>NUMERIC(19, 4)\<close> can hold, fewer than fifteen digits before the point being no restriction
  beyond that; the text has four decimals and denotes the amount, without rounding, and the currency goes along.
  Other amounts, and the not-a-number the domain lets through, are refused. Upper-casing is assumed not to
  produce lower-case ASCII letters.
\<close>

theorem money_sent_exactly:
  assumes u: "\<forall>c. \<forall>d\<in>set (u c). \<not> (97 \<le> ord d \<and> ord d \<le> 122)" and m: "mk_money u parse v cur = Inr m"
  shows "(money_response m = Inr r \<longleftrightarrow>
    (\<exists>s c. amount m = Dec s c (- 4) \<and> c < 10 ^ money_precision \<and>
       r = \<lparr>mr_amount = format_fixed (amount m), mr_currency = currency m\<rparr> \<and> read_fixed (mr_amount r) = signed s c))"
proof -
  obtain c where "dec_quantize c (- 4) = Inr (amount m)" and cur: "normalize_currency u cur = Inr (currency m)"
    using m by (auto simp: mk_money_def quantize_money_def result_simps split: money_input.splits option.splits)
  then consider (num) s n where "amount m = Dec s n (- 4)" | (nan) "amount m = QNaN"
    by (auto simp: dec_quantize_def Let_def split: decimal.splits if_splits) metis+
  moreover have "length (currency m) = 3 \<and> list_all (\<lambda>c. 65 \<le> ord c \<and> ord c \<le> 90) (currency m)"
    using u cur by (intro normalize_currency_upper) auto
  then have c: "length (currency m) = 3 \<and> fullmatch currency_re (currency m)"
    by (simp add: fullmatch_iff_lang currency_re_def in_class_def list_all_iff)
  ultimately show ?thesis
  proof cases
    case num
    have "fullmatch money_response_re (format_fixed (amount m)) \<longleftrightarrow> n div 10000 < 10 ^ 15"
      using money_response_re_iff [of "if s then ''-'' else []" "n div 10000" n] num by (simp add: format_fixed_def money_scale_def)
    moreover have "n div 10000 < 10 ^ 15 \<longleftrightarrow> n < 10 ^ money_precision"
      by (simp add: div_less_iff_less_mult money_precision_def)
    ultimately show ?thesis using c num read_fixed_format [of s n] by (auto simp: money_response_def Let_def result_simps)
  next
    case nan
    have "\<not> fullmatch money_response_re ''NaN''"
      by (simp add: money_response_re_def integer_part_re_def digit_class_def regex_eval)
    then show ?thesis using nan by (simp add: money_response_def format_fixed_def Let_def)
  qed
qed

theorem money_sent_exactly_witness:
  "money_response \<lparr>amount = Dec False 15 (- 4), currency = ''NGN''\<rparr> = Inr \<lparr>mr_amount = ''0.0015'', mr_currency = ''NGN''\<rparr>"
proof -
  let ?m = "\<lparr>amount = Dec False 15 (- 4), currency = ''NGN''\<rparr>"
  have m: "mk_money (\<lambda>c. []) (\<lambda>s. None) (InDecimal (Dec False 15 (- 4))) ''ngn'' = Inr ?m" by code_simp
  have t: "format_fixed (amount ?m) = ''0.0015''" by code_simp
  have r: "read_fixed ''0.0015'' = signed False 15" by code_simp
  show ?thesis
    using money_sent_exactly [of "\<lambda>c. []", OF _ m, of "\<lparr>mr_amount = ''0.0015'', mr_currency = ''NGN''\<rparr>"] t r
    by (auto simp: money_precision_def)
qed

end
