(* ===== verification/Http_Errors.thy ===== *)
theory Http_Errors
  imports Audit_Trail "HOL-Library.List_Lexorder"
begin

text \<open>
  Requests and responses at the edge of the application: \<open>api/errors.py\<close> (the error envelope and the three
  exception handlers), \<open>api/middleware.py\<close> (request identifiers, timing and metrics), \<open>api/health.py\<close>,
  the request context of \<open>core/observability.py\<close> and the log format of \<open>core/logging.py\<close>.

  The issues of a rejected request are those the validation library reports, with all their members. Calls of the
  metrics and tracing ports and log records are collected in order; the adapters are assumed not to
  raise. Elapsed times, their rounding, the text of timestamps and floats, and fresh identifiers are arguments.
\<close>

section \<open>Requests and responses\<close>

record request_view =
  rq_method :: string
  rq_header_id :: "string option"
  rq_state_id :: "string option"
  rq_route :: "string option"

record http_response =
  rs_status :: int
  rs_content :: pyval
  rs_headers :: "(string \<times> string) list"

text \<open>\<open>headers[name] = value\<close>.\<close>

fun set_header :: "string \<Rightarrow> string \<Rightarrow> (string \<times> string) list \<Rightarrow> (string \<times> string) list" where
  "set_header k v [] = [(k, v)]"
| "set_header k v ((k', v') # hs) = (if k' = k then (k, v) # hs else (k', v') # set_header k v hs)"

definition header :: "http_response \<Rightarrow> string \<Rightarrow> string option" where
  "header r k = map_of (rs_headers r) k"

definition with_header :: "string \<Rightarrow> string \<Rightarrow> http_response \<Rightarrow> http_response" where
  "with_header k v r = r\<lparr>rs_headers := set_header k v (rs_headers r)\<rparr>"

definition request_id_re :: regex where
  "request_id_re = ClsRep (alnum @ [(CHR ''.'', CHR ''.''), (CHR ''_'', CHR ''_''), (CHR ''-'', CHR ''-'')]) 1 128"

definition request_id_of :: "uuid \<Rightarrow> request_view \<Rightarrow> string" where
  "request_id_of fresh rq =
     (case rq_state_id rq of
        Some s \<Rightarrow> if fullmatch request_id_re s then s
          else (case rq_header_id rq of Some h \<Rightarrow> if fullmatch request_id_re h then h else uuid_str fresh | None \<Rightarrow> uuid_str fresh)
      | None \<Rightarrow> (case rq_header_id rq of Some h \<Rightarrow> if fullmatch request_id_re h then h else uuid_str fresh | None \<Rightarrow> uuid_str fresh))"

section \<open>Error responses\<close>

definition error_envelope :: "string \<Rightarrow> string \<Rightarrow> (string \<times> pyval) list \<Rightarrow> string \<Rightarrow> pyval" where
  "error_envelope cd msg details request_id =
     VDict [(VStr ''error'', VDict [(VStr ''code'', VStr cd), (VStr ''message'', VStr msg),
       (VStr ''details'', VDict (map (\<lambda>(k, v). (VStr k, v)) details)), (VStr ''request_id'', VStr request_id)])]"

definition error_response ::
  "uuid \<Rightarrow> request_view \<Rightarrow> int \<Rightarrow> string \<Rightarrow> string \<Rightarrow> (string \<times> pyval) list \<Rightarrow> string option \<Rightarrow> http_response" where
  "error_response fresh rq status cd msg details request_id =
     (let resolved = (case request_id of Some s \<Rightarrow> if s \<noteq> [] then s else request_id_of fresh rq | None \<Rightarrow> request_id_of fresh rq) in
      \<lparr>rs_status = status,
       rs_content = error_envelope cd msg details resolved,
       rs_headers = [(''X-Request-ID'', resolved)]\<rparr>)"

text \<open>The \<open>headers\<close> property: only the two rate-limit errors of the application override it.\<close>

definition error_headers :: "error_class \<Rightarrow> (string \<times> pyval) list \<Rightarrow> (string \<times> string) list" where
  "error_headers c details =
     (if c \<in> {IdentityRateLimitExceededError, ProfileRateLimitExceededError}
      then (case map_of details ''retry_after'' of Some (VInt n) \<Rightarrow> [(''Retry-After'', py_str_int n)] | _ \<Rightarrow> [])
      else [])"

definition handle_application_error :: "uuid \<Rightarrow> request_view \<Rightarrow> exn \<Rightarrow> exn + http_response" where
  "handle_application_error fresh rq e = (case e of
     App c details \<Rightarrow>
       (let r = error_response fresh rq (status_code c) (code c) (message c) details None;
            r1 = fold (\<lambda>(k, v). with_header k v) (error_headers c details) r
        in Inr (with_header ''Cache-Control'' ''no-store'' r1))
   | _ \<Rightarrow> Inl (TypeError ''application error handler received an unsupported exception''))"

record validation_issue =
  vi_type :: "string option"
  vi_loc :: "pyval option"
  vi_msg :: pyval
  vi_input :: pyval
  vi_ctx :: "pyval option"

definition field_segment_re :: regex where
  "field_segment_re = Seq (Cls [(CHR ''A'', CHR ''Z''), (CHR ''a'', CHR ''z''), (CHR ''_'', CHR ''_'')])
     (ClsRep (alnum @ [(CHR ''_'', CHR ''_'')]) 0 63)"

definition path_segment :: "pyval \<Rightarrow> string" where
  "path_segment v = (case v of
     VInt n \<Rightarrow> if 0 \<le> n then py_str_int n else ''field''
   | VStr s \<Rightarrow> if fullmatch field_segment_re s then s else ''field''
   | _ \<Rightarrow> ''field'')"

definition validation_path :: "pyval \<Rightarrow> string" where
  "validation_path loc =
     (let joined = (\<lambda>segs. let p = py_join ''.'' (map path_segment segs) in if p = [] then ''request'' else p)
      in case loc of VList segs \<Rightarrow> joined segs | VTuple segs \<Rightarrow> joined segs | _ \<Rightarrow> ''request'')"

definition validation_code_and_message :: "string \<Rightarrow> string \<times> string" where
  "validation_code_and_message error_type =
     (if error_type = ''missing'' then (''required'', ''Field is required'')
      else if error_type = ''extra_forbidden'' then (''unexpected_field'', ''Field is not allowed'')
      else if py_endswith error_type ''_parsing'' \<or> py_endswith error_type ''_type''
      then (''invalid_type'', ''Value has an invalid type'')
      else if list_ex (\<lambda>part. py_contains part error_type) [''greater_than'', ''less_than'', ''too_long'', ''too_short'']
      then (''out_of_range'', ''Value is outside the allowed range'')
      else (''invalid_value'', ''Value is invalid''))"

record field_issue =
  fi_path :: string
  fi_code :: string
  fi_message :: string

definition normalize_validation_issue :: "validation_issue \<Rightarrow> field_issue" where
  "normalize_validation_issue item =
     (let error_type = (case vi_type item of Some t \<Rightarrow> t | None \<Rightarrow> ''invalid'');
          cm = validation_code_and_message error_type
      in \<lparr>fi_path = validation_path (case vi_loc item of Some l \<Rightarrow> l | None \<Rightarrow> VTuple []), fi_code = fst cm, fi_message = snd cm\<rparr>)"

definition issue_json :: "field_issue \<Rightarrow> pyval" where
  "issue_json i = VDict [(VStr ''path'', VStr (fi_path i)), (VStr ''code'', VStr (fi_code i)), (VStr ''message'', VStr (fi_message i))]"

definition handle_request_validation_error :: "uuid \<Rightarrow> request_view \<Rightarrow> validation_issue list \<Rightarrow> http_response" where
  "handle_request_validation_error fresh rq errors =
     (let issues = sort_key (\<lambda>i. (map (\<lambda>c. ord c) (fi_path i), map (\<lambda>c. ord c) (fi_code i))) (map normalize_validation_issue errors) in
      error_response fresh rq 422 ''request_validation_failed'' ''Request validation failed''
        [(''fields'', VList (map issue_json issues))] None)"

record log_record =
  lr_level :: string
  lr_logger :: string
  lr_message :: string
  lr_extra :: "(string \<times> pyval) list"

text \<open>The class of an exception; the record of the error names it and nothing else of the exception.\<close>

definition handle_unexpected_error ::
  "(exn \<Rightarrow> string) \<Rightarrow> uuid \<Rightarrow> request_view \<Rightarrow> exn \<Rightarrow> log_record \<times> http_response" where
  "handle_unexpected_error type_name fresh rq e =
     (let request_id = request_id_of fresh rq in
      (\<lparr>lr_level = ''ERROR'', lr_logger = ''ekumidayomi.api.errors'', lr_message = ''Unhandled application exception'',
        lr_extra = [(''request_id'', VStr request_id), (''method'', VStr (rq_method rq)), (''exception_type'', VStr (type_name e))]\<rparr>,
       error_response fresh rq 500 ''internal_error'' ''An unexpected error occurred'' [] (Some request_id)))"

text \<open>What an endpoint may end with, and the handler the application registers for it.\<close>

datatype raised = Rejected "validation_issue list" | Raised exn

definition handle_error :: "(exn \<Rightarrow> string) \<Rightarrow> uuid \<Rightarrow> request_view \<Rightarrow> raised \<Rightarrow> http_response" where
  "handle_error type_name fresh rq x = (case x of
     Rejected issues \<Rightarrow> handle_request_validation_error fresh rq issues
   | Raised e \<Rightarrow> (case handle_application_error fresh rq e of
       Inr r \<Rightarrow> r | Inl _ \<Rightarrow> snd (handle_unexpected_error type_name fresh rq e)))"

section \<open>The middleware\<close>

datatype emission =
    Increment string "(string \<times> string) list"
  | Observe string pyfloat "(string \<times> string) list"
  | Annotate string "(string \<times> pyval) list"
  | Log log_record

definition middleware_request_id :: "bool \<Rightarrow> uuid \<Rightarrow> request_view \<Rightarrow> string" where
  "middleware_request_id trust fresh rq = (case rq_header_id rq of
     Some s \<Rightarrow> if trust \<and> fullmatch request_id_re s then s else uuid_str fresh | None \<Rightarrow> uuid_str fresh)"

definition outcome_of :: "int \<Rightarrow> string" where
  "outcome_of status = (if status < 400 then ''success'' else if status < 500 then ''client_error'' else ''server_error'')"

text \<open>The \<open>finally\<close> block; \<open>seconds\<close> is the elapsed time and \<open>ms\<close> its rounded number of milliseconds.\<close>

definition completed :: "request_view \<Rightarrow> int \<Rightarrow> pyfloat \<Rightarrow> pyfloat \<Rightarrow> emission list" where
  "completed rq status seconds ms =
     (let route = (case rq_route rq of Some p \<Rightarrow> p | None \<Rightarrow> ''unmatched'');
          labels = [(''method'', rq_method rq), (''route'', route), (''status_code'', py_str_int status)] in
      [Increment ''http_requests_total'' labels,
       Observe ''http_request_duration_seconds'' seconds labels,
       Annotate ''http.request'' [(''http.request.method'', VStr (rq_method rq)), (''http.route'', VStr route),
         (''http.response.status_code'', VInt status), (''outcome'', VStr (outcome_of status))],
       Log \<lparr>lr_level = ''INFO'', lr_logger = ''ekumidayomi.http'', lr_message = ''request_completed'',
         lr_extra = [(''method'', VStr (rq_method rq)), (''route'', VStr route), (''status_code'', VInt status),
           (''duration_ms'', VFloat ms), (''outcome'', VStr (outcome_of status))]\<rparr>])"

text \<open>
  \<open>call_next\<close> handles the request in the context that holds its identifier, and returns a response or raises;
  the context of the caller, the second component, is restored.
\<close>

definition dispatch ::
  "bool \<Rightarrow> uuid \<Rightarrow> pyfloat \<Rightarrow> pyfloat \<Rightarrow> (string option \<Rightarrow> request_view \<Rightarrow> exn + http_response) \<Rightarrow> string option \<Rightarrow> request_view \<Rightarrow>
   (exn + http_response) \<times> string option \<times> emission list" where
  "dispatch trust fresh seconds ms call_next ctx rq =
     (let request_id = middleware_request_id trust fresh rq;
          rq1 = rq\<lparr>rq_state_id := Some request_id\<rparr>
      in case call_next (Some request_id) rq1 of
           Inl e \<Rightarrow> (Inl e, ctx, completed rq1 500 seconds ms)
         | Inr r \<Rightarrow> (Inr (with_header ''X-Request-ID'' request_id r), ctx, completed rq1 (rs_status r) seconds ms))"

section \<open>Log lines\<close>

definition safe_extra_fields :: "string list" where
  "safe_extra_fields = [''method'', ''route'', ''status_code'', ''duration_ms'', ''outcome'', ''dependency'', ''exception_type'']"

definition loggable :: "pyval \<Rightarrow> bool" where
  "loggable v = (case v of VBool b \<Rightarrow> True | VStr s \<Rightarrow> True | VFloat f \<Rightarrow> True | VInt n \<Rightarrow> True | _ \<Rightarrow> False)"

definition extra_payload :: "(string \<times> pyval) list \<Rightarrow> (pyval \<times> pyval) list" where
  "extra_payload extra = concat (map (\<lambda>f. case map_of extra f of
       Some v \<Rightarrow> if loggable v then [(VStr f, v)] else [] | None \<Rightarrow> []) safe_extra_fields)"

definition format_record ::
  "(pyfloat \<Rightarrow> string) \<Rightarrow> string \<Rightarrow> string \<Rightarrow> string \<Rightarrow> string option \<Rightarrow> log_record \<Rightarrow> string" where
  "format_record fr service environment timestamp ctx l =
     (let request_id = (case map_of (lr_extra l) ''request_id'' of Some (VStr s) \<Rightarrow> VStr s
            | _ \<Rightarrow> (case ctx of Some s \<Rightarrow> VStr s | None \<Rightarrow> VNone)) in
      json_dumps fr (VDict ([(VStr ''timestamp'', VStr timestamp), (VStr ''level'', VStr (map ascii_lower (lr_level l))),
        (VStr ''logger'', VStr (lr_logger l)), (VStr ''service'', VStr service), (VStr ''environment'', VStr environment),
        (VStr ''message'', VStr (lr_message l)), (VStr ''request_id'', request_id)] @ extra_payload (lr_extra l))))"

section \<open>Health\<close>

definition live :: pyval where "live = VDict [(VStr ''status'', VStr ''ok'')]"

text \<open>\<open>postgresql\<close> and \<open>redis\<close> are what the two connection checks raise, if anything.\<close>

definition check_outcome :: "exn option \<Rightarrow> string" where
  "check_outcome e = (case e of None \<Rightarrow> ''ok'' | Some _ \<Rightarrow> ''failed'')"

definition ready :: "case_map \<Rightarrow> exn option \<Rightarrow> exn option \<Rightarrow> exn + pyval" where
  "ready u postgresql redis =
     (let checks = [(''postgresql'', check_outcome postgresql), (''redis'', check_outcome redis)] in
      if ''failed'' \<in> set (map snd checks)
      then (case make_not_ready_error u checks of Inl e \<Rightarrow> Inl e | Inr e \<Rightarrow> Inl e)
      else Inr (VDict [(VStr ''status'', VStr ''ok''), (VStr ''checks'', VDict (map (\<lambda>(k, r). (VStr k, VStr r)) checks))]))"

section \<open>Facts\<close>

lemma header_with_header [simp]: "header (with_header k v r) k' = (if k' = k then Some v else header r k')"
proof -
  have "map_of (set_header k v hs) k' = (if k' = k then Some v else map_of hs k')" for hs
    by (induction k v hs rule: set_header.induct) auto
  then show ?thesis by (simp add: header_def with_header_def)
qed

lemma with_header_simps [simp]: "rs_status (with_header k v r) = rs_status r" "rs_content (with_header k v r) = rs_content r"
  by (simp_all add: with_header_def)

lemma fold_headers:
  "rs_status (fold (\<lambda>(k, v). with_header k v) hs r) = rs_status r" "rs_content (fold (\<lambda>(k, v). with_header k v) hs r) = rs_content r"
  "k' \<notin> fst ` set hs \<Longrightarrow> header (fold (\<lambda>(k, v). with_header k v) hs r) k' = header r k'"
  by (induction hs arbitrary: r) auto

lemma uuid_request_id: "fullmatch request_id_re (uuid_str x)"
proof -
  have "in_class (alnum @ [(CHR ''.'', CHR ''.''), (CHR ''_'', CHR ''_''), (CHR ''-'', CHR ''-'')]) c" if "c \<in> set (uuid_str x)" for c
    using uuid_str_chars [OF that] by (auto simp: in_class_def lower_digit_def alnum_def)
  then show ?thesis by (simp add: fullmatch_iff_lang request_id_re_def list_all_iff del: in_class_append)
qed

lemma request_id_of_safe: "fullmatch request_id_re (request_id_of fresh rq)"
  by (simp add: request_id_of_def uuid_request_id split: option.splits)

lemma request_id_of_state: "fullmatch request_id_re s \<Longrightarrow> request_id_of fresh (rq\<lparr>rq_state_id := Some s\<rparr>) = s"
  by (simp add: request_id_of_def)

lemma request_id_not_Nil: "fullmatch request_id_re s \<Longrightarrow> s \<noteq> []"
  by (auto simp: request_id_re_def)

lemma error_response_simps [simp]:
  "rs_status (error_response fresh rq st cd msg d None) = st"
  "rs_content (error_response fresh rq st cd msg d None) = error_envelope cd msg d (request_id_of fresh rq)"
  "header (error_response fresh rq st cd msg d None) k = (if k = ''X-Request-ID'' then Some (request_id_of fresh rq) else None)"
  by (simp_all add: error_response_def header_def Let_def)

lemma error_headers_names: "k \<in> fst ` set (error_headers c d) \<Longrightarrow> k = ''Retry-After''"
proof -
  have "error_headers c d = [] \<or> (\<exists>n. error_headers c d = [(''Retry-After'', py_str_int n)])"
    unfolding error_headers_def by (cases "map_of d ''retry_after''") (auto split: pyval.split)
  then show "k \<in> fst ` set (error_headers c d) \<Longrightarrow> k = ''Retry-After''" by auto
qed

lemma unexpected_response:
  "snd (handle_unexpected_error tn fresh rq e) =
   error_response fresh rq 500 ''internal_error'' ''An unexpected error occurred'' [] None"
  using request_id_not_Nil [OF request_id_of_safe] by (simp add: handle_unexpected_error_def error_response_def Let_def)

lemma handle_error_Rejected:
  "\<exists>d. handle_error tn fresh rq (Rejected issues) = error_response fresh rq 422 ''request_validation_failed'' ''Request validation failed'' d None"
  unfolding handle_error_def handle_request_validation_error_def raised.case Let_def by blast

lemma handle_error_App:
  "handle_error tn fresh rq (Raised (App c d)) = with_header ''Cache-Control'' ''no-store''
     (fold (\<lambda>(k, v). with_header k v) (error_headers c d) (error_response fresh rq (status_code c) (code c) (message c) d None))"
  by (simp add: handle_error_def handle_application_error_def Let_def)

lemma handle_error_other:
  assumes "\<forall>c d. e \<noteq> App c d"
  shows "handle_error tn fresh rq (Raised e) = error_response fresh rq 500 ''internal_error'' ''An unexpected error occurred'' [] None"
  using assms by (cases e) (simp_all add: handle_error_def handle_application_error_def unexpected_response)

lemma raised_cases:
  obtains (rejected) issues where "x = Rejected issues" | (app) c d where "x = Raised (App c d)"
    | (other) e where "x = Raised e" "\<forall>c d. e \<noteq> App c d"
  by (cases x) metis+

text \<open>The envelope and the header of every error response carry the identifier of the request.\<close>

lemma handle_error_envelope:
  "\<exists>cd msg d. rs_content (handle_error tn fresh rq x) = error_envelope cd msg d (request_id_of fresh rq) \<and> fullmatch snake_re cd"
  "header (handle_error tn fresh rq x) ''X-Request-ID'' = Some (request_id_of fresh rq)"
  "400 \<le> rs_status (handle_error tn fresh rq x) \<and> rs_status (handle_error tn fresh rq x) \<le> 599"
proof -
  have snake: "fullmatch snake_re ''internal_error''" "fullmatch snake_re ''request_validation_failed''" by code_simp+
  have hd: "''X-Request-ID'' \<notin> fst ` set (error_headers c d)" for c d using error_headers_names by fastforce
  have "(\<exists>cd msg d. rs_content (handle_error tn fresh rq x) = error_envelope cd msg d (request_id_of fresh rq) \<and> fullmatch snake_re cd) \<and>
    header (handle_error tn fresh rq x) ''X-Request-ID'' = Some (request_id_of fresh rq) \<and>
    400 \<le> rs_status (handle_error tn fresh rq x) \<and> rs_status (handle_error tn fresh rq x) \<le> 599"
  proof (cases x rule: raised_cases)
    case rejected
    obtain d where d: "handle_error tn fresh rq x =
        error_response fresh rq 422 ''request_validation_failed'' ''Request validation failed'' d None"
      using handle_error_Rejected rejected by blast
    show ?thesis unfolding d error_response_simps using snake(2) by (auto simp del: fullmatch.simps)
  next
    case (app c d)
    show ?thesis unfolding app handle_error_App with_header_simps fold_headers(1,2) error_response_simps
      using code_snake [of c] status_code_range [of c]
      by (auto simp: fold_headers(3) [OF hd] simp del: fullmatch.simps)
  next
    case (other e)
    show ?thesis unfolding other(1) handle_error_other [OF other(2)] error_response_simps
      using snake(1) by (auto simp del: fullmatch.simps)
  qed
  then show "\<exists>cd msg d. rs_content (handle_error tn fresh rq x) = error_envelope cd msg d (request_id_of fresh rq) \<and> fullmatch snake_re cd"
    "header (handle_error tn fresh rq x) ''X-Request-ID'' = Some (request_id_of fresh rq)"
    "400 \<le> rs_status (handle_error tn fresh rq x) \<and> rs_status (handle_error tn fresh rq x) \<le> 599" by blast+
qed

definition path_char :: "char \<Rightarrow> bool" where
  "path_char c \<longleftrightarrow> in_class (alnum @ [(CHR ''_'', CHR ''_''), (CHR ''.'', CHR ''.'')]) c"

lemma path_char_words: "list_all path_char ''field''" "list_all path_char ''request''" "path_char (CHR ''.'')"
  by code_simp+

lemma path_segment_safe: "list_all path_char (path_segment v)"
proof -
  have "list_all path_char (nat_digits n)" for n
  proof (induction n rule: nat_digits.induct)
    case (1 n)
    have "path_char (char_of (48 + n mod 10))" by (simp add: path_char_def in_class_def alnum_def) arith
    then show ?case using 1 by (subst nat_digits.simps) auto
  qed
  moreover have "list_all path_char s" if "fullmatch field_segment_re s" for s
    using that unfolding fullmatch_iff_lang field_segment_re_def in_Seq_Cls
    by (auto simp: list_all_iff path_char_def in_class_def alnum_def)
  ultimately show ?thesis using path_char_words by (auto simp: path_segment_def py_str_int_def split: pyval.splits)
qed

lemma validation_path_safe: "list_all path_char (validation_path loc)"
proof -
  have "list_all path_char (py_join ''.'' ws)" if "\<forall>w\<in>set ws. list_all path_char w" for ws
    using that path_char_words(3) by (induction "''.''" ws rule: py_join.induct) auto
  then have "list_all path_char (py_join ''.'' (map path_segment segs))" for segs using path_segment_safe by simp
  then show ?thesis using path_char_words by (auto simp: validation_path_def Let_def split: pyval.splits)
qed

text \<open>Of the readiness checks a client learns which one failed.\<close>

lemma ready_exact:
  "ready u p r = (if p = None \<and> r = None then Inr (VDict [(VStr ''status'', VStr ''ok''),
       (VStr ''checks'', VDict [(VStr ''postgresql'', VStr ''ok''), (VStr ''redis'', VStr ''ok'')])])
     else Inl (App ServiceNotReadyError [(''checks'', VDict [(VStr ''postgresql'', VStr (check_outcome p)), (VStr ''redis'', VStr (check_outcome r))])]))"
proof -
  have safe: "validate_detail_key u (VStr ''checks'') = Inr ''checks''" "validate_detail_key u (VStr ''postgresql'') = Inr ''postgresql''"
    "validate_detail_key u (VStr ''redis'') = Inr ''redis''"
    by (simp_all add: validate_detail_key_def sensitive_detail_key_def unsafe_detail_key_parts_def py_casefold_def py_replace_def
        ascii_lower_def is_ascii_def py_startswith_def Let_def)
  show ?thesis
    by (cases p; cases r)
      (simp_all add: ready_def check_outcome_def make_not_ready_error_def make_error_eq normalize_details_def safe
        max_detail_items_def max_detail_depth_def max_detail_string_length_def Let_def)
qed

text \<open>A log line shows nothing of a record but its message and the allowed fields.\<close>

lemma format_record_safe:
  assumes "lr_level l = lr_level l'" "lr_logger l = lr_logger l'" "lr_message l = lr_message l'"
    "\<forall>f \<in> set (''request_id'' # safe_extra_fields). map_of (lr_extra l) f = map_of (lr_extra l') f"
  shows "format_record fr service environment timestamp ctx l = format_record fr service environment timestamp ctx l'"
proof -
  have "extra_payload (lr_extra l) = extra_payload (lr_extra l')"
    unfolding extra_payload_def using assms(4) by (intro arg_cong [where f = concat] map_cong) auto
  then show ?thesis using assms by (simp add: format_record_def)
qed

lemma rejected_response_cong:
  assumes "map (\<lambda>i. (vi_type i, vi_loc i)) issues' = map (\<lambda>i. (vi_type i, vi_loc i)) issues"
  shows "handle_error tn fresh rq (Rejected issues') = handle_error tn fresh rq (Rejected issues)"
proof -
  obtain h where h: "\<And>i. normalize_validation_issue i = h (vi_type i, vi_loc i)"
  proof
    show "normalize_validation_issue i = (\<lambda>(t, l). normalize_validation_issue
        \<lparr>vi_type = t, vi_loc = l, vi_msg = VNone, vi_input = VNone, vi_ctx = None\<rparr>) (vi_type i, vi_loc i)" for i
      by (simp add: normalize_validation_issue_def)
  qed
  have "map normalize_validation_issue xs = map h (map (\<lambda>i. (vi_type i, vi_loc i)) xs)" for xs by (simp add: h)
  then have "map normalize_validation_issue issues' = map normalize_validation_issue issues" by (simp only: assms)
  then show ?thesis by (simp add: handle_error_def handle_request_validation_error_def)
qed

lemma rejected_paths_safe: "list_all (\<lambda>i. list_all path_char (fi_path (normalize_validation_issue i))) issues"
  by (simp add: list_all_iff normalize_validation_issue_def Let_def) (simp add: validation_path_safe [unfolded list_all_iff])

lemma rate_limit_header:
  assumes "make_rate_limit_error u c (VInt n) = Inr (App c d)" "c \<in> {IdentityRateLimitExceededError, ProfileRateLimitExceededError}"
  shows "header (fold (\<lambda>(k, v). with_header k v) (error_headers c d) r) ''Retry-After'' = Some (py_str_int n)"
proof -
  have "make_error u c (VDict [(VStr ''retry_after'', VInt n)]) = Inr (App c d)"
    using assms(1) by (simp add: make_rate_limit_error_def split: if_splits)
  then have "map_of d ''retry_after'' = Some (VInt n)"
    by (auto simp: make_error_eq normalize_details_def result_simps validate_detail_key_def Let_def split: if_splits)
  then show ?thesis using assms(2) by (simp add: error_headers_def)
qed

section \<open>Properties\<close>

text \<open>
  C36: what a client sees of an error. Whatever an endpoint raises, the response has a status of 400 to 599 and
  the error envelope, with a code in snake case and the identifier of the request, also in its header, which is
  safe to log. An application error shows its class's status, code and message and its details, is not stored
  by caches, and a rate-limit error names its delay. All other exceptions give one and the same response. A
  rejected request gives a response that depends only on the kinds and places of the issues, not on the rejected
  input, and the places it names are made of letters, digits, points and underscores.
\<close>

theorem error_responses_safe:
  assumes r: "r = handle_error tn fresh rq x"
  shows "400 \<le> rs_status r \<and> rs_status r \<le> 599 \<and>
    (\<exists>cd msg d rid. rs_content r = error_envelope cd msg d rid \<and> header r ''X-Request-ID'' = Some rid \<and>
       fullmatch snake_re cd \<and> fullmatch request_id_re rid) \<and>
    (case x of
       Raised (App c d) \<Rightarrow> rs_status r = status_code c \<and> header r ''Cache-Control'' = Some ''no-store'' \<and>
         rs_content r = error_envelope (code c) (message c) d (request_id_of fresh rq) \<and>
         (\<forall>u n. make_rate_limit_error u c (VInt n) = Inr (App c d) \<and>
            c \<in> {IdentityRateLimitExceededError, ProfileRateLimitExceededError} \<longrightarrow> header r ''Retry-After'' = Some (py_str_int n))
     | Raised e \<Rightarrow> (\<forall>tn' e'. (\<forall>c d. e' \<noteq> App c d) \<longrightarrow> handle_error tn' fresh rq (Raised e') = r)
     | Rejected issues \<Rightarrow>
         (\<forall>issues'. map (\<lambda>i. (vi_type i, vi_loc i)) issues' = map (\<lambda>i. (vi_type i, vi_loc i)) issues \<longrightarrow>
            handle_error tn fresh rq (Rejected issues') = r) \<and>
         list_all (\<lambda>i. list_all path_char (fi_path (normalize_validation_issue i))) issues)"
proof -
  have env: "\<exists>cd msg d rid. rs_content r = error_envelope cd msg d rid \<and> header r ''X-Request-ID'' = Some rid \<and>
       fullmatch snake_re cd \<and> fullmatch request_id_re rid"
    using handle_error_envelope(1,2) [of tn fresh rq x] request_id_of_safe unfolding r by blast
  have "400 \<le> rs_status r" "rs_status r \<le> 599" using handle_error_envelope(3) [of tn fresh rq x] unfolding r by simp_all
  moreover have "case x of
       Raised (App c d) \<Rightarrow> rs_status r = status_code c \<and> header r ''Cache-Control'' = Some ''no-store'' \<and>
         rs_content r = error_envelope (code c) (message c) d (request_id_of fresh rq) \<and>
         (\<forall>u n. make_rate_limit_error u c (VInt n) = Inr (App c d) \<and>
            c \<in> {IdentityRateLimitExceededError, ProfileRateLimitExceededError} \<longrightarrow> header r ''Retry-After'' = Some (py_str_int n))
     | Raised e \<Rightarrow> (\<forall>tn' e'. (\<forall>c d. e' \<noteq> App c d) \<longrightarrow> handle_error tn' fresh rq (Raised e') = r)
     | Rejected issues \<Rightarrow>
         (\<forall>issues'. map (\<lambda>i. (vi_type i, vi_loc i)) issues' = map (\<lambda>i. (vi_type i, vi_loc i)) issues \<longrightarrow>
            handle_error tn fresh rq (Rejected issues') = r) \<and>
         list_all (\<lambda>i. list_all path_char (fi_path (normalize_validation_issue i))) issues"
  proof (cases x rule: raised_cases)
    case (rejected issues)
    show ?thesis unfolding r rejected raised.case
      by (intro conjI allI impI rejected_paths_safe) (rule rejected_response_cong)
  next
    case (app c d)
    have "header r ''Retry-After'' = Some (py_str_int n)"
      if "make_rate_limit_error u c (VInt n) = Inr (App c d)" "c \<in> {IdentityRateLimitExceededError, ProfileRateLimitExceededError}" for u n
      using rate_limit_header [OF that] unfolding r app handle_error_App by simp
    then show ?thesis unfolding r app handle_error_App raised.case exn.case by (auto simp: fold_headers)
  next
    case (other e)
    have "handle_error tn' fresh rq (Raised e') = r" if "\<forall>c d. e' \<noteq> App c d" for tn' e'
      unfolding r other(1) handle_error_other [OF that] handle_error_other [OF other(2)] ..
    then show ?thesis unfolding other(1) using other(2) by (cases e) simp_all
  qed
  ultimately show ?thesis using env by (intro conjI)
qed

definition demo_request :: request_view where
  "demo_request = \<lparr>rq_method = ''POST'', rq_header_id = Some ''forged id'', rq_state_id = Some ''req-1'', rq_route = Some ''/auth/login''\<rparr>"

theorem error_responses_safe_witness:
  "header (handle_error (\<lambda>e. []) 7 demo_request (Raised (App IdentityRateLimitExceededError [(''retry_after'', VInt 30)]))) ''Retry-After'' = Some ''30'' \<and>
   handle_error (\<lambda>e. []) 7 demo_request (Raised (KeyError ''password'')) = handle_error (\<lambda>e. []) 7 demo_request (Raised RedisError)"
proof -
  have "make_rate_limit_error (\<lambda>c. [c]) IdentityRateLimitExceededError (VInt 30) =
      Inr (App IdentityRateLimitExceededError [(''retry_after'', VInt 30)])" by code_simp
  moreover have "py_str_int 30 = ''30''" by code_simp
  ultimately show ?thesis
    using error_responses_safe [OF refl, of "\<lambda>e. []" 7 demo_request "Raised (App IdentityRateLimitExceededError [(''retry_after'', VInt 30)])"]
      error_responses_safe [OF refl, of "\<lambda>e. []" 7 demo_request "Raised RedisError"]
    by (simp only: raised.case exn.case) (metis exn.distinct(1) exn.simps(4) insertI1 exn.distinct)
qed

text \<open>
  One identifier per request. The middleware gives a request an identifier that is safe to log, the
  client's only if the deployment trusts it; the code behind it sees this identifier, every response carries
  it, also those of the error handlers, inside or outside the middleware; the context of the caller is restored,
  and exactly one request is counted, with the status of the response or 500 for an exception.
\<close>

lemma request_correlated:
  assumes d: "dispatch trust fresh seconds ms call_next ctx rq = (res, ctx', emitted)"
  shows "\<exists>rid. fullmatch request_id_re rid \<and> (rid = uuid_str fresh \<or> trust \<and> rq_header_id rq = Some rid) \<and> ctx' = ctx \<and>
    (let rq1 = rq\<lparr>rq_state_id := Some rid\<rparr>; answer = call_next (Some rid) rq1 in
      (case answer of Inl e \<Rightarrow> res = Inl e | Inr r \<Rightarrow> res = Inr (with_header ''X-Request-ID'' rid r)) \<and>
      header (handle_error tn fresh2 rq1 x) ''X-Request-ID'' = Some rid \<and>
      [m \<leftarrow> emitted. case m of Increment n ls \<Rightarrow> True | _ \<Rightarrow> False] =
        [Increment ''http_requests_total'' [(''method'', rq_method rq), (''route'', case rq_route rq of Some p \<Rightarrow> p | None \<Rightarrow> ''unmatched''),
          (''status_code'', py_str_int (case answer of Inl e \<Rightarrow> 500 | Inr r \<Rightarrow> rs_status r))]])"
proof (intro exI conjI)
  let ?rid = "middleware_request_id trust fresh rq"
  show safe: "fullmatch request_id_re ?rid" by (simp add: middleware_request_id_def uuid_request_id split: option.splits)
  show "?rid = uuid_str fresh \<or> trust \<and> rq_header_id rq = Some ?rid"
    by (auto simp: middleware_request_id_def split: option.splits)
  show "ctx' = ctx" using d by (auto simp: dispatch_def Let_def split: sum.splits)
  have h: "header (handle_error tn fresh2 (rq\<lparr>rq_state_id := Some ?rid\<rparr>) x) ''X-Request-ID'' = Some ?rid"
    unfolding handle_error_envelope(2) request_id_of_state [OF safe] ..
  show "let rq1 = rq\<lparr>rq_state_id := Some ?rid\<rparr>; answer = call_next (Some ?rid) rq1 in
      (case answer of Inl e \<Rightarrow> res = Inl e | Inr r \<Rightarrow> res = Inr (with_header ''X-Request-ID'' ?rid r)) \<and>
      header (handle_error tn fresh2 rq1 x) ''X-Request-ID'' = Some ?rid \<and>
      [m \<leftarrow> emitted. case m of Increment n ls \<Rightarrow> True | _ \<Rightarrow> False] =
        [Increment ''http_requests_total'' [(''method'', rq_method rq), (''route'', case rq_route rq of Some p \<Rightarrow> p | None \<Rightarrow> ''unmatched''),
          (''status_code'', py_str_int (case answer of Inl e \<Rightarrow> 500 | Inr r \<Rightarrow> rs_status r))]]"
    using d h by (auto simp: dispatch_def completed_def Let_def split: sum.splits)
qed

end
