(* ===== verification/Storage.thy ===== *)
theory Storage
  imports Contracts Core_Types
begin

text \<open>
  Object storage: \<open>storage/types.py\<close>, \<open>storage/ports.py\<close> and \<open>storage/memory.py\<close>.

  The port \<open>ObjectStorage\<close> is the locale \<open>object_store\<close>; what its clients may rely on is proved there, and the
  adapter in memory is its interpretation. An upload is the list of the chunks its iterator yields, any of which
  may be an exception instead. SHA-256 is the argument \<open>sha\<close>, from content to hexadecimal text; the clock is
  an argument.
\<close>

section \<open>Types\<close>

record object_key =
  ok_value :: string

definition mk_object_key :: "string \<Rightarrow> exn + object_key" where
  "mk_object_key v =
     (if v = [] \<or> 255 < length v \<or> py_startswith v ''/'' \<or> CHR 0x5C \<in> set v \<or>
         ''..'' \<in> set (py_split (CHR ''/'') v) \<or> list_ex (\<lambda>c. ord c < 32) v
      then Inl (ValueError ''object key is unsafe'') else Inr \<lparr>ok_value = v\<rparr>)"

definition product_image :: "uuid \<Rightarrow> uuid \<Rightarrow> string \<Rightarrow> exn + object_key" where
  "product_image product_id object_id extension =
     (if extension \<notin> {''avif'', ''jpg'', ''png'', ''webp''} then Inl (ValueError ''file extension is not supported'')
      else mk_object_key (''products/'' @ uuid_str product_id @ ''/'' @ uuid_str object_id @ ''.'' @ extension))"

record upload_metadata =
  um_content_type :: string
  um_size_bytes :: int
  um_sha256 :: string

definition mime_types :: "string list" where
  "mime_types = [''image/avif'', ''image/jpeg'', ''image/png'', ''image/webp'']"

definition sha256_re :: regex where
  "sha256_re = ClsRep [(CHR ''a'', CHR ''f''), (CHR ''0'', CHR ''9'')] 64 64"

definition mk_upload_metadata :: "string \<Rightarrow> int \<Rightarrow> string \<Rightarrow> exn + upload_metadata" where
  "mk_upload_metadata content_type size_bytes sha256 =
     (if content_type \<notin> set mime_types then Inl (ValueError ''content type is unsupported'')
      else if \<not> (1 \<le> size_bytes \<and> size_bytes \<le> 10485760) then Inl (ValueError ''size_bytes must be between 1 and 10485760'')
      else if \<not> fullmatch sha256_re sha256 then Inl (ValueError ''sha256 must be lowercase hexadecimal'')
      else Inr \<lparr>um_content_type = content_type, um_size_bytes = size_bytes, um_sha256 = sha256\<rparr>)"

record stored_object =
  so_key :: object_key
  so_metadata :: upload_metadata
  so_stored_at :: instant

definition mk_stored_object :: "object_key \<Rightarrow> upload_metadata \<Rightarrow> py_datetime \<Rightarrow> exn + stored_object" where
  "mk_stored_object k m t = bind_r (require_utc (VDatetime t)) (\<lambda>at. Inr \<lparr>so_key = k, so_metadata = m, so_stored_at = at\<rparr>)"

record signed_access =
  sa_url :: string
  sa_expires_at :: instant

definition mk_signed_access :: "string \<Rightarrow> py_datetime \<Rightarrow> exn + signed_access" where
  "mk_signed_access url t =
     (if \<not> py_startswith url ''https://'' then Inl (ValueError ''signed access must use HTTPS'')
      else bind_r (require_utc (VDatetime t)) (\<lambda>at. Inr \<lparr>sa_url = url, sa_expires_at = at\<rparr>))"

section \<open>The adapter in memory\<close>

type_synonym memory_store = "string \<rightharpoonup> string \<times> stored_object"

text \<open>Receiving the chunks: an upload that grows beyond its declared size is stopped.\<close>

fun receive :: "int \<Rightarrow> (exn + string) list \<Rightarrow> string \<Rightarrow> exn + string" where
  "receive max_size [] content = Inr content"
| "receive max_size (Inl e # chunks) content = Inl e"
| "receive max_size (Inr chunk # chunks) content =
     (if max_size < int (length (content @ chunk)) then Inl (ValueError ''uploaded object exceeds declared size'')
      else receive max_size chunks (content @ chunk))"

record upload =
  up_chunks :: "(exn + string) list"
  up_metadata :: upload_metadata
  up_now :: instant

definition memory_put :: "(string \<Rightarrow> string) \<Rightarrow> object_key \<Rightarrow> upload \<Rightarrow> memory_store \<Rightarrow> (exn + stored_object) \<times> memory_store" where
  "memory_put sha k up st = (let m = up_metadata up in
     case receive (um_size_bytes m) (up_chunks up) [] of
       Inl e \<Rightarrow> (Inl e, st)
     | Inr content \<Rightarrow>
         if int (length content) \<noteq> um_size_bytes m \<or> sha content \<noteq> um_sha256 m
         then (Inl (ValueError ''uploaded object does not match declared metadata''), st)
         else (case mk_stored_object k m (Aware (up_now up) 0) of
           Inl e \<Rightarrow> (Inl e, st)
         | Inr stored \<Rightarrow> (Inr stored, st(ok_value k \<mapsto> (content, stored)))))"

definition memory_head :: "object_key \<Rightarrow> memory_store \<Rightarrow> stored_object option" where
  "memory_head k st = map_option snd (st (ok_value k))"

text \<open>\<open>urllib.parse.quote\<close>: unreserved characters and slashes stay, the bytes of others are escaped.\<close>

definition unreserved :: "char \<Rightarrow> bool" where
  "unreserved c \<longleftrightarrow> in_class alnum c \<or> c \<in> set ''_.-~/''"

definition py_quote :: "string \<Rightarrow> string" where
  "py_quote s = concat (map (\<lambda>c. if unreserved c then [c]
     else CHR ''%'' # map ascii_upper (hex_fixed 2 (ord c))) (utf8_encode s))"

definition memory_sign_read :: "object_key \<Rightarrow> duration \<Rightarrow> instant \<Rightarrow> memory_store \<Rightarrow> exn + signed_access" where
  "memory_sign_read k expires_in now st =
     (if st (ok_value k) = None then Inl (FileNotFoundError (ok_value k))
      else if \<not> (secs 1 \<le> expires_in \<and> expires_in \<le> secs 900)
      then Inl (ValueError ''signed access expiry must be between 1 second and 15 minutes'')
      else mk_signed_access (''https://storage.test/'' @ py_quote (ok_value k) @ ''?signature=test-only'') (Aware (now + expires_in) 0))"

definition memory_delete :: "object_key \<Rightarrow> memory_store \<Rightarrow> memory_store" where
  "memory_delete k st = st(ok_value k := None)"

section \<open>The port\<close>

text \<open>A client's operations, and what it learns of each.\<close>

datatype ('k, 'u) store_op = Put 'k 'u | Delete 'k

primrec store_step ::
  "('k \<Rightarrow> 'u \<Rightarrow> 's \<Rightarrow> (exn + 'o) \<times> 's) \<Rightarrow> ('k \<Rightarrow> 's \<Rightarrow> 's) \<Rightarrow> ('k, 'u) store_op \<Rightarrow> 's \<Rightarrow> (exn + 'o) option \<times> 's" where
  "store_step put delete (Put k u) s = (case put k u s of (r, s') \<Rightarrow> (Some r, s'))"
| "store_step put delete (Delete k) s = (None, delete k s)"

text \<open>The specification: a map from keys to the objects the uploads returned.\<close>

fun spec_step :: "('k, 'u) store_op \<Rightarrow> (exn + 'o) option \<Rightarrow> ('k \<rightharpoonup> 'o) \<Rightarrow> 'k \<rightharpoonup> 'o" where
  "spec_step (Put k u) (Some (Inr x)) m = m(k \<mapsto> x)"
| "spec_step (Delete k) r m = m(k := None)"
| "spec_step op r m = m"

fun store_run ::
  "('k \<Rightarrow> 'u \<Rightarrow> 's \<Rightarrow> (exn + 'o) \<times> 's) \<Rightarrow> ('k \<Rightarrow> 's \<Rightarrow> 's) \<Rightarrow> ('k, 'u) store_op list \<Rightarrow> ('k \<rightharpoonup> 'o) \<times> 's \<Rightarrow> ('k \<rightharpoonup> 'o) \<times> 's" where
  "store_run put delete [] ms = ms"
| "store_run put delete (op # ops) (m, s) = (case store_step put delete op s of (r, s') \<Rightarrow> store_run put delete ops (spec_step op r m, s'))"

locale object_store =
  fixes put :: "'k \<Rightarrow> 'u \<Rightarrow> 's \<Rightarrow> (exn + 'o) \<times> 's"
    and head :: "'k \<Rightarrow> 's \<Rightarrow> 'o option"
    and delete :: "'k \<Rightarrow> 's \<Rightarrow> 's"
    and intact :: "'s \<Rightarrow> bool"
  assumes put_refused: "put k u s = (Inl e, s') \<Longrightarrow> s' = s"
    and head_put: "put k u s = (Inr x, s') \<Longrightarrow> head k' s' = (if k' = k then Some x else head k' s)"
    and head_delete: "head k' (delete k s) = (if k' = k then None else head k' s)"
    and intact_put: "intact s \<Longrightarrow> put k u s = (r, s') \<Longrightarrow> intact s'"
    and intact_delete: "intact s \<Longrightarrow> intact (delete k s)"
begin

lemma store_step_refines:
  assumes "store_step put delete op s = (r, s')"
  shows "(\<lambda>k. head k s') = spec_step op r (\<lambda>k. head k s)" "intact s \<Longrightarrow> intact s'"
proof -
  show "(\<lambda>k. head k s') = spec_step op r (\<lambda>k. head k s)"
  proof (cases op)
    case (Put k u)
    then obtain x where p: "put k u s = (x, s')" "r = Some x" using assms by (auto split: prod.splits)
    show ?thesis
    proof (cases x)
      case (Inl e)
      then have "s' = s" using p(1) by (intro put_refused) simp
      then show ?thesis using Put p Inl by simp
    next
      case (Inr y)
      then have "\<forall>k'. head k' s' = (if k' = k then Some y else head k' s)" using p(1) head_put by blast
      then show ?thesis using Put p Inr by (auto simp: fun_eq_iff)
    qed
  next
    case (Delete k)
    then show ?thesis using assms head_delete by (auto simp: fun_eq_iff)
  qed
  show "intact s \<Longrightarrow> intact s'" using assms intact_put intact_delete by (cases op) (auto split: prod.splits)
qed

lemma store_run_refines:
  "store_run put delete ops (\<lambda>k. head k s, s) = (m', s') \<Longrightarrow> m' = (\<lambda>k. head k s') \<and> (intact s \<longrightarrow> intact s')"
proof (induction ops arbitrary: s)
  case (Cons op ops)
  obtain r t where st: "store_step put delete op s = (r, t)" by (cases "store_step put delete op s")
  show ?case using Cons.IH [of t] Cons.prems store_step_refines [OF st] by (auto simp: st)
qed auto

end

section \<open>The adapter implements the port\<close>

text \<open>Every stored object is what was announced: its size, digest and key.\<close>

definition store_intact :: "(string \<Rightarrow> string) \<Rightarrow> memory_store \<Rightarrow> bool" where
  "store_intact sha st \<longleftrightarrow> (\<forall>v content x. st v = Some (content, x) \<longrightarrow> ok_value (so_key x) = v \<and>
     int (length content) = um_size_bytes (so_metadata x) \<and> sha content = um_sha256 (so_metadata x))"

lemma memory_put_cases:
  "memory_put sha k up st = (r, st') \<longleftrightarrow>
    (case receive (um_size_bytes (up_metadata up)) (up_chunks up) [] of
       Inl e \<Rightarrow> r = Inl e \<and> st' = st
     | Inr content \<Rightarrow>
         if int (length content) = um_size_bytes (up_metadata up) \<and> sha content = um_sha256 (up_metadata up)
         then r = Inr \<lparr>so_key = k, so_metadata = up_metadata up, so_stored_at = up_now up\<rparr> \<and>
           st' = st(ok_value k \<mapsto> (content, \<lparr>so_key = k, so_metadata = up_metadata up, so_stored_at = up_now up\<rparr>))
         else r = Inl (ValueError ''uploaded object does not match declared metadata'') \<and> st' = st)"
  by (auto simp: memory_put_def mk_stored_object_def require_utc_def Let_def split: sum.splits)

interpretation memory: object_store "memory_put sha" memory_head memory_delete "store_intact sha" for sha
proof
  show "memory_put sha k u s = (Inl e, s') \<Longrightarrow> s' = s" for k u s e s'
    by (auto simp: memory_put_cases split: sum.splits if_splits)
  show "memory_put sha k u s = (Inr x, s') \<Longrightarrow> memory_head k' s' = (if k' = k then Some x else memory_head k' s)" for k u s x s' k'
    by (cases k; cases k') (auto simp: memory_put_cases memory_head_def split: sum.splits if_splits)
  show "memory_head k' (memory_delete k s) = (if k' = k then None else memory_head k' s)" for k' k s
    by (cases k; cases k') (auto simp: memory_head_def memory_delete_def)
  show "store_intact sha s \<Longrightarrow> memory_put sha k u s = (r, s') \<Longrightarrow> store_intact sha s'" for s k u r s'
    by (auto simp: memory_put_cases store_intact_def split: sum.splits if_splits)
  show "store_intact sha s \<Longrightarrow> store_intact sha (memory_delete k s)" for s k
    by (auto simp: store_intact_def memory_delete_def)
qed

text \<open>An upload in pieces is the upload of the whole, as long as it keeps to its size.\<close>

lemma receive_Inr:
  "receive max_size chunks content = Inr c \<longleftrightarrow>
    (\<exists>ws. chunks = map Inr ws \<and> c = content @ concat ws \<and> (chunks = [] \<or> int (length c) \<le> max_size))"
proof (induction max_size chunks content rule: receive.induct)
  case (3 max_size chunk chunks content)
  show ?case
  proof
    assume r: "receive max_size (Inr chunk # chunks) content = Inr c"
    then have le: "int (length (content @ chunk)) \<le> max_size" and "receive max_size chunks (content @ chunk) = Inr c"
      by (auto split: if_splits)
    then obtain ws where "chunks = map Inr ws" "c = (content @ chunk) @ concat ws" "chunks = [] \<or> int (length c) \<le> max_size"
      using 3 by auto
    then show "\<exists>ws. Inr chunk # chunks = map Inr ws \<and> c = content @ concat ws \<and> (Inr chunk # chunks = [] \<or> int (length c) \<le> max_size)"
      using le by (intro exI [of _ "chunk # ws"]) auto
  next
    assume "\<exists>ws. Inr chunk # chunks = map Inr ws \<and> c = content @ concat ws \<and> (Inr chunk # chunks = [] \<or> int (length c) \<le> max_size)"
    then obtain ws where w: "chunks = map Inr ws" "c = (content @ chunk) @ concat ws" "int (length c) \<le> max_size"
      by (auto simp: Cons_eq_map_conv)
    then have "\<not> max_size < int (length (content @ chunk))" by simp
    with 3 w show "receive max_size (Inr chunk # chunks) content = Inr c" by auto
  qed
qed auto

lemma memory_put_accepts:
  "fst (memory_put sha k up st) = Inr x \<longleftrightarrow>
    (\<exists>ws. up_chunks up = map Inr ws \<and> int (length (concat ws)) = um_size_bytes (up_metadata up) \<and>
       sha (concat ws) = um_sha256 (up_metadata up) \<and>
       x = \<lparr>so_key = k, so_metadata = up_metadata up, so_stored_at = up_now up\<rparr>)"
proof
  assume a: "fst (memory_put sha k up st) = Inr x"
  obtain c where c: "receive (um_size_bytes (up_metadata up)) (up_chunks up) [] = Inr c" "int (length c) = um_size_bytes (up_metadata up)"
    "sha c = um_sha256 (up_metadata up)" "x = \<lparr>so_key = k, so_metadata = up_metadata up, so_stored_at = up_now up\<rparr>"
    using a by (auto simp: memory_put_def mk_stored_object_def require_utc_def Let_def split: sum.splits if_splits)
  then show "\<exists>ws. up_chunks up = map Inr ws \<and> int (length (concat ws)) = um_size_bytes (up_metadata up) \<and>
       sha (concat ws) = um_sha256 (up_metadata up) \<and> x = \<lparr>so_key = k, so_metadata = up_metadata up, so_stored_at = up_now up\<rparr>"
    using c(1) unfolding receive_Inr by auto
next
  assume "\<exists>ws. up_chunks up = map Inr ws \<and> int (length (concat ws)) = um_size_bytes (up_metadata up) \<and>
       sha (concat ws) = um_sha256 (up_metadata up) \<and> x = \<lparr>so_key = k, so_metadata = up_metadata up, so_stored_at = up_now up\<rparr>"
  then obtain ws where w: "up_chunks up = map Inr ws" "int (length (concat ws)) = um_size_bytes (up_metadata up)"
    "sha (concat ws) = um_sha256 (up_metadata up)" "x = \<lparr>so_key = k, so_metadata = up_metadata up, so_stored_at = up_now up\<rparr>" by blast
  have "receive (um_size_bytes (up_metadata up)) (map Inr ws) [] = Inr (concat ws)" unfolding receive_Inr using w(2) by auto
  then show "fst (memory_put sha k up st) = Inr x"
    using w memory_put_cases [of sha k up st "fst (memory_put sha k up st)" "snd (memory_put sha k up st)"] by simp
qed

text \<open>The keys of product images are always accepted, and distinct images have distinct keys.\<close>

lemma product_image_total:
  assumes "extension \<in> {''avif'', ''jpg'', ''png'', ''webp''}"
  shows "product_image p i extension = Inr \<lparr>ok_value = ''products/'' @ uuid_str p @ ''/'' @ uuid_str i @ ''.'' @ extension\<rparr>"
proof -
  let ?v = "''products/'' @ uuid_str p @ ''/'' @ uuid_str i @ ''.'' @ extension"
  have "ord c \<noteq> 92 \<and> 32 \<le> ord c \<and> c \<noteq> CHR ''/''" if "c \<in> set (uuid_str x)" for c x
    using uuid_str_chars [OF that] by (auto simp: in_class_def lower_digit_def)
  then have u: "CHR ''/'' \<notin> set (uuid_str x)" "CHR 0x5C \<notin> set (uuid_str x)" "\<not> list_ex (\<lambda>c. ord c < 32) (uuid_str x)" for x
    by (auto simp: list_ex_iff not_less) fastforce
  have e: "CHR ''/'' \<notin> set extension" "CHR 0x5C \<notin> set extension" "\<not> list_ex (\<lambda>c. ord c < 32) extension" "length extension \<le> 4"
    using assms by auto
  have "py_split (CHR ''/'') (py_join ''/'' [''products'', uuid_str p, uuid_str i @ ''.'' @ extension]) = [''products'', uuid_str p, uuid_str i @ ''.'' @ extension]"
    using u(1) e(1) by (intro py_split_join) auto
  then have sp: "py_split (CHR ''/'') ?v = [''products'', uuid_str p, uuid_str i @ ''.'' @ extension]" by simp
  have "a \<noteq> ''..''" if "36 \<le> length a" for a :: string using that by auto
  then have "uuid_str p \<noteq> ''..''" "uuid_str i @ ''.'' @ extension \<noteq> ''..''" by simp_all
  then have "''..'' \<notin> set (py_split (CHR ''/'') ?v)" unfolding sp by auto
  moreover have "\<not> 255 < length ?v" using e(4) by simp
  ultimately show ?thesis
    using assms u(2,3) e(2,3) by (simp add: product_image_def mk_object_key_def py_startswith_def)
qed

lemma product_image_inj:
  "product_image p i e = Inr k \<Longrightarrow> product_image p' i' e' = Inr k \<Longrightarrow> p' = p \<and> i' = i \<and> e' = e"
proof -
  have ok: "e \<in> {''avif'', ''jpg'', ''png'', ''webp''}" if "product_image p i e = Inr k" for p i e
    using that by (auto simp: product_image_def split: if_splits)
  assume a: "product_image p i e = Inr k" "product_image p' i' e' = Inr k"
  have "ok_value k = ''products/'' @ uuid_str p @ ''/'' @ uuid_str i @ ''.'' @ e" "ok_value k = ''products/'' @ uuid_str p' @ ''/'' @ uuid_str i' @ ''.'' @ e'"
    using a product_image_total [OF ok [OF a(1)], of p i] product_image_total [OF ok [OF a(2)], of p' i'] by auto
  then have "uuid_str p @ ''/'' @ uuid_str i @ ''.'' @ e = uuid_str p' @ ''/'' @ uuid_str i' @ ''.'' @ e'" by simp
  then show ?thesis by (simp add: uuid_str_inj)
qed

section \<open>Properties\<close>

text \<open>
  C40: the storage in memory is a map from keys to intact objects. An upload is accepted exactly when its chunks
  arrive and together have the declared size and digest, however they are cut. After any sequence of uploads and
  deletions, what is found under a key is the object the last accepted upload to it returned, unless it was
  deleted since, and every stored object has the size and digest it is stored with; a refused upload changes nothing.
\<close>

theorem storage_refines_map:
  assumes "store_run (memory_put sha) memory_delete ops (Map.empty, Map.empty) = (m, st)"
  shows "memory_head k st = m k \<and> store_intact sha st \<and>
    (fst (memory_put sha k up st) = Inr x \<longleftrightarrow>
      (\<exists>ws. up_chunks up = map Inr ws \<and> int (length (concat ws)) = um_size_bytes (up_metadata up) \<and>
         sha (concat ws) = um_sha256 (up_metadata up) \<and> x = \<lparr>so_key = k, so_metadata = up_metadata up, so_stored_at = up_now up\<rparr>))"
proof -
  have h: "(\<lambda>k. memory_head k Map.empty) = Map.empty" by (simp add: memory_head_def fun_eq_iff)
  have i: "store_intact sha Map.empty" by (simp add: store_intact_def)
  show ?thesis
    using memory.store_run_refines [of sha ops Map.empty m st] assms i memory_put_accepts unfolding h by blast
qed

definition demo_upload :: upload where
  "demo_upload = \<lparr>up_chunks = [Inr ''ab'', Inr ''c''],
     up_metadata = \<lparr>um_content_type = ''image/png'', um_size_bytes = 3, um_sha256 = ''d''\<rparr>, up_now = 5\<rparr>"

theorem storage_refines_map_witness:
  "memory_head \<lparr>ok_value = ''k''\<rparr> (snd (store_run (memory_put (\<lambda>c. ''d'')) memory_delete [Put \<lparr>ok_value = ''k''\<rparr> demo_upload, Delete \<lparr>ok_value = ''x''\<rparr>]
     (Map.empty, Map.empty))) = Some \<lparr>so_key = \<lparr>ok_value = ''k''\<rparr>, so_metadata = up_metadata demo_upload, so_stored_at = 5\<rparr>"
proof -
  let ?r = "store_run (memory_put (\<lambda>c. ''d'')) memory_delete [Put \<lparr>ok_value = ''k''\<rparr> demo_upload, Delete \<lparr>ok_value = ''x''\<rparr>] (Map.empty, Map.empty)"
  obtain m st where r: "?r = (m, st)" by (cases ?r)
  have "fst ?r \<lparr>ok_value = ''k''\<rparr> = Some \<lparr>so_key = \<lparr>ok_value = ''k''\<rparr>, so_metadata = up_metadata demo_upload, so_stored_at = 5\<rparr>"
    by (simp add: memory_put_def mk_stored_object_def require_utc_def demo_upload_def Let_def)
  then show ?thesis using storage_refines_map [OF r, of "\<lparr>ok_value = ''k''\<rparr>"] r by simp
qed

end
