(* ===== verification/Endpoints.thy ===== *)
theory Endpoints
  imports Requests Rate_Limits Http_Errors Http_Query
begin

text \<open>
  The versioned HTTP API: \<open>auth/dependencies.py\<close> and the routers of \<open>api/v1\<close>.

  A route is the endpoint the framework selected, with its validated input; \<open>endpoint\<close> is the program the
  framework runs for it in the request's unit of work, dependencies first. \<open>serve\<close> puts the rate limits that
  the routers declare in front of it. The values a handler draws (clock readings, identifiers, secrets) are
  the fields of \<open>draws\<close>; \<open>si_trim\<close> is the stripping of white space by the schemas; the
  provider's network calls and the storage format of attempts are those of \<open>provider_port\<close>.
\<close>

section \<open>Requests, sites and replies\<close>

text \<open>\<open>hr_cookie\<close> is the session cookie, \<open>wr_browser\<close> the cookie that binds an external login.\<close>

record web_request = http_request +
  wr_browser :: "string option"
  wr_request_id :: string

record site =
  si_deployment :: deployment
  si_secure_cookies :: bool
  si_api_prefix :: string
  si_secret_key :: string
  si_profile_limits :: profile_limits
  si_trim :: "string \<Rightarrow> string"

abbreviation site_env :: "site \<Rightarrow> ident_env" where "site_env si \<equiv> dp_env (si_deployment si)"
abbreviation site_auth :: "site \<Rightarrow> auth_settings" where "site_auth si \<equiv> dp_auth (si_deployment si)"
abbreviation site_ns :: "site \<Rightarrow> string" where "site_ns si \<equiv> dp_namespace (si_deployment si)"
abbreviation site_oidc :: "site \<Rightarrow> oidc_settings" where "site_oidc si \<equiv> dp_oidc (si_deployment si)"

definition site_limits :: "site \<Rightarrow> limit_config" where
  "site_limits si = \<lparr>lc_api_prefix = si_api_prefix si, lc_namespace = site_ns si, lc_secret = si_secret_key si,
     lc_allowed_origins = st_allowed_origins (site_auth si)\<rparr>"

record cookie =
  co_name :: string
  co_value :: string
  co_max_age :: int
  co_path :: string
  co_secure :: bool
  co_httponly :: bool
  co_samesite :: string

record reply =
  rp_status :: int
  rp_location :: "string option"
  rp_headers :: "(string \<times> string) list"
  rp_cookies :: "cookie list"
  rp_body :: pyval

definition plain_reply :: "int \<Rightarrow> pyval \<Rightarrow> reply" where
  "plain_reply status body = \<lparr>rp_status = status, rp_location = None, rp_headers = [], rp_cookies = [], rp_body = body\<rparr>"

definition reply_header :: "string \<Rightarrow> string \<Rightarrow> reply \<Rightarrow> reply" where
  "reply_header k v r = r\<lparr>rp_headers := set_header k v (rp_headers r)\<rparr>"

abbreviation no_store :: "reply \<Rightarrow> reply" where
  "no_store \<equiv> reply_header ''Cache-Control'' ''no-store''"

section \<open>Dependencies\<close>

definition cookie_name :: "site \<Rightarrow> string" where
  "cookie_name si = (if si_secure_cookies si then ''__Host-ekumidayomi_session'' else ''ekumidayomi_session'')"

definition require_origin :: "site \<Rightarrow> web_request \<Rightarrow> exn + unit" where
  "require_origin si wr = trusted_origin (site_limits si) (http_request.truncate wr)"

definition current_actor :: "site \<Rightarrow> instant \<Rightarrow> web_request \<Rightarrow> actor id_prog" where
  "current_actor si now wr =
     bnd (if safe_method (hr_method wr) then ret () else lift_r (require_origin si wr)) (\<lambda>_.
     resolve (site_env si) (site_ns si) now (hr_cookie wr))"

definition add_cookie :: "string \<Rightarrow> string \<Rightarrow> int \<Rightarrow> site \<Rightarrow> reply \<Rightarrow> reply" where
  "add_cookie name v seconds si r = r\<lparr>rp_cookies := rp_cookies r @ [\<lparr>co_name = name, co_value = v, co_max_age = seconds,
     co_path = ''/'', co_secure = si_secure_cookies si, co_httponly = True, co_samesite = ''lax''\<rparr>]\<rparr>"

definition set_session_cookie :: "string \<Rightarrow> site \<Rightarrow> int \<Rightarrow> reply \<Rightarrow> reply" where
  "set_session_cookie secret si seconds r = no_store (add_cookie (cookie_name si) secret seconds si r)"

text \<open>\<open>delete_cookie\<close> sets an empty value that expires at once.\<close>

definition clear_session_cookie :: "site \<Rightarrow> reply \<Rightarrow> reply" where
  "clear_session_cookie si r = no_store (add_cookie (cookie_name si) [] 0 si r)"

section \<open>Input schemas\<close>

definition mk_email_input :: "string \<Rightarrow> string option" where
  "mk_email_input email = (if sized 3 320 email then Some email else None)"

definition code_re :: regex where "code_re = ClsRep [(CHR ''0'', CHR ''9'')] 6 6"

definition mk_verify_input :: "uuid \<Rightarrow> string \<Rightarrow> string \<Rightarrow> (uuid \<times> string \<times> string) option" where
  "mk_verify_input challenge_id cd password =
     (if fullmatch code_re cd \<and> sized 15 128 password then Some (challenge_id, cd, password) else None)"

definition mk_login_input :: "string \<Rightarrow> string \<Rightarrow> (string \<times> string) option" where
  "mk_login_input email password = (if sized 3 320 email \<and> sized 1 128 password then Some (email, password) else None)"

definition mk_password_input :: "string \<Rightarrow> string option" where
  "mk_password_input password = (if sized 1 128 password then Some password else None)"

definition challenge_accepted :: "uuid \<Rightarrow> pyval" where
  "challenge_accepted i = VDict [(VStr ''message'', VStr ''If eligible, verification instructions will be sent.''),
     (VStr ''challenge_id'', VStr (uuid_str i))]"

section \<open>Registration and authentication\<close>

record draws =
  dr_clock :: "nat \<Rightarrow> instant"
  dr_ids :: fresh_ids
  dr_secret :: string
  dr_session_id :: uuid
  dr_state :: string
  dr_browser :: string
  dr_nonce :: string
  dr_verifier :: string
  dr_attempt_id :: uuid
  dr_epoch :: int

abbreviation auth_now :: "draws \<Rightarrow> instant" where "auth_now dr \<equiv> dr_clock dr 20"

definition register :: "site \<Rightarrow> draws \<Rightarrow> web_request \<Rightarrow> string \<Rightarrow> reply id_prog" where
  "register si dr wr email =
     bnd (begin_registration (site_env si) (site_auth si) (dr_clock dr) (dr_ids dr) email (Some (wr_request_id wr))) (\<lambda>i.
     ret (no_store (plain_reply 202 (challenge_accepted i))))"

definition verify :: "site \<Rightarrow> draws \<Rightarrow> web_request \<Rightarrow> uuid \<Rightarrow> string \<Rightarrow> string \<Rightarrow> reply id_prog" where
  "verify si dr wr challenge_id cd password =
     bnd (complete_registration (site_env si) (site_auth si) (dr_clock dr) (dr_ids dr) challenge_id cd password (Some (wr_request_id wr))) (\<lambda>_.
     ret (no_store (plain_reply 204 VNone)))"

definition sign_in :: "site \<Rightarrow> draws \<Rightarrow> web_request \<Rightarrow> string \<Rightarrow> string \<Rightarrow> reply id_prog" where
  "sign_in si dr wr email password =
     bnd (lift_r (require_origin si wr)) (\<lambda>_.
     bnd (login (site_env si) (site_auth si) (site_ns si) (dr_clock dr) (dr_secret dr) (dr_session_id dr) email password (hr_cookie wr)) (\<lambda>secret.
     ret (set_session_cookie secret si (st_session_seconds (site_auth si)) (plain_reply 204 VNone))))"

definition me :: "site \<Rightarrow> draws \<Rightarrow> web_request \<Rightarrow> reply id_prog" where
  "me si dr wr =
     bnd (current_actor si (auth_now dr) wr) (\<lambda>ac.
     bnd (find_user_by_id (ac_user_id ac)) (\<lambda>x. case x of
       None \<Rightarrow> throw (app_error AuthenticationRequiredError)
     | Some x \<Rightarrow> ret (no_store (plain_reply 200 (VDict [(VStr ''id'', VStr (uuid_str (us_id x))), (VStr ''email'', VStr (us_email x)),
         (VStr ''display_name'', VStr (us_display_name x)), (VStr ''role'', VStr (role_value (ac_role ac)))])))))"

definition sign_out :: "site \<Rightarrow> draws \<Rightarrow> web_request \<Rightarrow> reply id_prog" where
  "sign_out si dr wr =
     bnd (lift_r (require_origin si wr)) (\<lambda>_.
     bnd (logout (site_env si) (site_ns si) (dr_clock dr) (hr_cookie wr)) (\<lambda>_.
     ret (clear_session_cookie si (plain_reply 204 VNone))))"

definition sign_out_all :: "site \<Rightarrow> draws \<Rightarrow> web_request \<Rightarrow> reply id_prog" where
  "sign_out_all si dr wr =
     bnd (current_actor si (auth_now dr) wr) (\<lambda>ac.
     bnd (logout_all (site_ns si) (dr_clock dr) ac) (\<lambda>_.
     ret (clear_session_cookie si (plain_reply 204 VNone))))"

definition reauthenticate_password :: "site \<Rightarrow> draws \<Rightarrow> web_request \<Rightarrow> string \<Rightarrow> reply id_prog" where
  "reauthenticate_password si dr wr password =
     bnd (current_actor si (auth_now dr) wr) (\<lambda>ac.
     bnd (reauthenticate (site_env si) (dr_clock dr) ac password) (\<lambda>_.
     ret (no_store (plain_reply 204 VNone))))"

definition request_reset :: "site \<Rightarrow> draws \<Rightarrow> web_request \<Rightarrow> string \<Rightarrow> reply id_prog" where
  "request_reset si dr wr email =
     bnd (begin_reset (site_env si) (site_auth si) (dr_clock dr) (dr_ids dr) email) (\<lambda>i.
     ret (no_store (plain_reply 202 (challenge_accepted i))))"

definition confirm_reset :: "site \<Rightarrow> draws \<Rightarrow> web_request \<Rightarrow> uuid \<Rightarrow> string \<Rightarrow> string \<Rightarrow> reply id_prog" where
  "confirm_reset si dr wr challenge_id cd password =
     bnd (lift_r (require_origin si wr)) (\<lambda>_.
     bnd (complete_reset (site_env si) (site_auth si) (site_ns si) (dr_clock dr) (dr_ids dr) challenge_id cd password (wr_request_id wr)) (\<lambda>_.
     ret (clear_session_cookie si (plain_reply 204 VNone))))"

section \<open>External identities\<close>

record provider_port =
  pp_authorization_url :: "provider_name \<Rightarrow> string \<Rightarrow> attempt \<Rightarrow> exn + string"
  pp_exchange :: "provider_name \<Rightarrow> string \<Rightarrow> attempt \<Rightarrow> exn + verified_identity"
  pp_dump :: "attempt \<Rightarrow> string"
  pp_load :: "string \<Rightarrow> attempt option"

definition browser_cookie :: "site \<Rightarrow> string" where
  "browser_cookie si = (if si_secure_cookies si then ''__Host-ekumidayomi_oidc'' else ''ekumidayomi_oidc'')"

definition private_redirect :: "string \<Rightarrow> reply" where
  "private_redirect url = reply_header ''Referrer-Policy'' ''no-referrer''
     (no_store ((plain_reply 303 VNone)\<lparr>rp_location := Some url\<rparr>))"

definition new_attempt :: "site \<Rightarrow> draws \<Rightarrow> provider_name \<Rightarrow> intent \<Rightarrow> actor option \<Rightarrow> string \<Rightarrow> exn + attempt" where
  "new_attempt si dr p it ac return_path = validate_actor_binding
     \<lparr>at_attempt_id = dr_attempt_id dr, at_provider = p, at_intent = it, at_browser_hash = en_sha256 (site_env si) (dr_browser dr),
      at_nonce = dr_nonce dr, at_verifier = dr_verifier dr, at_redirect_uri = cf_redirect_uri (provider_config_of (site_oidc si) p),
      at_return_path = return_path, at_actor_id = map_option ac_user_id ac, at_session_id = map_option ac_session_id ac,
      at_started_at = dr_epoch dr\<rparr>"

definition begin_oidc :: "site \<Rightarrow> provider_port \<Rightarrow> draws \<Rightarrow> provider_name \<Rightarrow> intent \<Rightarrow> actor option \<Rightarrow> string \<Rightarrow> reply id_prog" where
  "begin_oidc si pp dr p it ac return_path =
     (if \<not> cf_enabled (provider_config_of (site_oidc si) p) then throw (app_error ExternalLoginFailedError)
      else
        bnd (lift_r (new_attempt si dr p it ac return_path)) (\<lambda>a.
        bnd (outside (create_attempt (site_env si) (site_ns si) (pp_dump pp) (dr_state dr) a)) (\<lambda>state.
        bnd (lift_r (pp_authorization_url pp p state a)) (\<lambda>url.
        ret (add_cookie (browser_cookie si) (dr_browser dr) (oi_attempt_seconds (site_oidc si)) si (private_redirect url))))))"

definition start_oidc :: "site \<Rightarrow> provider_port \<Rightarrow> draws \<Rightarrow> web_request \<Rightarrow> provider_name \<Rightarrow> string \<Rightarrow> reply id_prog" where
  "start_oidc si pp dr wr p return_path =
     bnd (lift_r (require_origin si wr)) (\<lambda>_. begin_oidc si pp dr p Login None return_path)"

definition link_oidc :: "site \<Rightarrow> provider_port \<Rightarrow> draws \<Rightarrow> web_request \<Rightarrow> provider_name \<Rightarrow> reply id_prog" where
  "link_oidc si pp dr wr p =
     bnd (current_actor si (auth_now dr) wr) (\<lambda>ac.
     bnd (authorize (dr_clock dr 0) (dr_clock dr 1) ac Profile_Write (Some (st_recent_auth_seconds (site_auth si)))) (\<lambda>_.
     begin_oidc si pp dr p Link (Some ac) ''/profile''))"

definition reauthenticate_provider :: "site \<Rightarrow> provider_port \<Rightarrow> draws \<Rightarrow> web_request \<Rightarrow> provider_name \<Rightarrow> reply id_prog" where
  "reauthenticate_provider si pp dr wr p =
     bnd (current_actor si (auth_now dr) wr) (\<lambda>ac.
     bnd (authorize (dr_clock dr 0) (dr_clock dr 1) ac Profile_Write None) (\<lambda>_.
     begin_oidc si pp dr p Reauthenticate (Some ac) ''/profile''))"

definition callback_oidc ::
  "site \<Rightarrow> provider_port \<Rightarrow> draws \<Rightarrow> web_request \<Rightarrow> provider_name \<Rightarrow> string \<Rightarrow> string option \<Rightarrow> string option \<Rightarrow> reply id_prog" where
  "callback_oidc si pp dr wr p state cd err =
     bnd (callback (site_env si) (site_auth si) (site_ns si) (dr_clock dr) (dr_ids dr) (dr_secret dr) (dr_session_id dr) (site_oidc si)
        (pp_load pp) (pp_exchange pp p) p state (case wr_browser wr of None \<Rightarrow> [] | Some b \<Rightarrow> b) cd err (hr_cookie wr) (wr_request_id wr))
     (\<lambda>(return_path, secret).
      let r = add_cookie (browser_cookie si) [] 0 si (private_redirect return_path) in
      ret (case secret of None \<Rightarrow> r | Some s \<Rightarrow> set_session_cookie s si (st_session_seconds (site_auth si)) r))"

definition identities :: "site \<Rightarrow> draws \<Rightarrow> web_request \<Rightarrow> reply id_prog" where
  "identities si dr wr =
     bnd (current_actor si (auth_now dr) wr) (\<lambda>ac.
     bnd (list_identities (dr_clock dr) ac) (\<lambda>ps.
     ret (no_store (plain_reply 200 (VList (map (\<lambda>p. VDict [(VStr ''provider'', VStr (provider_value p))]) ps))))))"

definition remove_identity :: "site \<Rightarrow> draws \<Rightarrow> web_request \<Rightarrow> provider_name \<Rightarrow> reply id_prog" where
  "remove_identity si dr wr p =
     bnd (current_actor si (auth_now dr) wr) (\<lambda>ac.
     bnd (unlink (site_env si) (site_auth si) (dr_clock dr) (fi_audit (dr_ids dr)) ac p (wr_request_id wr)) (\<lambda>_.
     ret (no_store (plain_reply 204 VNone))))"

section \<open>Profile\<close>

definition json_opt :: "('a \<Rightarrow> pyval) \<Rightarrow> 'a option \<Rightarrow> pyval" where
  "json_opt f v = (case v of None \<Rightarrow> VNone | Some x \<Rightarrow> f x)"

definition profile_view :: "user \<Rightarrow> pyval" where
  "profile_view x = VDict [(VStr ''id'', VStr (uuid_str (us_id x))), (VStr ''email'', VStr (us_email x)),
     (VStr ''display_name'', VStr (us_display_name x)), (VStr ''phone'', json_opt VStr (us_phone x))]"

text \<open>\<open>AddressView\<close> inherits the checks of \<open>AddressInput\<close>, so a row is validated again.\<close>

definition address_fields :: "address \<Rightarrow> address_input" where
  "address_fields a = \<lparr>ai_kind = ad_kind a, ai_recipient = ad_recipient a, ai_line1 = ad_line1 a, ai_line2 = ad_line2 a,
     ai_city = ad_city a, ai_region = ad_region a, ai_postal_code = ad_postal_code a, ai_country_code = ad_country_code a,
     ai_phone = ad_phone a, ai_is_default = ad_is_default a\<rparr>"

definition address_view :: "(string \<Rightarrow> string) \<Rightarrow> address \<Rightarrow> exn + pyval" where
  "address_view trim a = (case mk_address_input trim (address_fields a) of
     None \<Rightarrow> Inl (ValueError ''AddressView'')
   | Some d \<Rightarrow> Inr (VDict [(VStr ''kind'', VStr (ai_kind d)), (VStr ''recipient'', VStr (ai_recipient d)), (VStr ''line1'', VStr (ai_line1 d)),
       (VStr ''line2'', json_opt VStr (ai_line2 d)), (VStr ''city'', VStr (ai_city d)), (VStr ''region'', VStr (ai_region d)),
       (VStr ''postal_code'', json_opt VStr (ai_postal_code d)), (VStr ''country_code'', VStr (ai_country_code d)),
       (VStr ''phone'', json_opt VStr (ai_phone d)), (VStr ''is_default'', VBool (ai_is_default d)), (VStr ''id'', VStr (uuid_str (ad_id a)))]))"

definition get_profile :: "site \<Rightarrow> draws \<Rightarrow> web_request \<Rightarrow> reply id_prog" where
  "get_profile si dr wr =
     bnd (current_actor si (auth_now dr) wr) (\<lambda>ac.
     bnd (authorize (dr_clock dr 0) (dr_clock dr 1) ac Profile_Write None) (\<lambda>x.
     ret (no_store (plain_reply 200 (profile_view x)))))"

definition put_profile :: "site \<Rightarrow> draws \<Rightarrow> web_request \<Rightarrow> profile_input \<Rightarrow> reply id_prog" where
  "put_profile si dr wr data =
     bnd (current_actor si (auth_now dr) wr) (\<lambda>ac.
     bnd (update_profile (dr_clock dr) ac data) (\<lambda>x.
     ret (no_store (plain_reply 200 (profile_view x)))))"

definition addresses :: "site \<Rightarrow> draws \<Rightarrow> web_request \<Rightarrow> reply id_prog" where
  "addresses si dr wr =
     bnd (current_actor si (auth_now dr) wr) (\<lambda>ac.
     bnd (list_addresses (dr_clock dr) ac) (\<lambda>rows.
     bnd (lift_r (those_r (map (address_view (si_trim si)) rows))) (\<lambda>vs.
     ret (no_store (plain_reply 200 (VList vs))))))"

definition put_address :: "int \<Rightarrow> site \<Rightarrow> draws \<Rightarrow> web_request \<Rightarrow> uuid option \<Rightarrow> address_input \<Rightarrow> reply id_prog" where
  "put_address status si dr wr address_id data =
     bnd (current_actor si (auth_now dr) wr) (\<lambda>ac.
     bnd (save_address (dr_clock dr) (fi_row (dr_ids dr)) ac data address_id) (\<lambda>row.
     bnd (lift_r (address_view (si_trim si) row)) (\<lambda>v.
     ret (no_store (plain_reply status v)))))"

definition create_address :: "site \<Rightarrow> draws \<Rightarrow> web_request \<Rightarrow> address_input \<Rightarrow> reply id_prog" where
  "create_address si dr wr data = put_address 201 si dr wr None data"

definition replace_address :: "site \<Rightarrow> draws \<Rightarrow> web_request \<Rightarrow> uuid \<Rightarrow> address_input \<Rightarrow> reply id_prog" where
  "replace_address si dr wr address_id data = put_address 200 si dr wr (Some address_id) data"

definition remove_address :: "site \<Rightarrow> draws \<Rightarrow> web_request \<Rightarrow> uuid \<Rightarrow> reply id_prog" where
  "remove_address si dr wr address_id =
     bnd (current_actor si (auth_now dr) wr) (\<lambda>ac.
     bnd (delete_address (dr_clock dr) ac address_id) (\<lambda>_.
     ret (no_store (plain_reply 204 VNone))))"

section \<open>Administration\<close>

definition user_view :: "user \<Rightarrow> pyval" where
  "user_view x = VDict [(VStr ''id'', VStr (uuid_str (us_id x))), (VStr ''email'', VStr (us_email x)),
     (VStr ''display_name'', VStr (us_display_name x)), (VStr ''role'', VStr (us_role x)), (VStr ''is_active'', VBool (us_is_active x)),
     (VStr ''email_verified_at'', json_opt (\<lambda>t. VStr (iso_utc t)) (us_email_verified_at x)), (VStr ''created_at'', VStr (iso_utc (us_created_at x)))]"

definition actor_kind_value :: "actor_kind \<Rightarrow> string" where
  "actor_kind_value k = (case k of Customer_Actor \<Rightarrow> ''customer'' | Administrator_Actor \<Rightarrow> ''administrator''
     | System_Actor \<Rightarrow> ''system'' | Anonymous_Actor \<Rightarrow> ''anonymous'')"

definition audit_outcome_value :: "audit_outcome \<Rightarrow> string" where
  "audit_outcome_value k = (case k of Audit_Succeeded \<Rightarrow> ''succeeded'' | Audit_Denied \<Rightarrow> ''denied'' | Audit_Failed \<Rightarrow> ''failed'')"

text \<open>The public projection of an audit record has no metadata.\<close>

definition audit_view :: "audit_record \<Rightarrow> pyval" where
  "audit_view r = VDict [(VStr ''id'', VStr (uuid_str (ar_id r))), (VStr ''actor_kind'', VStr (actor_kind_value (ar_actor_kind r))),
     (VStr ''actor_id'', json_opt (\<lambda>i. VStr (uuid_str i)) (ar_actor_id r)), (VStr ''action'', VStr (ar_action r)),
     (VStr ''target_type'', VStr (ar_target_type r)), (VStr ''target_id'', VStr (uuid_str (ar_target_id r))),
     (VStr ''outcome'', VStr (audit_outcome_value (ar_outcome r))), (VStr ''occurred_at'', VStr (iso_utc (ar_occurred_at r))),
     (VStr ''correlation_id'', VStr (ar_correlation_id r))]"

definition page_json :: "pyval api_page \<Rightarrow> pyval" where
  "page_json g = (let m = ap_pagination g in VDict [(VStr ''items'', VList (ap_items g)), (VStr ''pagination'', VDict
     [(VStr ''page'', VInt (pm_page m)), (VStr ''page_size'', VInt (pm_page_size m)), (VStr ''total_items'', VInt (pm_total_items m)),
      (VStr ''total_pages'', VInt (pm_total_pages m)), (VStr ''has_previous'', VBool (pm_has_previous m)), (VStr ''has_next'', VBool (pm_has_next m))])])"

definition view_page :: "('a \<Rightarrow> pyval) \<Rightarrow> 'a page \<Rightarrow> exn + pyval" where
  "view_page view g =
     bind_r (mk_page (map view (pg_items g)) (VInt (pg_total_items g)) (VInt (pg_page g)) (VInt (pg_page_size g))) (\<lambda>h.
     bind_r (page_from_domain h) (\<lambda>r. Inr (page_json r)))"

definition users :: "site \<Rightarrow> draws \<Rightarrow> web_request \<Rightarrow> int \<Rightarrow> int \<Rightarrow> role option \<Rightarrow> bool option \<Rightarrow> string option \<Rightarrow> reply id_prog" where
  "users si dr wr page_no page_size rl act email =
     bnd (current_actor si (auth_now dr) wr) (\<lambda>ac.
     bnd (lift_r (mk_page_request (VInt page_no) (VInt page_size))) (\<lambda>pr.
     bnd (list_users (site_env si) (dr_clock dr) ac pr rl act email) (\<lambda>result.
     bnd (lift_r (view_page user_view result)) (\<lambda>v.
     ret (no_store (plain_reply 200 v))))))"

definition access :: "site \<Rightarrow> draws \<Rightarrow> web_request \<Rightarrow> uuid \<Rightarrow> access_input \<Rightarrow> reply id_prog" where
  "access si dr wr user_id payload =
     bnd (current_actor si (auth_now dr) wr) (\<lambda>ac.
     bnd (change_access (site_env si) (site_auth si) (site_ns si) (dr_clock dr) (fi_audit (dr_ids dr)) ac user_id
        (xi_role payload) (xi_is_active payload) (wr_request_id wr)) (\<lambda>_.
     ret (no_store (plain_reply 204 VNone))))"

record audit_query =
  aq_action :: "string option"
  aq_actor_kind :: "actor_kind option"
  aq_actor_id :: "uuid option"
  aq_target_type :: "string option"
  aq_target_id :: "uuid option"
  aq_outcome :: "audit_outcome option"
  aq_occurred_from :: "py_datetime option"
  aq_occurred_to :: "py_datetime option"

definition audits :: "site \<Rightarrow> draws \<Rightarrow> web_request \<Rightarrow> int \<Rightarrow> int \<Rightarrow> audit_query \<Rightarrow> reply id_prog" where
  "audits si dr wr page_no page_size aq =
     bnd (current_actor si (auth_now dr) wr) (\<lambda>ac.
     bnd (authorize (dr_clock dr 0) (dr_clock dr 1) ac Audit_Read None) (\<lambda>_.
     bnd (catch (lift_r (mk_audit_filters (aq_action aq) (aq_actor_kind aq) (aq_actor_id aq) (aq_target_type aq) (aq_target_id aq)
            (aq_outcome aq) None (aq_occurred_from aq) (aq_occurred_to aq)))
          (\<lambda>e. case e of ValueError m \<Rightarrow> True | TypeError m \<Rightarrow> True | _ \<Rightarrow> False)
          (\<lambda>_. throw (app_error InvalidAuditFiltersError))) (\<lambda>filters.
     bnd (lift_r (mk_page_request (VInt page_no) (VInt page_size))) (\<lambda>pr.
     bnd (query id_audit) (\<lambda>tbl.
     bnd (lift_r (query_records filters pr tbl)) (\<lambda>result.
     bnd (lift_r (view_page audit_view result)) (\<lambda>v.
     ret (no_store (plain_reply 200 v)))))))))"

section \<open>Routes\<close>

datatype route =
    Register string
  | Verify uuid string string
  | Sign_In string string
  | Me
  | Sign_Out
  | Sign_Out_All
  | Reauthenticate_Here string
  | Request_Reset string
  | Confirm_Reset uuid string string
  | Start_Oidc provider_name string
  | Link_Oidc provider_name
  | Reauthenticate_There provider_name
  | Callback_Oidc provider_name string "string option" "string option"
  | Identities
  | Remove_Identity provider_name
  | Get_Profile
  | Put_Profile profile_input
  | Addresses
  | Create_Address address_input
  | Replace_Address uuid address_input
  | Remove_Address uuid
  | Users int int "role option" "bool option" "string option"
  | Access uuid access_input
  | Audits int int audit_query

text \<open>The methods and the paths, below the API prefix, the routers declare.\<close>

primrec route_method :: "route \<Rightarrow> string" where
  "route_method (Register e) = ''POST''"
| "route_method (Verify i cd p) = ''POST''"
| "route_method (Sign_In e p) = ''POST''"
| "route_method Me = ''GET''"
| "route_method Sign_Out = ''POST''"
| "route_method Sign_Out_All = ''POST''"
| "route_method (Reauthenticate_Here p) = ''POST''"
| "route_method (Request_Reset e) = ''POST''"
| "route_method (Confirm_Reset i cd p) = ''POST''"
| "route_method (Start_Oidc p r) = ''POST''"
| "route_method (Link_Oidc p) = ''POST''"
| "route_method (Reauthenticate_There p) = ''POST''"
| "route_method (Callback_Oidc p st cd e) = ''GET''"
| "route_method Identities = ''GET''"
| "route_method (Remove_Identity p) = ''DELETE''"
| "route_method Get_Profile = ''GET''"
| "route_method (Put_Profile d) = ''PUT''"
| "route_method Addresses = ''GET''"
| "route_method (Create_Address d) = ''POST''"
| "route_method (Replace_Address i d) = ''PUT''"
| "route_method (Remove_Address i) = ''DELETE''"
| "route_method (Users n s r a e) = ''GET''"
| "route_method (Access i x) = ''PATCH''"
| "route_method (Audits n s q) = ''GET''"

fun endpoint :: "site \<Rightarrow> provider_port \<Rightarrow> draws \<Rightarrow> web_request \<Rightarrow> route \<Rightarrow> reply id_prog" where
  "endpoint si pp dr wr (Register e) = register si dr wr e"
| "endpoint si pp dr wr (Verify i cd p) = verify si dr wr i cd p"
| "endpoint si pp dr wr (Sign_In e p) = sign_in si dr wr e p"
| "endpoint si pp dr wr Me = me si dr wr"
| "endpoint si pp dr wr Sign_Out = sign_out si dr wr"
| "endpoint si pp dr wr Sign_Out_All = sign_out_all si dr wr"
| "endpoint si pp dr wr (Reauthenticate_Here p) = reauthenticate_password si dr wr p"
| "endpoint si pp dr wr (Request_Reset e) = request_reset si dr wr e"
| "endpoint si pp dr wr (Confirm_Reset i cd p) = confirm_reset si dr wr i cd p"
| "endpoint si pp dr wr (Start_Oidc p r) = start_oidc si pp dr wr p r"
| "endpoint si pp dr wr (Link_Oidc p) = link_oidc si pp dr wr p"
| "endpoint si pp dr wr (Reauthenticate_There p) = reauthenticate_provider si pp dr wr p"
| "endpoint si pp dr wr (Callback_Oidc p st cd e) = callback_oidc si pp dr wr p st cd e"
| "endpoint si pp dr wr Identities = identities si dr wr"
| "endpoint si pp dr wr (Remove_Identity p) = remove_identity si dr wr p"
| "endpoint si pp dr wr Get_Profile = get_profile si dr wr"
| "endpoint si pp dr wr (Put_Profile d) = put_profile si dr wr d"
| "endpoint si pp dr wr Addresses = addresses si dr wr"
| "endpoint si pp dr wr (Create_Address d) = create_address si dr wr d"
| "endpoint si pp dr wr (Replace_Address i d) = replace_address si dr wr i d"
| "endpoint si pp dr wr (Remove_Address i) = remove_address si dr wr i"
| "endpoint si pp dr wr (Users n s r a e) = users si dr wr n s r a e"
| "endpoint si pp dr wr (Access i x) = access si dr wr i x"
| "endpoint si pp dr wr (Audits n s q) = audits si dr wr n s q"

section \<open>The routers\<close>

datatype guard = Identity_Limits | Profile_Limits | No_Limits

fun route_guard :: "route \<Rightarrow> guard" where
  "route_guard Get_Profile = Profile_Limits"
| "route_guard (Put_Profile d) = Profile_Limits"
| "route_guard Addresses = Profile_Limits"
| "route_guard (Create_Address d) = Profile_Limits"
| "route_guard (Replace_Address i d) = Profile_Limits"
| "route_guard (Remove_Address i) = Profile_Limits"
| "route_guard (Users n s r a e) = No_Limits"
| "route_guard (Access i x) = No_Limits"
| "route_guard (Audits n s q) = No_Limits"
| "route_guard _ = Identity_Limits"

text \<open>What the limits draw: the clock in milliseconds, the members they add, the JSON reader, the template of the path.\<close>

record limit_draws =
  ld_now :: int
  ld_member1 :: string
  ld_member2 :: string
  ld_parse :: "string \<Rightarrow> body_data option"
  ld_template :: string

type_synonym system = "identity_db \<times> cache_world \<times> limiter"

definition run_endpoint :: "reply id_prog \<Rightarrow> system \<Rightarrow> (exn + reply) \<times> system" where
  "run_endpoint p s = (case s of (db, w, l) \<Rightarrow> (case run_tx p db w of (r, db', w') \<Rightarrow> (r, db', w', l)))"

text \<open>
  The limits of the profile routes need the actor: the dependency reads the session first. It only reads, so
  running it on its own before the endpoint gives what the shared unit of work gives.
\<close>

definition serve ::
  "site \<Rightarrow> provider_port \<Rightarrow> draws \<Rightarrow> limit_draws \<Rightarrow> web_request \<Rightarrow> route \<Rightarrow> system \<Rightarrow> (exn + reply) \<times> system" where
  "serve si pp dr ld wr rt s = (case s of (db, w, l) \<Rightarrow> (case route_guard rt of
     Identity_Limits \<Rightarrow> (case identify_rate_limit (site_env si) (site_limits si) (ld_now ld) (ld_member1 ld) (ld_member2 ld) (ld_parse ld)
           (http_request.truncate wr) l of
         (Inl e, l') \<Rightarrow> (Inl e, db, w, l')
       | (Inr _, l') \<Rightarrow> run_endpoint (endpoint si pp dr wr rt) (db, w, l'))
   | Profile_Limits \<Rightarrow> (case run_tx (current_actor si (auth_now dr) wr) db w of
         (Inl e, db1, w1) \<Rightarrow> (Inl e, db1, w1, l)
       | (Inr ac, db1, w1) \<Rightarrow> (case profile_rate_limit (site_env si) (site_limits si) (si_profile_limits si) (ld_now ld) (ld_member1 ld)
             (hr_method wr) (ld_template ld) ac l of
           (Inl e, l') \<Rightarrow> (Inl e, db1, w1, l')
         | (Inr _, l') \<Rightarrow> run_endpoint (endpoint si pp dr wr rt) (db1, w1, l')))
   | No_Limits \<Rightarrow> run_endpoint (endpoint si pp dr wr rt) (db, w, l)))"

end
