(* ===== verification/Api_Security.thy ===== *)
theory Api_Security
  imports Endpoints Auth_Security
begin

text \<open>
  What the whole API guarantees, over the definitions of \<open>Endpoints\<close>: requests of other sites change
  nothing, replies cannot be cached and their cookies are out of reach of scripts, protected and
  administrative routes answer only live sessions with the permission.
\<close>

section \<open>Programs that commit nothing\<close>

named_theorems unc_rules \<open>introduction rules for uncommitted\<close>

definition uncommitted :: "('a, 'db, 'w) prog \<Rightarrow> bool" where
  "uncommitted p \<longleftrightarrow> (\<forall>s. durable (snd (p s)) = durable s)"

lemma unc_ret [unc_rules]: "uncommitted (ret x)"
  by (simp add: uncommitted_def ret_def)

lemma unc_throw [unc_rules]: "uncommitted (throw e)"
  by (simp add: uncommitted_def throw_def)

lemma unc_lift_r [unc_rules]: "uncommitted (lift_r r)"
  by (simp add: uncommitted_def lift_r_def)

lemma unc_session_op [unc_rules]: "uncommitted (session_op f)"
  by (auto simp: uncommitted_def session_op_def split: sum.splits)

lemma unc_query [unc_rules]: "uncommitted (query f)"
  unfolding query_def by (rule unc_session_op)

lemma unc_outside [unc_rules]: "uncommitted (outside f)"
  by (auto simp: uncommitted_def outside_def split: prod.splits)

lemma unc_bnd [unc_rules]: "uncommitted p \<Longrightarrow> (\<And>x. uncommitted (f x)) \<Longrightarrow> uncommitted (bnd p f)"
  by (auto simp: uncommitted_def bnd_def split: prod.splits sum.splits) (metis snd_conv)+

lemma unc_catch [unc_rules]: "uncommitted p \<Longrightarrow> (\<And>e. uncommitted (h e)) \<Longrightarrow> uncommitted (catch p E h)"
  by (auto simp: uncommitted_def catch_def split: prod.splits sum.splits) (metis snd_conv)+

lemma unc_if [unc_rules]: "uncommitted p \<Longrightarrow> uncommitted q \<Longrightarrow> uncommitted (if b then p else q)"
  by simp

lemma unc_option [unc_rules]:
  "uncommitted p \<Longrightarrow> (\<And>x. uncommitted (f x)) \<Longrightarrow> uncommitted (case v of None \<Rightarrow> p | Some x \<Rightarrow> f x)"
  by (cases v) simp_all

lemma unc_prod [unc_rules]: "(\<And>x y. uncommitted (f x y)) \<Longrightarrow> uncommitted (case v of (x, y) \<Rightarrow> f x y)"
  by (cases v) simp

lemma unc_run_tx: "uncommitted p \<Longrightarrow> run_tx p db w = (r, db', w') \<Longrightarrow> db' = db"
  unfolding run_tx_eq uncommitted_def by (metis snd_conv started_simps(1))

section \<open>Reads\<close>

lemma unc_resolve [unc_rules]: "uncommitted (resolve en ns now secret)"
  unfolding resolve_def Let_def cached_hint_def redis_get_def redis_set_def by (intro unc_rules)

lemma unc_authorize [unc_rules]: "uncommitted (authorize now now2 ac perm recent)"
  unfolding authorize_def find_user_by_id_def by (intro unc_rules)

lemma unc_current_actor [unc_rules]: "uncommitted (current_actor si now wr)"
  unfolding current_actor_def by (intro unc_rules)

lemma unc_reads [unc_rules]:
  "uncommitted (me si dr wr)" "uncommitted (identities si dr wr)" "uncommitted (get_profile si dr wr)"
  "uncommitted (addresses si dr wr)" "uncommitted (users si dr wr n m rl act email)" "uncommitted (audits si dr wr n m aq)"
  unfolding me_def identities_def get_profile_def addresses_def users_def audits_def find_user_by_id_def
    list_identities_def list_addresses_def list_users_def
  by (intro unc_rules)+

fun callback_route :: "route \<Rightarrow> bool" where
  "callback_route (Callback_Oidc p st cd e) = True"
| "callback_route _ = False"

lemma unc_get:
  "safe_method (route_method rt) \<Longrightarrow> \<not> callback_route rt \<Longrightarrow> uncommitted (endpoint si pp dr wr rt)"
  by (cases rt) (simp_all add: safe_method_def unc_reads)

section \<open>Requests of other sites\<close>

text \<open>A request that no page of an allowed origin made.\<close>

definition foreign :: "site \<Rightarrow> web_request \<Rightarrow> bool" where
  "foreign si wr \<longleftrightarrow> (case hr_origin wr of None \<Rightarrow> True | Some og \<Rightarrow> og \<notin> set (st_allowed_origins (site_auth si)))"


lemma foreign_origin:
  assumes "foreign si wr"
  shows "trusted_origin (site_limits si) (http_request.truncate wr) = Inl (app_error UntrustedOriginError)"
  using assms by (auto simp: foreign_def trusted_origin_def site_limits_def http_request.truncate_def split: option.splits)

lemma foreign_limit:
  assumes "foreign si wr" "\<not> safe_method (hr_method wr)"
  shows "identify_rate_limit en (site_limits si) now m1 m2 parse (http_request.truncate wr) l = (Inl (app_error UntrustedOriginError), l)"
  unfolding identify_rate_limit_def foreign_origin [OF assms(1)]
  using assms(2) by (simp add: http_request.truncate_def)

lemma foreign_actor:
  assumes "foreign si wr" "\<not> safe_method (hr_method wr)"
  shows "current_actor si now wr = throw (app_error UntrustedOriginError)"
  unfolding current_actor_def require_origin_def foreign_origin [OF assms(1)]
  using assms(2) by (simp add: fun_eq_iff bnd_def lift_r_def throw_def)

lemma bnd_throw [simp]: "bnd (throw e) f = throw e"
  by (simp add: fun_eq_iff bnd_def throw_def)

lemma run_throw [simp]: "run_tx (throw e) db w = (Inl e, db, w)"
  by (auto simp: run_tx_eq throw_def)

lemma foreign_change:
  assumes "foreign si wr" "\<not> safe_method (route_method rt)" "hr_method wr = route_method rt"
  shows "serve si pp dr ld wr rt (db, w, l) = (Inl (app_error UntrustedOriginError), db, w, l)"
proof -
  have a: "current_actor si (auth_now dr) wr = throw (app_error UntrustedOriginError)"
    using foreign_actor assms by simp
  show ?thesis
  proof (cases "route_guard rt")
    case Identity_Limits
    then show ?thesis using foreign_limit [OF assms(1)] assms(2,3) by (simp add: serve_def)
  next
    case Profile_Limits
    then show ?thesis by (simp add: serve_def a)
  next
    case No_Limits
    then have "endpoint si pp dr wr rt = throw (app_error UntrustedOriginError)"
      using assms(2) by (cases rt) (simp_all add: access_def a safe_method_def)
    then show ?thesis using No_Limits by (simp add: serve_def run_endpoint_def)
  qed
qed

lemma get_unchanged:
  assumes "safe_method (route_method rt)" "\<not> callback_route rt"
    and s: "serve si pp dr ld wr rt (db, w, l) = (r, db', w', l')"
  shows "db' = db"
proof -
  have e: "uncommitted (endpoint si pp dr wr rt)" using unc_get assms(1,2) .
  have run: "run_endpoint (endpoint si pp dr wr rt) (db, w1, l1) = (r, db', w', l') \<Longrightarrow> db' = db" for w1 l1
    by (auto simp: run_endpoint_def split: prod.splits dest!: unc_run_tx [OF e])
  show ?thesis
    using s run by (auto simp: serve_def split: guard.splits prod.splits sum.splits dest: unc_run_tx [OF unc_current_actor])
qed

section \<open>Hardened replies\<close>

named_theorems returns_rules \<open>introduction rules for returns\<close>

definition returns :: "('a \<Rightarrow> bool) \<Rightarrow> ('a, 'db, 'w) prog \<Rightarrow> bool" where
  "returns Q p \<longleftrightarrow> (\<forall>s x s'. p s = (Inr x, s') \<longrightarrow> Q x)"

lemma returns_ret [returns_rules]: "Q x \<Longrightarrow> returns Q (ret x)"
  by (simp add: returns_def run_simps)

lemma returns_throw [returns_rules]: "returns Q (throw e)"
  by (simp add: returns_def run_simps)

lemma returns_bnd [returns_rules]: "(\<And>x. returns Q (f x)) \<Longrightarrow> returns Q (bnd p f)"
  unfolding returns_def bnd_Inr by blast

lemma returns_if [returns_rules]: "returns Q p \<Longrightarrow> returns Q q \<Longrightarrow> returns Q (if b then p else q)"
  by simp

lemma returns_option [returns_rules]:
  "returns Q p \<Longrightarrow> (\<And>x. returns Q (f x)) \<Longrightarrow> returns Q (case v of None \<Rightarrow> p | Some x \<Rightarrow> f x)"
  by (cases v) simp_all

lemma returns_prod [returns_rules]: "(\<And>x y. returns Q (f x y)) \<Longrightarrow> returns Q (case v of (x, y) \<Rightarrow> f x y)"
  by (cases v) simp

lemma returns_run_tx: "returns Q p \<Longrightarrow> run_tx p db w = (Inr x, db', w') \<Longrightarrow> Q x"
  unfolding run_tx_eq returns_def by blast

text \<open>A cookie scripts cannot read and other sites cannot send, bound to this host when it is secure.\<close>

definition cookie_ok :: "site \<Rightarrow> cookie \<Rightarrow> bool" where
  "cookie_ok si c \<longleftrightarrow> co_httponly c \<and> co_samesite c = ''lax'' \<and> co_path c = ''/'' \<and> co_secure c = si_secure_cookies si \<and>
     (si_secure_cookies si \<longleftrightarrow> py_startswith (co_name c) ''__Host-'')"

definition hardened :: "site \<Rightarrow> reply \<Rightarrow> bool" where
  "hardened si r \<longleftrightarrow> map_of (rp_headers r) ''Cache-Control'' = Some ''no-store'' \<and> list_all (cookie_ok si) (rp_cookies r)"

lemma map_of_set_header: "map_of (set_header k v hs) k' = (if k' = k then Some v else map_of hs k')"
  by (induction k v hs rule: set_header.induct) auto

lemma cookie_names: "cookie_ok si \<lparr>co_name = cookie_name si, co_value = v, co_max_age = n, co_path = ''/'',
    co_secure = si_secure_cookies si, co_httponly = True, co_samesite = ''lax''\<rparr>"
  "cookie_ok si \<lparr>co_name = browser_cookie si, co_value = v, co_max_age = n, co_path = ''/'',
    co_secure = si_secure_cookies si, co_httponly = True, co_samesite = ''lax''\<rparr>"
  by (simp_all add: cookie_ok_def cookie_name_def browser_cookie_def py_startswith_def)

lemma hardened_simps [simp]:
  "hardened si (no_store (plain_reply n v))"
  "hardened si (private_redirect url)"
  "hardened si (clear_session_cookie si (plain_reply n v))"
  "hardened si (set_session_cookie sec si k (plain_reply n v))"
  "hardened si r \<Longrightarrow> hardened si (add_cookie (browser_cookie si) b k si r)"
  "hardened si r \<Longrightarrow> hardened si (set_session_cookie sec si k r)"
  by (simp_all add: hardened_def reply_header_def map_of_set_header plain_reply_def private_redirect_def
      clear_session_cookie_def set_session_cookie_def add_cookie_def cookie_names)

lemma returns_begin_oidc [returns_rules]: "returns (hardened si) (begin_oidc si pp dr p it ac path)"
  unfolding begin_oidc_def by (intro returns_rules) simp

lemma returns_endpoint: "returns (hardened si) (endpoint si pp dr wr rt)"
  by (cases rt; simp add: register_def verify_def sign_in_def me_def sign_out_def sign_out_all_def reauthenticate_password_def
      request_reset_def confirm_reset_def start_oidc_def link_oidc_def reauthenticate_provider_def callback_oidc_def identities_def
      remove_identity_def get_profile_def put_profile_def addresses_def create_address_def replace_address_def put_address_def
      remove_address_def users_def access_def audits_def Let_def;
      intro returns_rules; simp split: option.split)

section \<open>Sessions behind the routes\<close>

text \<open>The row and the user of the session the cookie of the request names, live at \<open>now\<close>.\<close>

definition signed_in :: "site \<Rightarrow> instant \<Rightarrow> web_request \<Rightarrow> identity_db \<Rightarrow> auth_session \<Rightarrow> user \<Rightarrow> bool" where
  "signed_in si now wr db row x \<longleftrightarrow> row \<in> set (id_sessions db) \<and> x \<in> set (id_users db) \<and> us_id x = as_user_id row \<and>
     map_option (en_sha256 (site_env si)) (hr_cookie wr) = Some (as_secret_hash row) \<and> as_revoked_at row = None \<and>
     now < as_expires_at row \<and> us_is_active x \<and> us_email_verified_at x \<noteq> None"

fun open_route :: "route \<Rightarrow> bool" where
  "open_route (Register e) = True"
| "open_route (Verify i cd p) = True"
| "open_route (Sign_In e p) = True"
| "open_route Sign_Out = True"
| "open_route (Request_Reset e) = True"
| "open_route (Confirm_Reset i cd p) = True"
| "open_route (Start_Oidc p r) = True"
| "open_route (Callback_Oidc p st cd e) = True"
| "open_route _ = False"

fun needs_admin :: "route \<Rightarrow> bool" where
  "needs_admin (Users n s r a e) = True"
| "needs_admin (Access i x) = True"
| "needs_admin (Audits n s q) = True"
| "needs_admin _ = False"

fun needs_recent :: "route \<Rightarrow> bool" where
  "needs_recent (Access i x) = True"
| "needs_recent (Link_Oidc p) = True"
| "needs_recent (Remove_Identity p) = True"
| "needs_recent _ = False"

lemma current_actor_run:
  assumes "id_ok (working s)" "active s" "current_actor si now wr s = (Inr ac, s')"
  shows "same_db s s' \<and> (\<exists>row x. signed_in si now wr (working s) row x \<and> ac_user_id ac = us_id x \<and> ac_session_id ac = as_id row)"
proof -
  from assms(3) have r: "resolve (site_env si) (site_ns si) now (hr_cookie wr) s = (Inr ac, s')"
    by (auto simp: current_actor_def run_simps)
  with resolve_refines [OF assms(1,2), of "site_env si" "site_ns si" now "hr_cookie wr"]
  have "same_db s s'" "resolve_spec (site_env si) now (hr_cookie wr) (working s) = Inr ac" by auto
  then show ?thesis
    by (auto simp: resolve_spec_Inr [OF assms(1)] in_live_rows signed_in_def) (metis)
qed

lemma endpoint_actor:
  assumes "\<not> open_route rt" "endpoint si pp dr wr rt s = (Inr rp, s')"
  shows "\<exists>ac s1. current_actor si (auth_now dr) wr s = (Inr ac, s1)"
  using assms
  by (cases rt) (auto simp: bnd_Inr me_def sign_out_all_def reauthenticate_password_def link_oidc_def reauthenticate_provider_def
      identities_def remove_identity_def get_profile_def put_profile_def addresses_def create_address_def replace_address_def
      put_address_def remove_address_def users_def access_def audits_def)

lemma same_db_in_tx: "same_db s (s\<lparr>in_tx := True\<rparr>)"
  by (simp add: same_db_def)

text \<open>The authorization an administrative or sensitive route went through.\<close>

lemma endpoint_authorized:
  assumes "needs_admin rt \<or> needs_recent rt" "endpoint si pp dr wr rt s = (Inr rp, s')"
  shows "\<exists>ac s1 s2 perm recent x s3. current_actor si (auth_now dr) wr s = (Inr ac, s1) \<and> same_db s1 s2 \<and>
    authorize (dr_clock dr 0) (dr_clock dr 1) ac perm recent s2 = (Inr x, s3) \<and> (needs_admin rt \<longrightarrow> perm \<noteq> Profile_Write) \<and>
    (needs_recent rt \<longrightarrow> recent = Some (st_recent_auth_seconds (site_auth si)))"
proof (cases rt)
  case (Users n m rl act email)
  then show ?thesis using assms by (fastforce simp: users_def list_users_def bnd_Inr lift_r_Inr same_db_def)
next
  case (Access i x)
  then show ?thesis using assms by (fastforce simp: access_def change_access_def bnd_Inr same_db_def)
next
  case (Audits n m aq)
  then show ?thesis using assms by (fastforce simp: audits_def bnd_Inr same_db_def)
next
  case (Link_Oidc p)
  then show ?thesis using assms by (fastforce simp: link_oidc_def bnd_Inr same_db_def)
next
  case (Remove_Identity p)
  then show ?thesis using assms
    by (auto simp: remove_identity_def unlink_def user_identity_def bnd_Inr query_Inr if_Inr throw_Inr)
      (use same_db_in_tx in blast)
qed (use assms in simp_all)

lemma same_db_trans: "same_db s t \<Longrightarrow> same_db t u \<Longrightarrow> same_db s u"
  by (simp add: same_db_def)

lemma granted_to_actor:
  assumes "id_ok (working s)" "active s" "signed_in si now wr (working s) row x"
    and "ac_user_id ac = us_id x" "ac_session_id ac = as_id row"
    and "authorize t1 t2 ac perm recent s = (Inr y, s')"
  shows "(perm \<noteq> Profile_Write \<longrightarrow> role_of (us_role x) = Some Admin) \<and> (\<forall>n. recent = Some n \<longrightarrow> t2 - as_authenticated_at row \<le> secs n)"
proof -
  have "get_row us_id (id_users (working s)) (us_id x) = Some x" "get_row as_id (id_sessions (working s)) (as_id row) = Some row"
    using assms(1,3) unfolding id_ok_def signed_in_def by (blast intro: get_row_unique)+
  then obtain rl where "role_of (us_role x) = Some rl" "perm \<in> permissions rl" "\<forall>n. recent = Some n \<longrightarrow> t2 - as_authenticated_at row \<le> secs n"
    using assms(4-6) by (auto simp: authorize_run [OF assms(2)])
  then show ?thesis by (cases rl) (auto simp: permissions_def)
qed

lemma endpoint_guarded:
  assumes "id_ok (working s)" "active s" "\<not> open_route rt" "endpoint si pp dr wr rt s = (Inr rp, s')"
  shows "\<exists>row x. signed_in si (auth_now dr) wr (working s) row x \<and> (needs_admin rt \<longrightarrow> role_of (us_role x) = Some Admin) \<and>
    (needs_recent rt \<longrightarrow> dr_clock dr 1 - as_authenticated_at row \<le> secs (st_recent_auth_seconds (site_auth si)))"
proof (cases "needs_admin rt \<or> needs_recent rt")
  case False
  then show ?thesis using endpoint_actor [OF assms(3,4)] current_actor_run [OF assms(1,2)] by blast
next
  case True
  from endpoint_authorized [OF True assms(4)] obtain ac s1 s2 perm recent y s3
    where a: "current_actor si (auth_now dr) wr s = (Inr ac, s1)" "same_db s1 s2"
      "authorize (dr_clock dr 0) (dr_clock dr 1) ac perm recent s2 = (Inr y, s3)" "needs_admin rt \<longrightarrow> perm \<noteq> Profile_Write"
      "needs_recent rt \<longrightarrow> recent = Some (st_recent_auth_seconds (site_auth si))" by blast
  from current_actor_run [OF assms(1,2) a(1)] obtain row x where b: "same_db s s1" "signed_in si (auth_now dr) wr (working s) row x"
    "ac_user_id ac = us_id x" "ac_session_id ac = as_id row" by blast
  have s2: "working s2 = working s" "active s2" using same_db_trans [OF b(1) a(2)] assms(2) by (simp_all add: same_db_def)
  have "(perm \<noteq> Profile_Write \<longrightarrow> role_of (us_role x) = Some Admin) \<and>
      (\<forall>n. recent = Some n \<longrightarrow> dr_clock dr 1 - as_authenticated_at row \<le> secs n)"
    by (rule granted_to_actor [OF _ s2(2) _ b(3,4) a(3)]) (use assms(1) b(2) s2(1) in simp_all)
  then show ?thesis using a(4,5) b(2) by blast
qed

lemma serve_runs:
  assumes "serve si pp dr ld wr rt (db, w, l) = (Inr rp, db', w', l')"
  shows "\<exists>w1. run_tx (endpoint si pp dr wr rt) db w1 = (Inr rp, db', w')"
  using assms
  by (auto simp: serve_def run_endpoint_def split: guard.splits prod.splits sum.splits dest: unc_run_tx [OF unc_current_actor])

lemma serve_hardened:
  assumes "fst (serve si pp dr ld wr rt s) = Inr rp"
  shows "hardened si rp"
proof -
  obtain db w l db' w' l' where "s = (db, w, l)" "serve si pp dr ld wr rt (db, w, l) = (Inr rp, db', w', l')"
    using assms by (metis prod_cases3 fst_conv surj_pair)
  from serve_runs [OF this(2)] returns_run_tx [OF returns_endpoint] show ?thesis by blast
qed

section \<open>Concrete values\<close>

definition demo_site :: site where
  "demo_site = \<lparr>si_deployment = demo_deployment\<lparr>dp_auth := (dp_auth demo_deployment)\<lparr>st_allowed_origins := [''https://shop.example'']\<rparr>\<rparr>,
      si_secure_cookies = True, si_api_prefix = ''/api/v1'', si_secret_key = ''k'',
     si_profile_limits = \<lparr>pl_profile_update_limit = 20, pl_address_mutation_limit = 60, pl_window_seconds = 300\<rparr>, si_trim = (\<lambda>s. s)\<rparr>"

definition demo_port :: provider_port where
  "demo_port = \<lparr>pp_authorization_url = (\<lambda>p s a. Inr ''https://idp''), pp_exchange = (\<lambda>p c a. Inl (app_error ExternalLoginFailedError)),
     pp_dump = (\<lambda>a. []), pp_load = (\<lambda>s. None)\<rparr>"

definition demo_draws :: draws where
  "demo_draws = \<lparr>dr_clock = (\<lambda>n. 50), dr_ids = demo_ids, dr_secret = [],
     dr_session_id = 16, dr_state = [], dr_browser = [], dr_nonce = [], dr_verifier = [], dr_attempt_id = 17, dr_epoch = 0\<rparr>"

definition demo_limit_draws :: limit_draws where
  "demo_limit_draws = \<lparr>ld_now = 0, ld_member1 = ''a'', ld_member2 = ''b'', ld_parse = (\<lambda>s. None), ld_template = []\<rparr>"

definition demo_limiter :: limiter where "demo_limiter = \<lparr>lm_up = True, lm_sets = (\<lambda>k. [])\<rparr>"

definition demo_web :: "string \<Rightarrow> string \<Rightarrow> web_request" where
  "demo_web m path = \<lparr>hr_method = m, hr_path = path, hr_origin = Some ''https://evil.example'', hr_client = None, hr_body = [],
     hr_cookie = Some (replicate 43 CHR ''x''), wr_browser = None, wr_request_id = ''r''\<rparr>"

section \<open>Properties\<close>

text \<open>
  C3: requests of other sites change nothing. Whatever cookies the browser attaches, a request whose
  \<open>Origin\<close> is missing or not configured, on any route but the provider's redirect back, leaves the
  committed database as it is; if its method is not a safe one, it is refused as an untrusted origin
  before Redis or the limits are touched.
\<close>

theorem cross_site_harmless:
  assumes "foreign si wr" "hr_method wr = route_method rt" "\<not> callback_route rt"
    and "serve si pp dr ld wr rt (db, w, l) = (r, db', w', l')"
  shows "db' = db \<and> (\<not> safe_method (hr_method wr) \<longrightarrow> r = Inl (app_error UntrustedOriginError) \<and> w' = w \<and> l' = l)"
  using foreign_change [OF assms(1), of rt pp dr ld db w l] get_unchanged [OF _ assms(3,4)] assms(2,4)
  by (cases "safe_method (route_method rt)") simp_all

theorem cross_site_harmless_witness:
  "serve demo_site demo_port demo_draws demo_limit_draws (demo_web ''POST'' ''/api/v1/auth/logout-all'') Sign_Out_All
     (demo_db, demo_cache, demo_limiter) = (Inl (app_error UntrustedOriginError), demo_db, demo_cache, demo_limiter)"
proof -
  let ?wr = "demo_web ''POST'' ''/api/v1/auth/logout-all''"
  obtain r db' w' l' where s: "serve demo_site demo_port demo_draws demo_limit_draws ?wr Sign_Out_All (demo_db, demo_cache, demo_limiter) =
    (r, db', w', l')" by (metis prod_cases4)
  have "foreign demo_site ?wr" by (simp add: foreign_def demo_web_def demo_site_def demo_deployment_def)
  from cross_site_harmless [OF this _ _ s] show ?thesis using s by (simp add: demo_web_def safe_method_def)
qed


lemma demo_sign_out:
  "case fst (serve demo_site demo_port demo_draws demo_limit_draws ((demo_web ''POST'' ''/api/v1/auth/logout'')\<lparr>hr_origin := Some ''https://shop.example''\<rparr>)
     Sign_Out (demo_db, demo_cache, demo_limiter)) of Inl e \<Rightarrow> False | Inr rp \<Rightarrow> rp_status rp = 204 \<and> map co_value (rp_cookies rp) = [[]]"
  by code_simp


text \<open>
  C4: behind every protected reply there is a live session, and behind every administrative one an
  administrator's. If a route that is not one of the public ones answers, the cookie of the request is
  the secret of a stored session, neither revoked nor expired, of an active, verified user; on the
  administrative routes that user is an administrator; and to change access, to link or to remove an
  external login, the session was authenticated within the configured time.
\<close>

theorem protected_routes_guarded:
  assumes "id_ok db" "\<not> open_route rt" "serve si pp dr ld wr rt (db, w, l) = (Inr rp, db', w', l')"
  shows "\<exists>row x. row \<in> set (id_sessions db) \<and> x \<in> set (id_users db) \<and> us_id x = as_user_id row \<and>
    map_option (en_sha256 (site_env si)) (hr_cookie wr) = Some (as_secret_hash row) \<and> as_revoked_at row = None \<and>
    auth_now dr < as_expires_at row \<and> us_is_active x \<and> us_email_verified_at x \<noteq> None \<and>
    (needs_admin rt \<longrightarrow> role_of (us_role x) = Some Admin) \<and>
    (needs_recent rt \<longrightarrow> dr_clock dr 1 - as_authenticated_at row \<le> secs (st_recent_auth_seconds (site_auth si)))"
proof -
  from serve_runs [OF assms(3)] obtain w1 s' where "endpoint si pp dr wr rt (started db w1) = (Inr rp, s')"
    by (auto simp: run_tx_eq)
  from endpoint_guarded [OF _ _ assms(2) this] show ?thesis using assms(1) unfolding signed_in_def by simp
qed

lemma demo_access:
  "isl (fst (serve demo_site demo_port demo_draws demo_limit_draws
     ((demo_web ''PATCH'' ''/api/v1/admin/users/1/access'')\<lparr>hr_origin := Some ''https://shop.example''\<rparr>)
     (Access 1 \<lparr>xi_role = Some Admin, xi_is_active = None\<rparr>) (demo_db, demo_cache, demo_limiter))) = False"
  by code_simp

theorem protected_routes_guarded_witness:
  "isl (fst (serve demo_site demo_port demo_draws demo_limit_draws
     ((demo_web ''PATCH'' ''/api/v1/admin/users/1/access'')\<lparr>hr_origin := Some ''https://shop.example''\<rparr>)
     (Access 1 \<lparr>xi_role = Some Admin, xi_is_active = None\<rparr>) (demo_db, demo_cache, demo_limiter))) = False \<and>
   list_ex (\<lambda>row. as_user_id row = 1 \<and> as_revoked_at row = None \<and> 50 < as_expires_at row) (id_sessions demo_db)"
proof -
  let ?wr = "(demo_web ''PATCH'' ''/api/v1/admin/users/1/access'')\<lparr>hr_origin := Some ''https://shop.example''\<rparr>"
  let ?rt = "Access 1 \<lparr>xi_role = Some Admin, xi_is_active = None\<rparr>"
  obtain r db' w' l' where s: "serve demo_site demo_port demo_draws demo_limit_draws ?wr ?rt (demo_db, demo_cache, demo_limiter) = (r, db', w', l')"
    by (metis prod_cases4)
  with demo_access obtain rp where r: "r = Inr rp" by (cases r) auto
  have "\<not> open_route ?rt" by simp
  from protected_routes_guarded [OF demo_db_ok this s [unfolded r]] demo_access show ?thesis
    by (auto simp: list_ex_iff demo_db_def empty_db_def demo_draws_def demo_session_def)
qed

end
