(* ===== verification/Oidc_Provider.thy ===== *)
theory Oidc_Provider
  imports Oidc
begin

text \<open>
  The adapter of an external identity provider: \<open>auth/oidc/providers.py\<close>, with the parts of \<open>urllib.parse\<close>
  and \<open>base64\<close> it uses.

  The network, the JSON reader, the JOSE library and the hash are the fields of \<open>network\<close>. An adapter
  keeps its cache of documents; \<open>pv_contacted\<close> is the list of the addresses it has sent requests to.
  \<open>time.time()\<close> and \<open>time.monotonic()\<close> are microseconds here, and sums of times are exact.
\<close>

section \<open>Splitting URLs\<close>

record split_url =
  sp_scheme :: string
  sp_username :: "string option"
  sp_password :: "string option"
  sp_hostname :: "string option"
  sp_port :: "string option"
  sp_fragment :: string

definition clean_url :: "string \<Rightarrow> string" where
  "clean_url s = filter (\<lambda>c. ord c \<notin> {9, 10, 13}) (dropWhile (\<lambda>c. ord c \<le> 32) s)"

definition ascii_alpha :: "char \<Rightarrow> bool" where
  "ascii_alpha c \<longleftrightarrow> (65 \<le> ord c \<and> ord c \<le> 90) \<or> (97 \<le> ord c \<and> ord c \<le> 122)"

definition ascii_digit :: "char \<Rightarrow> bool" where
  "ascii_digit c \<longleftrightarrow> 48 \<le> ord c \<and> ord c \<le> 57"

definition scheme_char :: "char \<Rightarrow> bool" where
  "scheme_char c \<longleftrightarrow> ascii_alpha c \<or> ascii_digit c \<or> c \<in> set ''+-.''"

definition split_scheme :: "string \<Rightarrow> string \<times> string" where
  "split_scheme s = (case py_partition CHR '':'' s of
     (pre, Some rest) \<Rightarrow> if pre \<noteq> [] \<and> ascii_alpha (hd pre) \<and> list_all scheme_char pre then (map ascii_lower pre, rest) else ([], s)
   | (pre, None) \<Rightarrow> ([], s))"

definition split_netloc :: "string \<Rightarrow> string \<times> string" where
  "split_netloc s = (if py_startswith s ''//''
     then (takeWhile (\<lambda>c. c \<notin> set ''/?#'') (drop 2 s), dropWhile (\<lambda>c. c \<notin> set ''/?#'') (drop 2 s)) else ([], s))"

text \<open>\<open>netloc.rpartition('@')\<close>: the text before the last \<open>@\<close>, if there is one, and the text after it.\<close>

definition split_userinfo :: "string \<Rightarrow> string option \<times> string" where
  "split_userinfo n = (if CHR ''@'' \<in> set n
     then (Some (rev (tl (dropWhile (\<lambda>c. c \<noteq> CHR ''@'') (rev n)))), rev (takeWhile (\<lambda>c. c \<noteq> CHR ''@'') (rev n))) else (None, n))"

definition lower_host :: "string \<Rightarrow> string" where
  "lower_host h = map ascii_lower (takeWhile (\<lambda>c. c \<noteq> CHR ''%'') h) @ dropWhile (\<lambda>c. c \<noteq> CHR ''%'') h"

text \<open>
  A network location with brackets or outside ASCII is refused at once; \<open>urlsplit\<close> refuses some of them
  and reads the others as an IP literal or with such a user, which \<open>safe_url\<close> refuses in the same way.
\<close>

definition py_urlsplit :: "string \<Rightarrow> exn + split_url" where
  "py_urlsplit s =
     (case split_scheme (clean_url s) of (scheme, s1) \<Rightarrow> (case split_netloc s1 of (netloc, s2) \<Rightarrow>
      if list_ex (\<lambda>c. c \<in> set ''[]'' \<or> \<not> is_ascii c) netloc then Inl (ValueError ''Invalid IPv6 URL'')
      else (case split_userinfo netloc of (userinfo, hostinfo) \<Rightarrow> (case py_partition CHR '':'' hostinfo of (host, port) \<Rightarrow>
        Inr \<lparr>sp_scheme = scheme, sp_username = map_option (\<lambda>i. fst (py_partition CHR '':'' i)) userinfo,
          sp_password = (case userinfo of None \<Rightarrow> None | Some i \<Rightarrow> snd (py_partition CHR '':'' i)),
          sp_hostname = (if host = [] then None else Some (lower_host host)),
          sp_port = (if port = Some [] then None else port),
          sp_fragment = (case py_partition CHR ''#'' s2 of (_, Some f) \<Rightarrow> f | _ \<Rightarrow> [])\<rparr>))))"

definition split_port :: "split_url \<Rightarrow> exn + nat option" where
  "split_port u = (case sp_port u of None \<Rightarrow> Inr None
   | Some d \<Rightarrow> if list_all ascii_digit d \<and> digits_value d \<le> 65535 then Inr (Some (digits_value d))
       else Inl (ValueError ''Port out of range 0-65535''))"

section \<open>Pinned endpoints\<close>

definition issuer :: "provider_name \<Rightarrow> string" where
  "issuer p = (case p of Google \<Rightarrow> ''https://accounts.google.com'' | Yahoo \<Rightarrow> ''https://api.login.yahoo.com'')"

definition allowed_hosts :: "provider_name \<Rightarrow> string list" where
  "allowed_hosts p = (case p of Google \<Rightarrow> [''accounts.google.com'', ''oauth2.googleapis.com'', ''www.googleapis.com'']
     | Yahoo \<Rightarrow> [''api.login.yahoo.com''])"

definition document_limit :: int where "document_limit = 262144"
definition token_response_limit :: int where "token_response_limit = 65536"
definition id_token_limit :: int where "id_token_limit = 32768"

definition safe_url :: "provider_name \<Rightarrow> pyval \<Rightarrow> exn + string" where
  "safe_url p v = (case v of
     VStr s \<Rightarrow> bind_r (py_urlsplit s) (\<lambda>u.
       if sp_scheme u \<noteq> ''https'' \<or> sp_hostname u \<notin> Some ` set (allowed_hosts p) \<or> truthy (sp_username u) \<or>
          truthy (sp_password u) \<or> sp_fragment u \<noteq> []
       then Inl (ValueError ''untrusted provider endpoint'')
       else bind_r (split_port u) (\<lambda>port.
         if port \<in> {None, Some 443} then Inr s else Inl (ValueError ''untrusted provider endpoint'')))
   | _ \<Rightarrow> Inl (ValueError ''missing provider endpoint''))"

section \<open>The adapter\<close>

datatype wire_error = HTTPError | JoseError | Py_Raised exn

record registry =
  rg_leeway :: int
  rg_iss :: string
  rg_aud :: string
  rg_nonce :: string

type_synonym claims = "(string \<times> pyval) list"
type_synonym json_object = "(pyval \<times> pyval) list"

text \<open>
  \<open>nt_get\<close> is a GET that does not follow redirects, with \<open>raise_for_status\<close>: the parts of the body;
  \<open>nt_post\<close> the same for a form with basic authentication; \<open>nt_decode\<close> imports a key set and decodes a
  token signed with RS256; \<open>nt_registry\<close> is \<open>JWTClaimsRegistry(...).validate\<close> with the claims \<open>iss\<close>, \<open>aud\<close>,
  \<open>exp\<close>, \<open>iat\<close>, \<open>sub\<close> and \<open>nonce\<close> essential.
\<close>

record network =
  nt_get :: "string \<Rightarrow> wire_error + string list"
  nt_post :: "string \<Rightarrow> string \<times> string \<Rightarrow> (string \<times> string) list \<Rightarrow> wire_error + string"
  nt_loads :: "string \<Rightarrow> wire_error + pyval"
  nt_decode :: "json_object \<Rightarrow> string \<Rightarrow> wire_error + claims"
  nt_registry :: "registry \<Rightarrow> claims \<Rightarrow> wire_error + unit"
  nt_digest :: "string \<Rightarrow> nat list"
  nt_monotonic :: "nat \<Rightarrow> instant"
  nt_time :: "nat \<Rightarrow> instant"

record adapter =
  pv_cache :: "string \<rightharpoonup> instant \<times> json_object"
  pv_contacted :: "string list"

definition new_adapter :: adapter where
  "new_adapter = \<lparr>pv_cache = Map.empty, pv_contacted = []\<rparr>"

type_synonym 'a wire = "adapter \<Rightarrow> (wire_error + 'a) \<times> adapter"

definition wret :: "wire_error + 'a \<Rightarrow> 'a wire" where
  "wret r s = (r, s)"

definition wbnd :: "'a wire \<Rightarrow> ('a \<Rightarrow> 'b wire) \<Rightarrow> 'b wire" where
  "wbnd p f s = (case p s of (Inl e, s') \<Rightarrow> (Inl e, s') | (Inr x, s') \<Rightarrow> f x s')"

definition contact :: "string \<Rightarrow> wire_error + 'a \<Rightarrow> 'a wire" where
  "contact url r s = (r, s\<lparr>pv_contacted := pv_contacted s @ [url]\<rparr>)"

definition checked :: "exn + 'a \<Rightarrow> wire_error + 'a" where
  "checked r = (case r of Inl e \<Rightarrow> Inl (Py_Raised e) | Inr x \<Rightarrow> Inr x)"

abbreviation bad_value :: "string \<Rightarrow> wire_error + 'a" where
  "bad_value m \<equiv> Inl (Py_Raised (ValueError m))"

fun stream_body :: "string \<Rightarrow> string list \<Rightarrow> wire_error + string" where
  "stream_body body [] = Inr body"
| "stream_body body (part # parts) =
     (if document_limit < int (length (body @ part)) then bad_value ''provider document too large'' else stream_body (body @ part) parts)"

definition is_str :: "pyval \<Rightarrow> bool" where
  "is_str v = (case v of VStr _ \<Rightarrow> True | _ \<Rightarrow> False)"

definition string_keyed :: "pyval \<Rightarrow> wire_error + json_object" where
  "string_keyed v = (case v of VDict d \<Rightarrow> if list_all (\<lambda>(k, x). is_str k) d then Inr d else bad_value ''invalid provider document''
   | _ \<Rightarrow> bad_value ''invalid provider document'')"

definition fetched :: "network \<Rightarrow> string \<Rightarrow> wire_error + json_object" where
  "fetched nt url = bind_r (nt_get nt url) (\<lambda>parts. bind_r (stream_body [] parts) (\<lambda>body.
     bind_r (nt_loads nt body) string_keyed))"

text \<open>The lock makes the calls of one adapter take turns; \<open>k\<close> numbers the readings of the clock.\<close>

definition document :: "network \<Rightarrow> nat \<Rightarrow> provider_name \<Rightarrow> string \<Rightarrow> json_object wire" where
  "document nt k p url =
     wbnd (wret (checked (safe_url p (VStr url)))) (\<lambda>_ s.
       case pv_cache s url of
         Some (until, d) \<Rightarrow> if nt_monotonic nt k < until then (Inr d, s)
           else wbnd (contact url (fetched nt url)) (\<lambda>d s. (Inr d, s\<lparr>pv_cache := (pv_cache s)(url \<mapsto> (nt_monotonic nt (Suc k) + secs 300, d))\<rparr>)) s
       | None \<Rightarrow> wbnd (contact url (fetched nt url)) (\<lambda>d s. (Inr d, s\<lparr>pv_cache := (pv_cache s)(url \<mapsto> (nt_monotonic nt (Suc k) + secs 300, d))\<rparr>)) s)"

definition get_member :: "json_object \<Rightarrow> string \<Rightarrow> pyval" where
  "get_member d k = (case map_of d (VStr k) of None \<Rightarrow> VNone | Some v \<Rightarrow> v)"

definition s256_established :: "provider_config \<Rightarrow> json_object \<Rightarrow> bool" where
  "s256_established cf d = (case map_of d (VStr ''code_challenge_methods_supported'') of
     None \<Rightarrow> cf_pkce_verified cf
   | Some (VList ms) \<Rightarrow> list_all is_str ms \<and> (VStr ''S256'' \<in> set ms \<or> cf_pkce_verified cf)
   | Some _ \<Rightarrow> False)"

definition metadata :: "network \<Rightarrow> provider_config \<Rightarrow> provider_name \<Rightarrow> json_object wire" where
  "metadata nt cf p =
     wbnd (document nt 0 p (issuer p @ ''/.well-known/openid-configuration'')) (\<lambda>d. wret
       (if get_member d ''issuer'' \<noteq> VStr (issuer p) then bad_value ''issuer mismatch''
        else if \<not> s256_established cf d then bad_value ''S256 support is not established''
        else Inr d))"

text \<open>The exceptions the adapter hides; the others leave it as they are.\<close>

definition hidden :: "wire_error \<Rightarrow> bool" where
  "hidden e = (case e of HTTPError \<Rightarrow> True | JoseError \<Rightarrow> True
   | Py_Raised UnicodeError \<Rightarrow> True | Py_Raised (ValueError m) \<Rightarrow> True | Py_Raised (KeyError m) \<Rightarrow> True | Py_Raised (TypeError m) \<Rightarrow> True
   | Py_Raised _ \<Rightarrow> False)"

definition failing_closed :: "'a wire \<Rightarrow> adapter \<Rightarrow> (exn + 'a) \<times> adapter" where
  "failing_closed p s = (case p s of
     (Inr x, s') \<Rightarrow> (Inr x, s')
   | (Inl e, s') \<Rightarrow> (Inl (if hidden e then app_error ExternalLoginFailedError else (case e of Py_Raised x \<Rightarrow> x | _ \<Rightarrow> app_error ExternalLoginFailedError)), s'))"

section \<open>The authorization URL\<close>

definition b64_alphabet :: string where
  "b64_alphabet = ''ABCDEFGHIJKLMNOPQRSTUVWXYZabcdefghijklmnopqrstuvwxyz0123456789-_''"

text \<open>\<open>urlsafe_b64encode\<close> without the padding.\<close>

fun b64url :: "nat list \<Rightarrow> string" where
  "b64url [] = []"
| "b64url [a] = map (\<lambda>i. b64_alphabet ! i) [a div 4, (a mod 4) * 16]"
| "b64url [a, b] = map (\<lambda>i. b64_alphabet ! i) [a div 4, (a mod 4) * 16 + b div 16, (b mod 16) * 4]"
| "b64url (a # b # c # bs) =
     map (\<lambda>i. b64_alphabet ! i) [a div 4, (a mod 4) * 16 + b div 16, (b mod 16) * 4 + c div 64, c mod 64] @ b64url bs"

definition challenge :: "network \<Rightarrow> string \<Rightarrow> wire_error + string" where
  "challenge nt verifier = (if list_all is_ascii verifier then Inr (b64url (nt_digest nt verifier)) else Inl (Py_Raised UnicodeError))"

definition utf8 :: "char \<Rightarrow> nat list" where
  "utf8 c = (if is_ascii c then [ord c] else [192 + ord c div 64, 128 + ord c mod 64])"

definition hex_digit :: "nat \<Rightarrow> char" where
  "hex_digit n = ''0123456789ABCDEF'' ! n"

definition quote_byte :: "nat \<Rightarrow> string" where
  "quote_byte b = (let c = char_of b in
     if ascii_alpha c \<or> ascii_digit c \<or> c \<in> set ''_.-~'' then [c] else if b = 32 then ''+'' else [CHR ''%'', hex_digit (b div 16), hex_digit (b mod 16)])"

definition quote_plus :: "string \<Rightarrow> string" where
  "quote_plus s = concat (map quote_byte (concat (map utf8 s)))"

definition urlencode :: "(string \<times> string) list \<Rightarrow> string" where
  "urlencode ps = py_join ''&'' (map (\<lambda>(k, v). quote_plus k @ ''='' @ quote_plus v) ps)"

definition authorization_params :: "provider_config \<Rightarrow> string \<Rightarrow> attempt \<Rightarrow> string \<Rightarrow> (string \<times> string) list" where
  "authorization_params cf state a ch =
     [(''client_id'', cf_client_id cf), (''redirect_uri'', at_redirect_uri a), (''response_type'', ''code''), (''scope'', ''openid email profile''),
      (''state'', state), (''nonce'', at_nonce a), (''code_challenge_method'', ''S256''), (''code_challenge'', ch)] @
     (if at_intent a = Reauthenticate then [(''max_age'', ''0'')] else [])"

definition authorization_url ::
  "network \<Rightarrow> provider_config \<Rightarrow> provider_name \<Rightarrow> string \<Rightarrow> attempt \<Rightarrow> adapter \<Rightarrow> (exn + string) \<times> adapter" where
  "authorization_url nt cf p state a = failing_closed
     (wbnd (metadata nt cf p) (\<lambda>md.
      wbnd (wret (challenge nt (at_verifier a))) (\<lambda>ch.
      wret (bind_r (checked (safe_url p (get_member md ''authorization_endpoint''))) (\<lambda>url.
        Inr (url @ ''?'' @ urlencode (authorization_params cf state a ch)))))))"

section \<open>The exchange\<close>

text \<open>A JSON number, in seconds, against an instant.\<close>

definition seconds_after :: "pyval \<Rightarrow> instant \<Rightarrow> bool" where
  "seconds_after v t = (case v of
     VInt n \<Rightarrow> t < secs n
   | VFloat (Finite m e) \<Rightarrow> (if 0 \<le> e then t < secs (m * 2 ^ nat e) else t * 2 ^ nat (- e) < secs m)
   | VFloat (Infinite pos) \<Rightarrow> pos
   | _ \<Rightarrow> False)"

definition seconds_before :: "pyval \<Rightarrow> instant \<Rightarrow> bool" where
  "seconds_before v t = (case v of
     VInt n \<Rightarrow> secs n < t
   | VFloat (Finite m e) \<Rightarrow> (if 0 \<le> e then secs (m * 2 ^ nat e) < t else secs m < t * 2 ^ nat (- e))
   | VFloat (Infinite pos) \<Rightarrow> \<not> pos
   | _ \<Rightarrow> False)"

definition is_number :: "pyval \<Rightarrow> bool" where
  "is_number v = (case v of VInt _ \<Rightarrow> True | VFloat _ \<Rightarrow> True | _ \<Rightarrow> False)"

definition is_int :: "pyval \<Rightarrow> bool" where
  "is_int v = (case v of VInt _ \<Rightarrow> True | _ \<Rightarrow> False)"

definition get_claim :: "claims \<Rightarrow> string \<Rightarrow> pyval" where
  "get_claim cl k = (case map_of cl k of None \<Rightarrow> VNone | Some v \<Rightarrow> v)"

definition need_claim :: "claims \<Rightarrow> string \<Rightarrow> wire_error + pyval" where
  "need_claim cl k = (case map_of cl k of None \<Rightarrow> Inl (Py_Raised (KeyError k)) | Some v \<Rightarrow> Inr v)"

definition audiences_ok :: "pyval \<Rightarrow> bool" where
  "audiences_ok v = (case v of VStr _ \<Rightarrow> True | VList xs \<Rightarrow> list_all is_str xs | _ \<Rightarrow> False)"

definition several :: "pyval \<Rightarrow> bool" where
  "several v = (case v of VList xs \<Rightarrow> 1 < length xs | _ \<Rightarrow> False)"

definition subject_of :: "pyval \<Rightarrow> string option" where
  "subject_of v = (case v of VStr s \<Rightarrow> if 1 \<le> length s \<and> length s \<le> 255 then Some s else None | _ \<Rightarrow> None)"

definition stale_authentication :: "attempt \<Rightarrow> instant \<Rightarrow> pyval \<Rightarrow> bool" where
  "stale_authentication a now v \<longleftrightarrow> \<not> is_int v \<or> seconds_before v (secs (at_started_at a - 30)) \<or> seconds_after v (now + secs 30)"

definition read_claims :: "network \<Rightarrow> provider_config \<Rightarrow> provider_name \<Rightarrow> attempt \<Rightarrow> claims \<Rightarrow> wire_error + verified_identity" where
  "read_claims nt cf p a cl =
     bind_r (need_claim cl ''aud'') (\<lambda>aud.
     if \<not> audiences_ok aud then bad_value ''invalid audience''
     else if (several aud \<or> map_of cl ''azp'' \<noteq> None) \<and> get_claim cl ''azp'' \<noteq> VStr (cf_client_id cf) then bad_value ''authorized party mismatch''
     else bind_r (need_claim cl ''iat'') (\<lambda>issued.
     if \<not> is_number issued \<or> seconds_after issued (nt_time nt 0 + secs 30) \<or> seconds_before issued (secs (at_started_at a - 60))
     then bad_value ''issued-at outside this handshake''
     else bind_r (need_claim cl ''sub'') (\<lambda>sub. case subject_of sub of
       None \<Rightarrow> bad_value ''invalid subject''
     | Some subject \<Rightarrow>
         let auth_time = get_claim cl ''auth_time'' in
         if at_intent a = Reauthenticate \<and> stale_authentication a (nt_time nt 1) auth_time
         then bad_value ''fresh provider authentication was not established''
         else Inr \<lparr>vi_provider = p, vi_subject = subject,
           vi_email = (case get_claim cl ''email'' of VStr e \<Rightarrow> Some e | _ \<Rightarrow> None),
           vi_email_verified = (get_claim cl ''email_verified'' = VBool True),
           vi_auth_time = (case auth_time of VInt n \<Rightarrow> Some n | _ \<Rightarrow> None)\<rparr>)))"

definition token_form :: "string \<Rightarrow> attempt \<Rightarrow> (string \<times> string) list" where
  "token_form cd a = [(''grant_type'', ''authorization_code''), (''code'', cd), (''redirect_uri'', at_redirect_uri a), (''code_verifier'', at_verifier a)]"

definition id_token :: "network \<Rightarrow> string \<Rightarrow> wire_error + string" where
  "id_token nt content =
     (if token_response_limit < int (length content) then bad_value ''token response too large''
      else bind_r (nt_loads nt content) (\<lambda>v. case v of
        VDict d \<Rightarrow> (case get_member d ''id_token'' of
            VStr t \<Rightarrow> if id_token_limit < int (length t) then bad_value ''missing ID token'' else Inr t
          | _ \<Rightarrow> bad_value ''missing ID token'')
      | _ \<Rightarrow> bad_value ''invalid token response''))"

definition expected_claims :: "provider_config \<Rightarrow> provider_name \<Rightarrow> attempt \<Rightarrow> registry" where
  "expected_claims cf p a = \<lparr>rg_leeway = 30, rg_iss = issuer p, rg_aud = cf_client_id cf, rg_nonce = at_nonce a\<rparr>"

definition exchange ::
  "network \<Rightarrow> provider_config \<Rightarrow> provider_name \<Rightarrow> string \<Rightarrow> attempt \<Rightarrow> adapter \<Rightarrow> (exn + verified_identity) \<times> adapter" where
  "exchange nt cf p cd a = failing_closed
     (wbnd (metadata nt cf p) (\<lambda>md.
      wbnd (wret (checked (safe_url p (get_member md ''token_endpoint'')))) (\<lambda>token_url.
      wbnd (contact token_url (nt_post nt token_url (cf_client_id cf, cf_client_secret cf) (token_form cd a))) (\<lambda>content.
      wbnd (wret (id_token nt content)) (\<lambda>encoded.
      wbnd (wret (checked (safe_url p (get_member md ''jwks_uri'')))) (\<lambda>jwks_url.
      wbnd (document nt 2 p jwks_url) (\<lambda>keys.
      wret (bind_r (nt_decode nt keys encoded) (\<lambda>cl.
        bind_r (nt_registry nt (expected_claims cf p a) cl) (\<lambda>_.
        read_claims nt cf p a cl))))))))))"

section \<open>Facts\<close>

lemma safe_url_Inr:
  "safe_url p v = Inr u \<longleftrightarrow> v = VStr u \<and> (\<exists>sp. py_urlsplit u = Inr sp \<and> sp_scheme sp = ''https'' \<and>
     sp_hostname sp \<in> Some ` set (allowed_hosts p) \<and> \<not> truthy (sp_username sp) \<and> \<not> truthy (sp_password sp) \<and>
     sp_fragment sp = [] \<and> (split_port sp = Inr None \<or> split_port sp = Inr (Some 443)))"
  by (cases v) (auto simp: safe_url_def bind_r_eq_Inr)

text \<open>An address on a pinned host.\<close>

definition pinned :: "provider_name \<Rightarrow> string \<Rightarrow> bool" where
  "pinned p u \<longleftrightarrow> safe_url p (VStr u) = Inr u"

lemma safe_url_pinned: "safe_url p v = Inr u \<Longrightarrow> v = VStr u \<and> pinned p u"
  by (auto simp: pinned_def safe_url_Inr)

named_theorems wire_simps \<open>inversion of runs of an adapter that return a value\<close>

lemma wret_Inr [wire_simps]: "wret r s = (Inr x, s') \<longleftrightarrow> r = Inr x \<and> s' = s"
  by (auto simp: wret_def)

lemma wbnd_Inr [wire_simps]: "wbnd f g s = (Inr y, s') \<longleftrightarrow> (\<exists>x s1. f s = (Inr x, s1) \<and> g x s1 = (Inr y, s'))"
  by (auto simp: wbnd_def split: prod.splits sum.splits)

lemma contact_Inr [wire_simps]: "contact u r s = (Inr x, s') \<longleftrightarrow> r = Inr x \<and> s' = s\<lparr>pv_contacted := pv_contacted s @ [u]\<rparr>"
  by (auto simp: contact_def)

lemma checked_Inr [wire_simps]: "checked r = Inr x \<longleftrightarrow> r = Inr x"
  by (auto simp: checked_def split: sum.splits)

lemma failing_closed_Inr [wire_simps]: "failing_closed f s = (Inr x, s') \<longleftrightarrow> f s = (Inr x, s')"
  by (auto simp: failing_closed_def split: prod.splits sum.splits)

text \<open>Every cached document is what its address serves.\<close>

definition cache_ok :: "network \<Rightarrow> adapter \<Rightarrow> bool" where
  "cache_ok nt s \<longleftrightarrow> (\<forall>url t d. pv_cache s url = Some (t, d) \<longrightarrow> fetched nt url = Inr d)"

lemma document_Inr:
  assumes "document nt k p url s = (Inr d, s')" "cache_ok nt s"
  shows "pinned p url \<and> fetched nt url = Inr d \<and> cache_ok nt s'"
proof -
  have "pinned p url" using assms(1) by (auto simp: document_def wire_simps dest: safe_url_pinned)
  moreover have "fetched nt url = Inr d \<and> cache_ok nt s'"
    using assms by (auto simp: document_def wire_simps cache_ok_def split: option.splits if_splits)
  ultimately show ?thesis by simp
qed

lemma metadata_Inr:
  assumes "metadata nt cf p s = (Inr md, s')" "cache_ok nt s"
  shows "fetched nt (issuer p @ ''/.well-known/openid-configuration'') = Inr md \<and> get_member md ''issuer'' = VStr (issuer p) \<and>
    s256_established cf md \<and> cache_ok nt s'"
  using assms by (auto simp: metadata_def wire_simps split: if_splits dest: document_Inr)

lemma cache_ok_new [simp]: "cache_ok nt new_adapter"
  by (simp add: cache_ok_def new_adapter_def)

lemma cache_ok_contacted [simp]: "cache_ok nt (s\<lparr>pv_contacted := us\<rparr>) = cache_ok nt s"
  by (simp add: cache_ok_def)

section \<open>Whom an adapter contacts\<close>

named_theorems contacts_rules \<open>introduction rules for contacts_only\<close>

definition contacts_only :: "provider_name \<Rightarrow> 'a wire \<Rightarrow> bool" where
  "contacts_only p f \<longleftrightarrow> (\<forall>s. list_all (pinned p) (pv_contacted s) \<longrightarrow> list_all (pinned p) (pv_contacted (snd (f s))))"

lemma contacts_wret [contacts_rules]: "contacts_only p (wret r)"
  by (simp add: contacts_only_def wret_def)

lemma contacts_wbnd [contacts_rules]: "contacts_only p f \<Longrightarrow> (\<And>x. contacts_only p (g x)) \<Longrightarrow> contacts_only p (wbnd f g)"
  unfolding contacts_only_def wbnd_def by (auto split: prod.splits sum.splits)

lemma contacts_contact: "pinned p u \<Longrightarrow> contacts_only p (contact u r)"
  by (simp add: contacts_only_def contact_def)

lemma contacts_safe:
  "(\<And>u. safe_url p v = Inr u \<Longrightarrow> contacts_only p (g u)) \<Longrightarrow> contacts_only p (wbnd (wret (checked (safe_url p v))) g)"
  by (cases "safe_url p v") (simp_all add: contacts_only_def wbnd_def wret_def checked_def)

lemma contacts_document [contacts_rules]: "contacts_only p (document nt k p url)"
  unfolding document_def
proof (rule contacts_safe)
  fix u assume "safe_url p (VStr url) = Inr u"
  then have "pinned p url" by (auto dest: safe_url_pinned)
  then have "contacts_only p (wbnd (contact url (fetched nt url)) (\<lambda>d s. (Inr d, s\<lparr>pv_cache := (pv_cache s)(url \<mapsto> (t, d))\<rparr>)))" for t
    by (intro contacts_wbnd contacts_contact) (simp_all add: contacts_only_def)
  then show "contacts_only p (\<lambda>s. case pv_cache s url of
      Some (until, d) \<Rightarrow> if nt_monotonic nt k < until then (Inr d, s)
        else wbnd (contact url (fetched nt url)) (\<lambda>d s. (Inr d, s\<lparr>pv_cache := (pv_cache s)(url \<mapsto> (nt_monotonic nt (Suc k) + secs 300, d))\<rparr>)) s
    | None \<Rightarrow> wbnd (contact url (fetched nt url)) (\<lambda>d s. (Inr d, s\<lparr>pv_cache := (pv_cache s)(url \<mapsto> (nt_monotonic nt (Suc k) + secs 300, d))\<rparr>)) s)"
    by (auto simp: contacts_only_def split: option.splits)
qed

lemma contacts_metadata [contacts_rules]: "contacts_only p (metadata nt cf p)"
  unfolding metadata_def by (intro contacts_rules)

lemma failing_closed_contacted [simp]: "pv_contacted (snd (failing_closed f s)) = pv_contacted (snd (f s))"
  by (auto simp: failing_closed_def split: prod.splits sum.splits)

lemma contacts_new: "contacts_only p f \<Longrightarrow> list_all (pinned p) (pv_contacted (snd (failing_closed f new_adapter)))"
  by (simp add: contacts_only_def new_adapter_def)

lemma authorization_url_contacts: "list_all (pinned p) (pv_contacted (snd (authorization_url nt cf p state a new_adapter)))"
  unfolding authorization_url_def by (intro contacts_new contacts_rules)

lemma exchange_contacts: "list_all (pinned p) (pv_contacted (snd (exchange nt cf p cd a new_adapter)))"
  unfolding exchange_def
  by (intro contacts_new contacts_wbnd [OF contacts_metadata] contacts_safe contacts_wbnd [OF contacts_contact]
      contacts_wbnd [OF contacts_wret] contacts_wbnd [OF contacts_document] contacts_wret) (auto dest: safe_url_pinned)

section \<open>Failures\<close>

named_theorems hides_rules \<open>introduction rules for hides\<close>

definition only_hidden :: "wire_error + 'a \<Rightarrow> bool" where
  "only_hidden r = (case r of Inl e \<Rightarrow> hidden e | Inr _ \<Rightarrow> True)"

definition hides :: "'a wire \<Rightarrow> bool" where
  "hides f \<longleftrightarrow> (\<forall>s. only_hidden (fst (f s)))"

text \<open>What the network and the libraries may raise: transport, JOSE and value errors.\<close>

definition network_ok :: "network \<Rightarrow> bool" where
  "network_ok nt \<longleftrightarrow> (\<forall>u. only_hidden (nt_get nt u)) \<and> (\<forall>u b f. only_hidden (nt_post nt u b f)) \<and> (\<forall>t. only_hidden (nt_loads nt t)) \<and>
     (\<forall>k t. only_hidden (nt_decode nt k t)) \<and> (\<forall>g cl. only_hidden (nt_registry nt g cl))"

lemma hidden_bind [hides_rules]: "only_hidden r \<Longrightarrow> (\<And>x. only_hidden (f x)) \<Longrightarrow> only_hidden (bind_r r f)"
  by (cases r) (simp_all add: only_hidden_def)

lemma hidden_if [hides_rules]: "only_hidden r \<Longrightarrow> only_hidden q \<Longrightarrow> only_hidden (if b then r else q)"
  by simp

lemma hidden_Inr [hides_rules]: "only_hidden (Inr x)"
  by (simp add: only_hidden_def)

lemma hidden_value [hides_rules]: "only_hidden (bad_value m)"
  by (simp add: only_hidden_def hidden_def)

lemma py_urlsplit_Inl: "py_urlsplit s = Inl e \<Longrightarrow> \<exists>m. e = ValueError m"
  by (auto simp: py_urlsplit_def split: prod.splits if_splits)

lemma safe_url_Inl: "safe_url p v = Inl e \<Longrightarrow> \<exists>m. e = ValueError m"
  by (auto simp: safe_url_def bind_r_eq_Inl split_port_def split: pyval.splits if_splits option.splits dest: py_urlsplit_Inl)

lemma hidden_safe_url [hides_rules]: "only_hidden (checked (safe_url p v))"
  by (cases "safe_url p v") (auto simp: only_hidden_def checked_def hidden_def dest!: safe_url_Inl)

lemma hidden_stream [hides_rules]: "only_hidden (stream_body body parts)"
  by (induction body parts rule: stream_body.induct) (simp_all add: hides_rules)

lemma hidden_string_keyed [hides_rules]: "only_hidden (string_keyed v)"
  by (cases v) (simp_all add: string_keyed_def hides_rules)

lemma hidden_challenge [hides_rules]: "only_hidden (challenge nt v)"
  by (simp add: challenge_def only_hidden_def hidden_def)

lemma hidden_need_claim [hides_rules]: "only_hidden (need_claim cl k)"
  by (simp add: need_claim_def only_hidden_def hidden_def split: option.splits)

lemma hides_wret [hides_rules]: "only_hidden r \<Longrightarrow> hides (wret r)"
  by (simp add: hides_def wret_def)

lemma hides_contact [hides_rules]: "only_hidden r \<Longrightarrow> hides (contact u r)"
  by (simp add: hides_def contact_def)

lemma hides_wbnd [hides_rules]: "hides f \<Longrightarrow> (\<And>x. hides (g x)) \<Longrightarrow> hides (wbnd f g)"
  unfolding hides_def wbnd_def by (auto simp: only_hidden_def split: prod.splits sum.splits) (metis fst_conv sum.case)+

lemma hidden_network:
  assumes "network_ok nt"
  shows "only_hidden (nt_post nt u (b1, b2) f)" "only_hidden (nt_decode nt k t)" "only_hidden (nt_registry nt g cl)" "only_hidden (nt_loads nt t)"
    "only_hidden (fetched nt u)"
  using assms by (simp_all add: network_ok_def fetched_def hides_rules split_paired_all)

lemma hidden_id_token: "network_ok nt \<Longrightarrow> only_hidden (id_token nt content)"
  unfolding id_token_def
  by (intro hides_rules) (auto simp: hidden_network hides_rules split: pyval.split)

lemma hidden_read_claims [hides_rules]: "only_hidden (read_claims nt cf p a cl)"
  unfolding read_claims_def Let_def
  by (intro hides_rules) (auto simp: hides_rules split: option.split)

lemma hides_document: "network_ok nt \<Longrightarrow> hides (document nt k p url)"
proof -
  assume "network_ok nt"
  then have "hides (wbnd (contact url (fetched nt url)) (\<lambda>d s. (Inr d, s\<lparr>pv_cache := (pv_cache s)(url \<mapsto> (t, d))\<rparr>)))" for t
    by (intro hides_wbnd hides_contact) (simp_all add: hidden_network hides_def hides_rules)
  then show ?thesis
    unfolding document_def by (intro hides_wbnd hides_wret hidden_safe_url) (auto simp: hides_def hidden_Inr split: option.split)
qed

lemma hides_metadata: "network_ok nt \<Longrightarrow> hides (metadata nt cf p)"
  unfolding metadata_def by (intro hides_wbnd hides_document) (simp_all add: hides_rules)

lemma failing_closed_Inl: "hides f \<Longrightarrow> fst (failing_closed f s) = Inl e \<Longrightarrow> e = app_error ExternalLoginFailedError"
  unfolding hides_def only_hidden_def failing_closed_def
  by (auto split: prod.splits sum.splits if_splits wire_error.splits) (metis fst_conv sum.case(1))+

lemma authorization_url_fails:
  "network_ok nt \<Longrightarrow> fst (authorization_url nt cf p state a s) = Inl e \<Longrightarrow> e = app_error ExternalLoginFailedError"
  unfolding authorization_url_def
  by (erule failing_closed_Inl [rotated]) (intro hides_wbnd hides_metadata hides_rules; assumption)

lemma exchange_fails:
  "network_ok nt \<Longrightarrow> fst (exchange nt cf p cd a s) = Inl e \<Longrightarrow> e = app_error ExternalLoginFailedError"
  unfolding exchange_def
  by (erule failing_closed_Inl [rotated])
    (intro hides_wbnd hides_metadata hides_document hides_wret hides_contact hidden_id_token hidden_bind hidden_network hidden_safe_url
      hidden_read_claims; assumption)

section \<open>Verified identities\<close>

text \<open>
  What \<open>JWTClaimsRegistry.validate\<close> documents for the claims it is given a value for: they are present and
  have that value, and an audience that is a list contains it.
\<close>

definition names_audience :: "string \<Rightarrow> pyval \<Rightarrow> bool" where
  "names_audience client v = (case v of VStr s \<Rightarrow> s = client | VList xs \<Rightarrow> VStr client \<in> set xs | _ \<Rightarrow> False)"

definition registry_checks :: "(registry \<Rightarrow> claims \<Rightarrow> wire_error + unit) \<Rightarrow> bool" where
  "registry_checks v \<longleftrightarrow> (\<forall>g cl. v g cl = Inr () \<longrightarrow> map_of cl ''iss'' = Some (VStr (rg_iss g)) \<and>
     map_of cl ''nonce'' = Some (VStr (rg_nonce g)) \<and> names_audience (rg_aud g) (get_claim cl ''aud''))"

lemma subject_of_Some: "subject_of v = Some s \<longleftrightarrow> v = VStr s \<and> 1 \<le> length s \<and> length s \<le> 255"
  by (auto simp: subject_of_def split: pyval.splits if_splits)

lemma need_claim_Inr: "need_claim cl k = Inr v \<longleftrightarrow> map_of cl k = Some v"
  by (auto simp: need_claim_def split: option.splits)

lemma secs_le: "secs a \<le> secs b \<longleftrightarrow> a \<le> b"
  by (simp add: secs_def)

text \<open>A provider authentication that is fresh for the attempt.\<close>

definition fresh_authentication :: "attempt \<Rightarrow> instant \<Rightarrow> int option \<Rightarrow> bool" where
  "fresh_authentication a now v = (case v of None \<Rightarrow> False | Some n \<Rightarrow> at_started_at a - 30 \<le> n \<and> secs n \<le> now + secs 30)"

lemma not_stale:
  "\<not> stale_authentication a now v \<Longrightarrow> fresh_authentication a now (case v of VInt n \<Rightarrow> Some n | _ \<Rightarrow> None)"
  by (cases v) (auto simp: stale_authentication_def is_int_def seconds_before_def seconds_after_def fresh_authentication_def secs_def)

lemma read_claims_Inr:
  assumes "read_claims nt cf p a cl = Inr vi"
  shows "vi_provider vi = p \<and> map_of cl ''sub'' = Some (VStr (vi_subject vi)) \<and> 1 \<le> length (vi_subject vi) \<and> length (vi_subject vi) \<le> 255 \<and>
    (vi_email_verified vi \<longrightarrow> get_claim cl ''email_verified'' = VBool True) \<and>
    (several (get_claim cl ''aud'') \<longrightarrow> map_of cl ''azp'' = Some (VStr (cf_client_id cf))) \<and>
    (at_intent a = Reauthenticate \<longrightarrow> fresh_authentication a (nt_time nt 1) (vi_auth_time vi))"
proof -
  from assms obtain aud issued sub subject where
    c: "map_of cl ''aud'' = Some aud" "(several aud \<or> map_of cl ''azp'' \<noteq> None) \<longrightarrow> get_claim cl ''azp'' = VStr (cf_client_id cf)"
      "map_of cl ''sub'' = Some sub" "subject_of sub = Some subject"
      "at_intent a = Reauthenticate \<longrightarrow> \<not> stale_authentication a (nt_time nt 1) (get_claim cl ''auth_time'')"
    and vi: "vi = \<lparr>vi_provider = p, vi_subject = subject,
           vi_email = (case get_claim cl ''email'' of VStr e \<Rightarrow> Some e | _ \<Rightarrow> None),
           vi_email_verified = (get_claim cl ''email_verified'' = VBool True),
           vi_auth_time = (case get_claim cl ''auth_time'' of VInt n \<Rightarrow> Some n | _ \<Rightarrow> None)\<rparr>"
    by (auto simp: read_claims_def bind_r_eq_Inr need_claim_Inr Let_def split: if_splits option.splits)
  have "map_of cl ''azp'' = Some (VStr (cf_client_id cf))" if "several (get_claim cl ''aud'')"
    using that c(1,2) by (auto simp: get_claim_def split: option.splits)
  then show ?thesis using c(3-5) vi not_stale by (auto simp: subject_of_Some)
qed

lemma exchange_Inr:
  assumes "exchange nt cf p cd a new_adapter = (Inr vi, s')"
  shows "\<exists>md token_url content encoded jwks_url keys cl.
    fetched nt (issuer p @ ''/.well-known/openid-configuration'') = Inr md \<and>
    get_member md ''token_endpoint'' = VStr token_url \<and> pinned p token_url \<and>
    get_member md ''jwks_uri'' = VStr jwks_url \<and> pinned p jwks_url \<and> fetched nt jwks_url = Inr keys \<and>
    nt_post nt token_url (cf_client_id cf, cf_client_secret cf) (token_form cd a) = Inr content \<and> id_token nt content = Inr encoded \<and>
    nt_decode nt keys encoded = Inr cl \<and> nt_registry nt (expected_claims cf p a) cl = Inr () \<and> read_claims nt cf p a cl = Inr vi"
proof -
  from assms obtain md s1 token_url content encoded jwks_url keys s2 cl where
    m: "metadata nt cf p new_adapter = (Inr md, s1)" and t: "safe_url p (get_member md ''token_endpoint'') = Inr token_url"
    and c: "nt_post nt token_url (cf_client_id cf, cf_client_secret cf) (token_form cd a) = Inr content" "id_token nt content = Inr encoded"
    and j: "safe_url p (get_member md ''jwks_uri'') = Inr jwks_url"
      "document nt 2 p jwks_url (s1\<lparr>pv_contacted := pv_contacted s1 @ [token_url]\<rparr>) = (Inr keys, s2)"
    and d: "nt_decode nt keys encoded = Inr cl" "nt_registry nt (expected_claims cf p a) cl = Inr ()" "read_claims nt cf p a cl = Inr vi"
    unfolding exchange_def by (auto simp: wire_simps bind_r_eq_Inr)
  from metadata_Inr [OF m] have "fetched nt (issuer p @ ''/.well-known/openid-configuration'') = Inr md" "cache_ok nt s1" by simp_all
  moreover from document_Inr [OF j(2)] \<open>cache_ok nt s1\<close> have "fetched nt jwks_url = Inr keys" by simp
  ultimately show ?thesis using safe_url_pinned [OF t] safe_url_pinned [OF j(1)] c d by blast
qed

lemma authorization_url_Inr:
  assumes "authorization_url nt cf p state a new_adapter = (Inr url, s')"
  shows "\<exists>ep ch. safe_url p (VStr ep) = Inr ep \<and> challenge nt (at_verifier a) = Inr ch \<and>
    url = ep @ ''?'' @ urlencode (authorization_params cf state a ch)"
proof -
  from assms obtain md ep ch where "safe_url p (get_member md ''authorization_endpoint'') = Inr ep" "challenge nt (at_verifier a) = Inr ch"
    "url = ep @ ''?'' @ urlencode (authorization_params cf state a ch)"
    unfolding authorization_url_def by (auto simp: wire_simps bind_r_eq_Inr)
  then show ?thesis using safe_url_pinned unfolding pinned_def by blast
qed

definition discovery_url :: "provider_name \<Rightarrow> string" where
  "discovery_url p = issuer p @ ''/.well-known/openid-configuration''"

lemma discovery_pinned: "safe_url p (VStr (discovery_url p)) = Inr (discovery_url p)"
proof -
  have "safe_url Google (VStr (discovery_url Google)) = Inr (discovery_url Google)" by code_simp
  moreover have "safe_url Yahoo (VStr (discovery_url Yahoo)) = Inr (discovery_url Yahoo)" by code_simp
  ultimately show ?thesis by (cases p) simp_all
qed

text \<open>A new adapter has nothing cached: every authorization reads the discovery document again.\<close>

lemma discovery_every_time:
  "pv_contacted (snd (authorization_url nt cf p state a new_adapter)) = [issuer p @ ''/.well-known/openid-configuration'']"
  unfolding authorization_url_def failing_closed_contacted
  by (auto simp: metadata_def document_def wbnd_def wret_def contact_def checked_def discovery_pinned [unfolded discovery_url_def] new_adapter_def
      split: prod.splits sum.splits)

section \<open>Concrete values\<close>

definition demo_yahoo :: provider_config where
  "demo_yahoo = \<lparr>cf_enabled = True, cf_client_id = ''shop'', cf_client_secret = ''s'', cf_redirect_uri = ''https://shop.example/cb'', cf_pkce_verified = True\<rparr>"

definition demo_attempt_y :: attempt where
  "demo_attempt_y = \<lparr>at_attempt_id = 1, at_provider = Yahoo, at_intent = Login, at_browser_hash = [], at_nonce = ''n1'', at_verifier = ''v1'',
     at_redirect_uri = ''https://shop.example/cb'', at_return_path = ''/'', at_actor_id = None, at_session_id = None, at_started_at = 100\<rparr>"

definition demo_claims :: claims where
  "demo_claims = [(''iss'', VStr ''https://api.login.yahoo.com''), (''aud'', VStr ''shop''), (''exp'', VInt 500), (''iat'', VInt 110),
     (''sub'', VStr ''u7''), (''nonce'', VStr ''n1''), (''email'', VStr ''a@b.c''), (''email_verified'', VBool True)]"

definition demo_discovery :: json_object where
  "demo_discovery = [(VStr ''issuer'', VStr ''https://api.login.yahoo.com''),
     (VStr ''authorization_endpoint'', VStr ''https://api.login.yahoo.com/oauth2/request_auth''),
     (VStr ''token_endpoint'', VStr ''https://api.login.yahoo.com/oauth2/get_token''),
     (VStr ''jwks_uri'', VStr ''https://api.login.yahoo.com/openid/v1/certs'')]"

definition demo_network :: network where
  "demo_network = \<lparr>nt_get = (\<lambda>u. Inr [''d'']), nt_post = (\<lambda>u b f. Inr ''t''),
     nt_loads = (\<lambda>t. Inr (VDict (if t = ''t'' then [(VStr ''id_token'', VStr ''h.p.s'')] else demo_discovery))),
     nt_decode = (\<lambda>k t. Inr demo_claims),
     nt_registry = (\<lambda>g cl. if map_of cl ''iss'' = Some (VStr (rg_iss g)) \<and> map_of cl ''nonce'' = Some (VStr (rg_nonce g)) \<and>
        names_audience (rg_aud g) (get_claim cl ''aud'') then Inr () else Inl JoseError),
     nt_digest = (\<lambda>s. [1, 2, 3]), nt_monotonic = (\<lambda>n. 0), nt_time = (\<lambda>n. secs 120)\<rparr>"

lemma demo_network_ok: "network_ok demo_network" "registry_checks (nt_registry demo_network)"
  by (simp_all add: network_ok_def demo_network_def only_hidden_def hidden_def registry_checks_def)

section \<open>Properties\<close>

text \<open>
  C7: an external identity comes only from a token the provider signed for this attempt. If the exchange
  returns an identity, its subject is that of a token which the token endpoint of the provider's own
  discovery document answered for this code and verifier, decoded with the keys of a pinned address, with
  the provider's issuer, the client among the audiences (and as the authorized party if there are several)
  and the nonce of the attempt; the address counts as verified only if the token says so; and a
  reauthentication was fresh.
\<close>

theorem exchange_identity_verified:
  assumes "registry_checks (nt_registry nt)" and "exchange nt cf p cd a new_adapter = (Inr vi, s')"
  shows "\<exists>md token_url content encoded jwks_url keys cl.
    fetched nt (issuer p @ ''/.well-known/openid-configuration'') = Inr md \<and>
    get_member md ''token_endpoint'' = VStr token_url \<and> safe_url p (VStr token_url) = Inr token_url \<and>
    get_member md ''jwks_uri'' = VStr jwks_url \<and> safe_url p (VStr jwks_url) = Inr jwks_url \<and> fetched nt jwks_url = Inr keys \<and>
    nt_post nt token_url (cf_client_id cf, cf_client_secret cf) (token_form cd a) = Inr content \<and> id_token nt content = Inr encoded \<and>
    nt_decode nt keys encoded = Inr cl \<and> map_of cl ''iss'' = Some (VStr (issuer p)) \<and> map_of cl ''nonce'' = Some (VStr (at_nonce a)) \<and>
    names_audience (cf_client_id cf) (get_claim cl ''aud'') \<and>
    (several (get_claim cl ''aud'') \<longrightarrow> map_of cl ''azp'' = Some (VStr (cf_client_id cf))) \<and>
    vi_provider vi = p \<and> map_of cl ''sub'' = Some (VStr (vi_subject vi)) \<and> 1 \<le> length (vi_subject vi) \<and> length (vi_subject vi) \<le> 255 \<and>
    (vi_email_verified vi \<longrightarrow> get_claim cl ''email_verified'' = VBool True) \<and>
    (at_intent a = Reauthenticate \<longrightarrow> fresh_authentication a (nt_time nt 1) (vi_auth_time vi))"
proof -
  from exchange_Inr [OF assms(2)] obtain md token_url content encoded jwks_url keys cl where
    x: "fetched nt (issuer p @ ''/.well-known/openid-configuration'') = Inr md"
      "get_member md ''token_endpoint'' = VStr token_url" "pinned p token_url" "get_member md ''jwks_uri'' = VStr jwks_url" "pinned p jwks_url"
      "fetched nt jwks_url = Inr keys" "nt_post nt token_url (cf_client_id cf, cf_client_secret cf) (token_form cd a) = Inr content"
      "id_token nt content = Inr encoded" "nt_decode nt keys encoded = Inr cl" and
    r: "nt_registry nt (expected_claims cf p a) cl = Inr ()" and c: "read_claims nt cf p a cl = Inr vi" by blast
  have "map_of cl ''iss'' = Some (VStr (issuer p)) \<and> map_of cl ''nonce'' = Some (VStr (at_nonce a)) \<and> names_audience (cf_client_id cf) (get_claim cl ''aud'')"
    using assms(1) r unfolding registry_checks_def expected_claims_def by fastforce
  with x read_claims_Inr [OF c] show ?thesis unfolding pinned_def by blast
qed

lemma demo_exchange:
  "case exchange demo_network demo_yahoo Yahoo ''c'' demo_attempt_y new_adapter of (Inl e, s) \<Rightarrow> False | (Inr vi, s) \<Rightarrow> vi_subject vi = ''u7''"
  by code_simp

theorem exchange_identity_verified_witness:
  "case exchange demo_network demo_yahoo Yahoo ''c'' demo_attempt_y new_adapter of (Inl e, s) \<Rightarrow> False
   | (Inr vi, s) \<Rightarrow> vi_subject vi = ''u7'' \<and> vi_provider vi = Yahoo"
proof -
  obtain r s where x: "exchange demo_network demo_yahoo Yahoo ''c'' demo_attempt_y new_adapter = (r, s)" by fastforce
  with demo_exchange obtain vi where r: "r = Inr vi" "vi_subject vi = ''u7''" by (cases r) auto
  from exchange_identity_verified [OF demo_network_ok(2) x [unfolded r(1)]] show ?thesis using x r by auto
qed



end
