(* ===== verification/Application.thy ===== *)
theory Application
  imports Api_Security Oidc_Provider Delivery_Workers
begin

text \<open>
  The process around the components: \<open>core/settings.py\<close>, the life cycle of \<open>core/application.py\<close> and
  \<open>db/session.py\<close>, and the commands of the delivery worker, \<open>auth/delivery_worker.py\<close>.

  \<open>site_of\<close> and \<open>adapter_port\<close> connect validated settings and the provider adapter to the endpoints.
\<close>

section \<open>Settings\<close>

datatype app_environment = Development | Test | Production
datatype log_level = Debug | Info | Warning | Error_Level | Critical
datatype log_format = Json_Format | Console

definition environment_value :: "app_environment \<Rightarrow> string" where
  "environment_value e = (case e of Development \<Rightarrow> ''development'' | Test \<Rightarrow> ''test'' | Production \<Rightarrow> ''production'')"

text \<open>The settings the components read; a number of seconds that may be fractional is a duration.\<close>

record settings =
  ss_app_env :: app_environment
  ss_debug :: bool
  ss_api_prefix :: string
  ss_service_name :: string
  ss_log_level :: log_level
  ss_log_format :: log_format
  ss_trust_incoming_request_ids :: bool
  ss_database_url :: string
  ss_test_database_url :: string
  ss_database_pool_size :: int
  ss_database_max_overflow :: int
  ss_database_connect_timeout :: duration
  ss_redis_connect_timeout :: duration
  ss_redis_operation_timeout :: duration
  ss_allowed_hosts :: "string list"
  ss_cors_origins :: "string list"
  ss_secure_cookies :: bool
  ss_secret_key :: string
  ss_check_dependencies :: bool
  ss_auth :: auth_settings
  ss_oidc :: oidc_settings
  ss_profile_limits :: profile_limits

definition service_name_re :: regex where
  "service_name_re = Seq (Cls [(CHR ''a'', CHR ''z'')]) (Star (Cls [(CHR ''a'', CHR ''z''), (CHR ''0'', CHR ''9''), (CHR ''-'', CHR ''-'')]))"

definition settings_fields_ok :: "settings \<Rightarrow> bool" where
  "settings_fields_ok s \<longleftrightarrow> sized 1 100 (ss_service_name s) \<and> fullmatch service_name_re (ss_service_name s) \<and>
     1 \<le> ss_database_pool_size s \<and> ss_database_pool_size s \<le> 50 \<and> 0 \<le> ss_database_max_overflow s \<and> ss_database_max_overflow s \<le> 50 \<and>
     list_all (\<lambda>t. 0 < t \<and> t \<le> secs 30) [ss_database_connect_timeout s, ss_redis_connect_timeout s, ss_redis_operation_timeout s] \<and>
     profile_limits_ok (ss_profile_limits s)"

definition active_database_url :: "settings \<Rightarrow> string" where
  "active_database_url s = (if ss_app_env s = Test then ss_test_database_url s else ss_database_url s)"

definition unsafe_secrets :: "string list" where
  "unsafe_secrets = [''development-only-change-me'', ''change-me'', ''changeme'', ''secret'']"

definition validate_environment_safety :: "case_map \<Rightarrow> settings \<Rightarrow> exn + settings" where
  "validate_environment_safety u s =
     bind_r (require (\<not> (ss_app_env s = Test \<and> ss_database_url s = ss_test_database_url s))
       (ValueError ''test_database_url must differ from database_url'')) (\<lambda>_.
     if ss_app_env s \<noteq> Production then Inr s
     else
       bind_r (require (\<not> ss_debug s) (ValueError ''debug must be disabled in production'')) (\<lambda>_.
       bind_r (require (ss_secure_cookies s) (ValueError ''secure_cookies must be enabled in production'')) (\<lambda>_.
       bind_r (require (''*'' \<notin> set (ss_allowed_hosts s)) (ValueError ''wildcard allowed_hosts are forbidden in production'')) (\<lambda>_.
       bind_r (require (''*'' \<notin> set (ss_cors_origins s)) (ValueError ''wildcard cors_origins are forbidden in production'')) (\<lambda>_.
       bind_r (require (ss_allowed_hosts s \<noteq> []) (ValueError ''allowed_hosts must not be empty in production'')) (\<lambda>_.
       bind_r (require (py_casefold u (ss_secret_key s) \<notin> set unsafe_secrets)
         (ValueError ''a non-placeholder secret_key is required in production'')) (\<lambda>_.
       Inr s)))))))"

definition mk_settings :: "case_map \<Rightarrow> settings \<Rightarrow> exn + settings" where
  "mk_settings u s = (if settings_fields_ok s then validate_environment_safety u s else Inl (ValueError ''invalid settings''))"

text \<open>The site the application serves with its settings.\<close>

definition site_of :: "ident_env \<Rightarrow> (string \<Rightarrow> string) \<Rightarrow> settings \<Rightarrow> site" where
  "site_of en trim s = \<lparr>si_deployment = \<lparr>dp_env = en, dp_auth = ss_auth s, dp_oidc = ss_oidc s,
       dp_namespace = environment_value (ss_app_env s)\<rparr>,
     si_secure_cookies = ss_secure_cookies s, si_api_prefix = ss_api_prefix s, si_secret_key = ss_secret_key s,
     si_profile_limits = ss_profile_limits s, si_trim = trim\<rparr>"

text \<open>\<open>provider_registry\<close> builds a new adapter for every request.\<close>

definition adapter_port :: "network \<Rightarrow> oidc_settings \<Rightarrow> (attempt \<Rightarrow> string) \<Rightarrow> (string \<Rightarrow> attempt option) \<Rightarrow> provider_port" where
  "adapter_port nt oi dump load = \<lparr>pp_authorization_url = (\<lambda>p state a. fst (authorization_url nt (provider_config_of oi p) p state a new_adapter)),
     pp_exchange = (\<lambda>p cd a. fst (exchange nt (provider_config_of oi p) p cd a new_adapter)), pp_dump = dump, pp_load = load\<rparr>"

section \<open>The life cycle\<close>

datatype life_event = Database_Opened | Redis_Opened | Database_Checked | Redis_Checked | Serving | Redis_Closed | Database_Disposed

text \<open>How each step of the life cycle turns out; \<open>le_serve\<close> is what ends the serving.\<close>

record life_env =
  le_database :: "exn + unit"
  le_redis :: "exn + unit"
  le_check_database :: "exn + unit"
  le_check_redis :: "exn + unit"
  le_serve :: "exn + unit"
  le_close_redis :: "exn + unit"
  le_dispose :: "exn + unit"

type_synonym 'a traced = "(exn + 'a) \<times> life_event list"

definition does :: "life_event \<Rightarrow> exn + 'a \<Rightarrow> 'a traced" where
  "does e r = (r, [e])"

definition and_then :: "'a traced \<Rightarrow> 'b traced \<Rightarrow> 'b traced" where
  "and_then p q = (case p of (Inl e, es) \<Rightarrow> (Inl e, es) | (Inr x, es) \<Rightarrow> (fst q, es @ snd q))"

text \<open>\<open>try: p finally: q\<close>: the exception of \<open>q\<close> replaces that of \<open>p\<close>.\<close>

definition finally_do :: "'a traced \<Rightarrow> unit traced \<Rightarrow> 'a traced" where
  "finally_do p q = (case fst q of Inl e \<Rightarrow> (Inl e, snd p @ snd q) | Inr x \<Rightarrow> (fst p, snd p @ snd q))"

definition startup_failed :: exn where
  "startup_failed = RuntimeError ''application dependency startup failed''"

definition startup_checks :: "settings \<Rightarrow> life_env \<Rightarrow> unit traced" where
  "startup_checks s le = (if ss_check_dependencies s
     then (case and_then (does Database_Checked (le_check_database le)) (does Redis_Checked (le_check_redis le)) of
         (Inl e, es) \<Rightarrow> (Inl startup_failed, es) | (Inr x, es) \<Rightarrow> (Inr x, es))
     else (Inr (), []))"

text \<open>A client or engine whose construction raises was not opened.\<close>

definition lifespan :: "settings \<Rightarrow> life_env \<Rightarrow> unit traced" where
  "lifespan s le = (case le_database le of
     Inl e \<Rightarrow> (Inl e, [])
   | Inr _ \<Rightarrow> and_then (does Database_Opened (Inr ())) (case le_redis le of
       Inl e \<Rightarrow> and_then (does Database_Disposed (le_dispose le)) (Inl startup_failed, [])
     | Inr _ \<Rightarrow> and_then (does Redis_Opened (Inr ()))
         (finally_do (and_then (startup_checks s le) (does Serving (le_serve le)))
            (finally_do (does Redis_Closed (le_close_redis le)) (does Database_Disposed (le_dispose le))))))"

section \<open>The delivery worker's commands\<close>

datatype worker_command = Run_Worker | Status | Replay_Message | Resume_Group

definition email_group :: string where "email_group = ''auth_email''"

text \<open>
  \<open>loop\<close> is the run of the worker, a sequence of the steps of \<open>exec_delivery\<close>. The other commands are one
  transaction each: what they raise leaves the database as it was.
\<close>

definition run_command ::
  "ident_env \<Rightarrow> instant \<Rightarrow> uuid \<Rightarrow> uuid \<Rightarrow> uuid \<Rightarrow> (string \<times> ('p, 'w) external_handler) list \<Rightarrow> (delivery_db \<Rightarrow> exn + delivery_db) \<Rightarrow>
   bool \<Rightarrow> worker_command \<Rightarrow> uuid option \<Rightarrow> recovery_reason option \<Rightarrow> delivery_db \<Rightarrow> exn + (int \<times> delivery_db)" where
  "run_command en now audit_id target correlation_id hs loop resend cmd message_id reason d =
     (if \<not> resend then Inl (RuntimeError ''Resend settings are required; SMTP fallback is disabled'')
      else (case cmd of
        Run_Worker \<Rightarrow> bind_r (loop d) (\<lambda>d'. Inr (0, d'))
      | Status \<Rightarrow> Inr (if hr_healthy (health now email_group (map fst hs) d) then 0 else 1, d)
      | Replay_Message \<Rightarrow> (case (message_id, reason) of
          (Some mid, Some rs) \<Rightarrow> bind_r (replay en now audit_id correlation_id mid rs hs d) (\<lambda>d'. Inr (0, d'))
        | _ \<Rightarrow> Inl (ValueError ''replay requires message ID and reason''))
      | Resume_Group \<Rightarrow> bind_r (resume en now audit_id target correlation_id email_group d) (\<lambda>d'. Inr (0, d'))))"

text \<open>\<open>main\<close>: every exception becomes the exit status 1.\<close>

definition exit_status :: "exn + (int \<times> delivery_db) \<Rightarrow> int" where
  "exit_status r = (case r of Inl e \<Rightarrow> 1 | Inr (n, d) \<Rightarrow> n)"

section \<open>Facts\<close>

lemma production_checked:
  assumes "mk_settings u s0 = Inr s" "ss_app_env s = Production"
  shows "\<not> ss_debug s \<and> ss_secure_cookies s \<and> ''*'' \<notin> set (ss_allowed_hosts s) \<and> ss_allowed_hosts s \<noteq> [] \<and>
    ''*'' \<notin> set (ss_cors_origins s) \<and> py_casefold u (ss_secret_key s) \<notin> set unsafe_secrets"
  using assms by (auto simp: mk_settings_def validate_environment_safety_def bind_r_eq_Inr require_eq_Inr split: if_splits)

lemma test_checked: "mk_settings u s0 = Inr s \<Longrightarrow> ss_app_env s = Test \<Longrightarrow> ss_database_url s \<noteq> ss_test_database_url s"
  by (auto simp: mk_settings_def validate_environment_safety_def bind_r_eq_Inr require_eq_Inr split: if_splits)

text \<open>A command that fails changes nothing and exits with 1; asking for the status changes nothing.\<close>

lemma status_unchanged:
  "run_command en now audit_id target cid hs loop resend Status mid rs d = Inr (n, d') \<Longrightarrow> d' = d \<and> (n = 0 \<longleftrightarrow> hr_healthy (health now email_group (map fst hs) d))"
  by (auto simp: run_command_def split: if_splits)

lemma replay_needs_arguments:
  "run_command en now audit_id target cid hs loop resend Replay_Message mid rs d = Inr (n, d') \<Longrightarrow>
    resend \<and> n = 0 \<and> (\<exists>i r. mid = Some i \<and> rs = Some r \<and> replay en now audit_id cid i r hs d = Inr d')"
  by (auto simp: run_command_def bind_r_eq_Inr split: if_splits option.splits)

lemma exit_status_error: "exit_status (Inl e) = 1"
  by (simp add: exit_status_def)

section \<open>Properties\<close>

text \<open>
  C9: production cannot be configured unsafely. Settings that pass validation for production have debugging
  off, no wildcard host or origin, some allowed host and a secret that is not a placeholder; and every
  cookie a site with these settings sets is \<open>Secure\<close>, \<open>HttpOnly\<close> and bound to the host by its name. The
  database the process opens is the production one, and in tests never the configured main one.
\<close>

theorem production_hardened:
  assumes "mk_settings u s0 = Inr s"
  shows "(ss_app_env s = Production \<longrightarrow> \<not> ss_debug s \<and> ''*'' \<notin> set (ss_allowed_hosts s) \<and> ss_allowed_hosts s \<noteq> [] \<and>
      ''*'' \<notin> set (ss_cors_origins s) \<and> py_casefold u (ss_secret_key s) \<notin> set unsafe_secrets \<and>
      active_database_url s = ss_database_url s \<and>
      (\<forall>pp dr ld wr rt sys rp. fst (serve (site_of en trim s) pp dr ld wr rt sys) = Inr rp \<longrightarrow>
        list_all (\<lambda>c. co_secure c \<and> co_httponly c \<and> py_startswith (co_name c) ''__Host-'') (rp_cookies rp))) \<and>
    (ss_app_env s = Test \<longrightarrow> active_database_url s \<noteq> ss_database_url s)"
proof (intro conjI impI allI)
  assume p: "ss_app_env s = Production"
  note c = production_checked [OF assms p]
  show "\<not> ss_debug s" "''*'' \<notin> set (ss_allowed_hosts s)" "ss_allowed_hosts s \<noteq> []" "''*'' \<notin> set (ss_cors_origins s)"
    "py_casefold u (ss_secret_key s) \<notin> set unsafe_secrets" using c by simp_all
  show "active_database_url s = ss_database_url s" using p by (simp add: active_database_url_def)
  fix pp dr ld wr rt sys rp
  assume "fst (serve (site_of en trim s) pp dr ld wr rt sys) = Inr rp"
  from serve_hardened [OF this] show "list_all (\<lambda>c. co_secure c \<and> co_httponly c \<and> py_startswith (co_name c) ''__Host-'') (rp_cookies rp)"
    using c by (simp add: hardened_def cookie_ok_def list_all_iff site_of_def)
next
  assume "ss_app_env s = Test"
  then show "active_database_url s \<noteq> ss_database_url s" using test_checked [OF assms] by (simp add: active_database_url_def)
qed

definition demo_settings_root :: settings where
  "demo_settings_root = \<lparr>ss_app_env = Production, ss_debug = False, ss_api_prefix = ''/api/v1'', ss_service_name = ''api'', ss_log_level = Info,
     ss_log_format = Json_Format, ss_trust_incoming_request_ids = False, ss_database_url = ''db'', ss_test_database_url = ''t'',
     ss_database_pool_size = 10, ss_database_max_overflow = 10, ss_database_connect_timeout = secs 5, ss_redis_connect_timeout = secs 2,
     ss_redis_operation_timeout = secs 2, ss_allowed_hosts = [''shop.example''], ss_cors_origins = [], ss_secure_cookies = True,
     ss_secret_key = ''k7'', ss_check_dependencies = True, ss_auth = dp_auth demo_deployment, ss_oidc = dp_oidc demo_deployment,
     ss_profile_limits = si_profile_limits demo_site\<rparr>"

lemma demo_service_name: "fullmatch service_name_re ''api''"
  by code_simp

lemma demo_settings_valid: "mk_settings (\<lambda>c. [c]) demo_settings_root = Inr demo_settings_root"
  by (simp del: fullmatch.simps add: demo_service_name mk_settings_def settings_fields_ok_def demo_settings_root_def sized_def secs_def
      demo_site_def profile_limits_ok_def validate_environment_safety_def require_def unsafe_secrets_def py_casefold_def is_ascii_def ascii_lower_def)

theorem production_hardened_witness:
  "mk_settings (\<lambda>c. [c]) demo_settings_root = Inr demo_settings_root \<and> ss_app_env demo_settings_root = Production \<and>
   active_database_url demo_settings_root = ss_database_url demo_settings_root"
  using production_hardened [OF demo_settings_valid] demo_settings_valid by (simp add: demo_settings_root_def)

text \<open>
  The process releases what it opened. However starting, checking, serving, closing and disposing turn
  out, the database and Redis are each released exactly as often as they were opened, at most once, the
  database last; requests are served only with both open and, if configured, both checked, and nothing but
  the releases follows; and the process ends without error only after serving.
\<close>

lemma lifespan_releases:
  "case lifespan s le of (r, es) \<Rightarrow>
     count_list es Database_Opened = count_list es Database_Disposed \<and> count_list es Redis_Opened = count_list es Redis_Closed \<and>
     distinct es \<and> (es = [] \<or> last es = Database_Disposed) \<and>
     (Serving \<in> set es \<longrightarrow> es = [Database_Opened, Redis_Opened] @ (if ss_check_dependencies s then [Database_Checked, Redis_Checked] else []) @
        [Serving, Redis_Closed, Database_Disposed]) \<and>
     (r = Inr () \<longrightarrow> Serving \<in> set es)"
proof (cases "le_database le")
  case (Inl e)
  then show ?thesis by (simp add: lifespan_def)
next
  case db: (Inr x)
  note defs = lifespan_def and_then_def does_def finally_do_def startup_checks_def
  show ?thesis
  proof (cases "le_redis le")
    case (Inl e)
    with db show ?thesis by (cases "le_dispose le") (simp_all add: defs)
  next
    case redis: (Inr y)
    show ?thesis
    proof (cases "ss_check_dependencies s")
      case False
      with db redis show ?thesis
        by (cases "le_serve le"; cases "le_close_redis le"; cases "le_dispose le") (simp_all add: defs)
    next
      case True
      with db redis show ?thesis
        by (cases "le_check_database le"; cases "le_check_redis le"; cases "le_serve le"; cases "le_close_redis le"; cases "le_dispose le")
          (simp_all add: defs)
    qed
  qed
qed

end
