(* ===== verification/Spec2Isabelle.thy ===== *)
theory Spec2Isabelle
  imports Core_Types Domain_Events Unit_Of_Work Jobs Leased_Outbox Internal_Worker Delivery_Workers Users_Security Rate_Limits Requests Cache Http_Query Http_Errors Storage Endpoints Api_Security Oidc_Provider Application
begin

text \<open>
  The back end of the Ekumidayomi shop (package \<open>src/src/ekumidayomi\<close>): a FastAPI application over PostgreSQL
  (SQLAlchemy) and Redis, with accounts, sessions, external logins, profiles, an audit trail, background
  jobs, a transactional outbox with two kinds of delivery workers, e-mail through Resend, a cache and object
  storage. This development models these parts from the Python sources and proves what makes them correct.
  Paths below are relative to that package.

  \<^bold>\<open>The parts and how they interact.\<close> A request comes in through the routers of \<open>api/v1\<close>: rate limits and the
  origin check first, then the session of the cookie, then a service of \<open>auth\<close> or \<open>users\<close> in the unit of work of
  the request. A service changes rows, records audit records and outbox messages in the same transaction, and
  commits; callbacks after the commit drop keys from Redis, which is only ever a hint. A worker later takes
  messages from the outbox under a lease and hands them to a handler, which for challenges writes the e-mail
  and submits it to Resend; another worker handles messages inside the database. Errors of all parts become
  one response envelope at the edge.

  \<^bold>\<open>Conventions.\<close> Each Python function is one definition with the name of the source where Isabelle allows it
  (\<open>mk_x\<close> for a checked constructor of class \<open>X\<close>, \<open>x_value\<close> for the text of an enumeration). Exceptions are
  values: results have type \<open>exn + 'a\<close>. A table is the list of its rows, a row is a record, a string
  is over the code points 0 to 255, an instant a number of microseconds, a UUID a 128-bit word. What a call draws
  from outside (clock readings, \<open>uuid4\<close>, secrets, jitter, the rows other transactions have locked) is an
  argument. Third-party code is an argument or a field of an environment record: cryptography and Argon2
  (\<open>ident_env\<close>), JSON reading, JOSE and HTTP (\<open>network\<close>, \<open>email_env\<close>, \<open>cache_env\<close>), pydantic's trimming and
  e-mail validation. Where a theorem relies on such code it has a named hypothesis (\<open>registry_checks\<close>,
  \<open>network_ok\<close>, and so on) and a witness with a concrete function.

  \<^bold>\<open>Shared theories.\<close>
  \<^item> \<open>Prelude\<close>: value types, results, tables with unique keys, ordering and update lemmas. \<open>Regex\<close> and
    \<open>Py_Strings\<close>: \<open>re.fullmatch\<close> by derivatives, proved against the language of a pattern, and the methods of \<open>str\<close>.
    \<open>Json\<close>: the locale \<open>budgeted_walk\<close> for the recursions that bound depth and size of JSON-like values.
  \<^item> \<open>Contracts\<close>: executions as sequences of operations (\<open>run\<close>), and the locales \<open>run_invariant\<close>, \<open>lease_fence\<close> and
    \<open>batch_claim\<close>, which jobs, outbox, workers and the identity services interpret on their own operations.
  \<^item> \<open>Tx_Programs\<close>: services as programs over a unit of work, triples (\<open>valid\<close>), invariants (\<open>keeps\<close>) and the
    inversion rules of successful runs.

  \<^bold>\<open>Components.\<close>
  \<^item> \<open>App_Errors\<close> (\<open>core/errors.py\<close>, \<open>users/errors.py\<close>, \<open>email/errors.py\<close>, \<open>api/health_errors.py\<close>): every error class, and
    the bounded, safe details of its construction. \<open>Core_Types\<close>, \<open>Timestamps\<close> (\<open>core/types.py\<close>): money over a model of
    Python's decimals, pages, ISO 8601. \<open>Domain_Events\<close> (\<open>events.py\<close>): events with frozen payloads.
  \<^item> \<open>Unit_Of_Work\<close> (\<open>db/uow.py\<close>): the state machine of a transaction; it refines an atomic transaction.
  \<^item> \<open>Jobs\<close> (\<open>jobs\<close>): the job service; table invariant, fencing by tokens, claims, histories, progress.
  \<^item> \<open>Outbox\<close>, \<open>Leased_Outbox\<close> (\<open>outbox/model.py\<close>, \<open>outcomes.py\<close>, \<open>retry.py\<close>, \<open>settings.py\<close>, \<open>repository.py\<close>,
    \<open>leased_repository.py\<close>): messages, the retry policy, ordinary and leased deliveries. \<open>Internal_Worker\<close>
    (\<open>internal_worker.py\<close>): exactness of a round and termination. \<open>Delivery_Workers\<close> (\<open>leased_worker.py\<close>,
    \<open>operations.py\<close>): several workers interleaved with each other, with publishers and with operators.
  \<^item> \<open>Email_Delivery\<close> (\<open>email\<close>, \<open>auth/email_handler.py\<close>): messages, fingerprints, submissions that resume.
  \<^item> \<open>Audit_Trail\<close> (\<open>audit\<close>): redaction, bounds and queries of audit records.
  \<^item> \<open>Identity\<close>, \<open>Challenges\<close>, \<open>Auth_Service\<close>, \<open>Users_Service\<close>, \<open>Oidc\<close> (\<open>users\<close>, \<open>auth\<close>): the tables, sessions,
    permissions, e-mail challenges, passwords, registration, login, reset, bootstrap, profiles, administration,
    external logins. \<open>Auth_Security\<close> and \<open>Users_Security\<close> have what they promise on whole requests; \<open>Requests\<close>
    has the invariant of every sequence of requests.
  \<^item> \<open>Oidc_Provider\<close> (\<open>auth/oidc/providers.py\<close>): pinned endpoints over a model of \<open>urlsplit\<close>, discovery, the
    authorization URL, the code exchange and the checks of the claims.
  \<^item> \<open>Rate_Limits\<close> (\<open>core/rate_limits.py\<close> and its users): the sliding window script and both policies on failure.
    \<open>Cache\<close> (\<open>cache\<close>): keys, codec and the client with its locks, against a Redis that others change at any time.
    \<open>Storage\<close> (\<open>storage\<close>): the port as the locale \<open>object_store\<close>, the adapter in memory as its interpretation.
  \<^item> \<open>Http_Query\<close>, \<open>Http_Errors\<close> (\<open>api/query.py\<close>, \<open>schemas.py\<close>, \<open>errors.py\<close>, \<open>middleware.py\<close>, \<open>health.py\<close>,
    \<open>core/logging.py\<close>): query strings, money and pages on the wire, the error envelope, request identifiers.
  \<^item> \<open>Endpoints\<close> (\<open>auth/dependencies.py\<close>, \<open>api/v1\<close>): every endpoint as a program, with its cookies and headers, and
    the routers with their limits (\<open>serve\<close>). \<open>Api_Security\<close> has what holds of all of them at once.
  \<^item> \<open>Application\<close> (\<open>core/settings.py\<close>, \<open>core/application.py\<close>, \<open>auth/delivery_worker.py\<close>): settings and their validation,
    the life cycle of the process, the commands of the worker; it connects settings and provider to the endpoints.

  \<^bold>\<open>What is proved.\<close>
  \<^item> Invariants of every execution: the job table (\<open>Jobs\<close>), the identity tables with the append-only audit trail and
    the last administrator (\<open>Requests\<close>), exclusive deliveries (\<open>Delivery_Workers\<close>), each by a locale of \<open>Contracts\<close>.
  \<^item> Refinements: the unit of work of an atomic transaction, \<open>resolve\<close> of a lookup in the database alone whatever
    the cache holds, the storage of a map of intact objects.
  \<^item> Security of whole requests: other sites change nothing, protected routes need a live session, replies
    are not cached and cookies are hardened, a reset ends sessions, wrong codes count, external logins take over no
    account and rest on a token signed for the attempt, production settings are safe.
  \<^item> End to end, below in this theory: the callback route composed with the attempt store, the adapter and the
    checks of its token.
  \<^item> Round trips: events through the outbox, codes through e-mails, queries and their text, cache values, sessions.
  \<^item> Equivalences with a plain reading: fingerprints and contents of e-mails, the scan of a breach response.
  \<^item> Bounds, exactness and progress: sliding windows and their delays, money and pages, attempts of workers and jobs,
    redacted and bounded metadata, error responses.

  \<^bold>\<open>Bounds and fuel.\<close> Functions are total: recursion is structural or has a measure. Fuel stands only for budgets the code
  has itself (the items left in a walk over details, the number of polls while waiting for a cache lock, the attempts
  of a message), and the theorems speak of those budgets; the rounds of the internal worker are bounded by
  the attempts left in its table, which is proved.

  \<^bold>\<open>Not modelled.\<close> The framework: parsing of requests, route selection, middleware order, dependency
  injection, OpenAPI. SQL: statements are functions on tables; isolation is that of transactions ordered by the
  locks they take, and CHECK constraints and triggers of \<open>migrations\<close> are not restated. Construction of engines and clients
  (\<open>db/session.py\<close>, \<open>core/redis.py\<close>), declarative mixins (\<open>db/base.py\<close>, \<open>db/types.py\<close>), loading settings from the
  environment, logging and signal set-up: calls of libraries with no logic of their own. Metrics and tracing, whose
  adapters discard what they are given. \<open>outbox/events.py\<close>, a copy nobody imports. Characters above code point 255,
  rounding of binary floats in sums of seconds, and timing.
\<close>

section \<open>External logins, end to end\<close>

lemma callback_Inr:
  assumes "callback en st ns clk fi secret session_id oi load ex p state browser cd err cookie cid (started db w) = (Inr (path, sec), s')"
  shows "\<exists>a vi raw. cw_store w (attempt_key en ns state) = Some raw \<and> load raw = Some a \<and> at_provider a = p \<and>
    at_browser_hash a = en_sha256 en browser \<and> err = None \<and> truthy cd \<and> cf_enabled (provider_config_of oi p) \<and>
    ex (the cd) a = Inr vi \<and> path = at_return_path a"
proof -
  from assms obtain a s1 s2 where c: "outside (consume_attempt en ns load state browser p) (started db w) = (Inr a, s1)"
    and h: "handshake en st ns clk fi secret session_id oi ex p cd err cookie a cid s1 = (Inr sec, s2)" and p: "path = at_return_path a"
    by (auto simp: callback_def run_simps)
  from c have "\<exists>raw. cw_store w (attempt_key en ns state) = Some raw \<and> load raw = Some a \<and> at_provider a = p \<and> at_browser_hash a = en_sha256 en browser"
    by (auto simp: outside_def consume_attempt_def getdel_def split: prod.splits if_splits option.splits sum.splits)
  moreover from h have "err = None \<and> truthy cd \<and> cf_enabled (provider_config_of oi p) \<and> (\<exists>vi. ex (the cd) a = Inr vi)"
    by (auto simp: handshake_def run_simps split: if_splits)
  ultimately show ?thesis using p by blast
qed

lemma callback_reply:
  assumes "callback_oidc si pp dr wr p state cd err s = (Inr rp, s')"
  shows "\<exists>sec s1. callback (site_env si) (site_auth si) (site_ns si) (dr_clock dr) (dr_ids dr) (dr_secret dr) (dr_session_id dr) (site_oidc si)
    (pp_load pp) (pp_exchange pp p) p state (case wr_browser wr of None \<Rightarrow> [] | Some b \<Rightarrow> b) cd err (hr_cookie wr) (wr_request_id wr) s =
      (Inr (the (rp_location rp), sec), s1) \<and> rp_location rp \<noteq> None"
proof -
  have loc: "rp_location (add_cookie n v k si r) = rp_location r" "rp_location (set_session_cookie sec si k r) = rp_location r"
    "rp_location (private_redirect u) = Some u" for n v k r sec u
    by (simp_all add: add_cookie_def set_session_cookie_def private_redirect_def reply_header_def plain_reply_def)
  show ?thesis using assms by (auto simp: callback_oidc_def run_simps Let_def loc split: option.splits)
qed

text \<open>
  C6: an external login, link or reauthentication rests, end to end, on an attempt of this browser and on a token
  of the provider for it. If the callback route of a site whose provider port is the adapter answers, Redis
  held, under the state of the request, an attempt for this provider which the cookie of the browser
  matches; the provider is enabled and reported no error; the adapter got a token, decoded with keys from a pinned
  address, with the provider's issuer, the client as audience and the nonce of that attempt; and the
  browser is sent to the path stored in the attempt.
\<close>

theorem external_callback_end_to_end:
  assumes "registry_checks (nt_registry nt)"
    and "serve si (adapter_port nt (site_oidc si) dump load) dr ld wr (Callback_Oidc p state cd err) (db, w, l) = (Inr rp, db', w', l')"
  shows "\<exists>raw a c keys jwks_url encoded cl. cw_store w (attempt_key (site_env si) (site_ns si) state) = Some raw \<and> load raw = Some a \<and>
    at_provider a = p \<and> at_browser_hash a = en_sha256 (site_env si) (case wr_browser wr of None \<Rightarrow> [] | Some b \<Rightarrow> b) \<and>
    cd = Some c \<and> c \<noteq> [] \<and> err = None \<and> cf_enabled (provider_config_of (site_oidc si) p) \<and>
    safe_url p (VStr jwks_url) = Inr jwks_url \<and> fetched nt jwks_url = Inr keys \<and> nt_decode nt keys encoded = Inr cl \<and>
    map_of cl ''iss'' = Some (VStr (issuer p)) \<and> map_of cl ''nonce'' = Some (VStr (at_nonce a)) \<and>
    names_audience (cf_client_id (provider_config_of (site_oidc si) p)) (get_claim cl ''aud'') \<and>
    rp_location rp = Some (at_return_path a)"
proof -
  let ?pp = "adapter_port nt (site_oidc si) dump load" and ?cf = "provider_config_of (site_oidc si) p"
  let ?b = "case wr_browser wr of None \<Rightarrow> [] | Some b \<Rightarrow> b"
  from assms(2) obtain s' where "callback_oidc si ?pp dr wr p state cd err (started db w) = (Inr rp, s')"
    by (auto simp: serve_def run_endpoint_def run_tx_eq split: prod.splits sum.splits)
  from callback_reply [OF this] obtain sec s1 where loc: "rp_location rp \<noteq> None" and
    cb: "callback (site_env si) (site_auth si) (site_ns si) (dr_clock dr) (dr_ids dr) (dr_secret dr) (dr_session_id dr) (site_oidc si)
      (pp_load ?pp) (pp_exchange ?pp p) p state ?b cd err (hr_cookie wr) (wr_request_id wr) (started db w) = (Inr (the (rp_location rp), sec), s1)" by blast
  from callback_Inr [OF cb] obtain a vi raw where a: "cw_store w (attempt_key (site_env si) (site_ns si) state) = Some raw"
      "load raw = Some a" "at_provider a = p" "at_browser_hash a = en_sha256 (site_env si) ?b"
    and e: "err = None" "truthy cd" "cf_enabled ?cf" "the (rp_location rp) = at_return_path a"
    and x: "fst (exchange nt ?cf p (the cd) a new_adapter) = Inr vi"
    by (auto simp: adapter_port_def)
  obtain s2 where "exchange nt ?cf p (the cd) a new_adapter = (Inr vi, s2)" using x by (cases "exchange nt ?cf p (the cd) a new_adapter") simp
  from exchange_Inr [OF this] obtain encoded jwks_url keys cl where k: "pinned p jwks_url" "fetched nt jwks_url = Inr keys"
    "nt_decode nt keys encoded = Inr cl" "nt_registry nt (expected_claims ?cf p a) cl = Inr ()" by blast
  have "map_of cl ''iss'' = Some (VStr (issuer p)) \<and> map_of cl ''nonce'' = Some (VStr (at_nonce a)) \<and> names_audience (cf_client_id ?cf) (get_claim cl ''aud'')"
    using assms(1) k(4) unfolding registry_checks_def expected_claims_def by fastforce
  moreover obtain c where "cd = Some c" "c \<noteq> []" using e(2) by (cases cd) (auto simp: truthy_def)
  moreover have "rp_location rp = Some (at_return_path a)" using loc e(4) by auto
  ultimately show ?thesis using a e(1,3) k(1-3) unfolding pinned_def by blast
qed

text \<open>The steps of a login that succeeds.\<close>

lemma callback_answers:
  assumes "fst (identify_rate_limit (site_env si) (site_limits si) (ld_now ld) (ld_member1 ld) (ld_member2 ld) (ld_parse ld) (http_request.truncate wr) l) = Inr ()"
    and "fst (consume_attempt (site_env si) (site_ns si) (pp_load pp) state b p w) = Inr a" "wr_browser wr = Some b"
    and "pp_exchange pp p c a = Inr vi" "c \<noteq> []" "at_intent a = Login" "cf_enabled (provider_config_of (site_oidc si) p)"
    and "\<And>w2. \<not> isl (fst (finish_oidc (site_env si) (site_auth si) (dr_clock dr) (dr_ids dr) (dr_secret dr) (dr_session_id dr) vi a None (wr_request_id wr)
      ((started db w)\<lparr>external := w2\<rparr>)))"
  shows "\<not> isl (fst (serve si pp dr ld wr (Callback_Oidc p state (Some c) None) (db, w, l)))"
proof -
  obtain l' where l: "identify_rate_limit (site_env si) (site_limits si) (ld_now ld) (ld_member1 ld) (ld_member2 ld) (ld_parse ld)
      (http_request.truncate wr) l = (Inr (), l')" using assms(1) by (metis prod.collapse)
  obtain w2 where w2: "consume_attempt (site_env si) (site_ns si) (pp_load pp) state b p w = (Inr a, w2)" using assms(2) by (metis prod.collapse)
  obtain q s2 where q: "finish_oidc (site_env si) (site_auth si) (dr_clock dr) (dr_ids dr) (dr_secret dr) (dr_session_id dr) vi a None (wr_request_id wr)
      ((started db w)\<lparr>external := w2\<rparr>) = (q, s2)" by fastforce
  with assms(8) [of w2] have "\<not> isl q" by simp
  then obtain sec where f: "q = Inr sec" by (cases q) simp_all
  show ?thesis
    using assms(3-7) q f by (auto simp: serve_def l run_endpoint_def run_tx_started callback_oidc_def callback_def handshake_def
        bnd_def outside_def w2 catch_def ret_def lift_r_def truthy_def Let_def split: prod.splits)
qed

definition demo_oidc_site :: site where
  "demo_oidc_site = demo_site\<lparr>si_deployment := (si_deployment demo_site)\<lparr>dp_oidc := \<lparr>oi_google = demo_provider, oi_yahoo = demo_yahoo, oi_attempt_seconds = 600\<rparr>\<rparr>\<rparr>"

definition demo_browser :: string where "demo_browser = replicate 20 CHR ''b''"
definition demo_state :: string where "demo_state = replicate 20 CHR ''s''"

definition demo_load :: "string \<Rightarrow> attempt option" where
  "demo_load raw = Some (demo_attempt_y\<lparr>at_browser_hash := demo_browser\<rparr>)"

definition demo_callback :: "(exn + reply) \<times> system" where
  "demo_callback = serve demo_oidc_site (adapter_port demo_network (site_oidc demo_oidc_site) (\<lambda>a. []) demo_load) (demo_draws\<lparr>dr_secret := ''sec''\<rparr>) demo_limit_draws
     ((demo_web ''GET'' ''/api/v1/auth/oidc/yahoo/callback'')\<lparr>wr_browser := Some demo_browser\<rparr>)
     (Callback_Oidc Yahoo demo_state (Some ''c'') None)
     (empty_db, demo_cache\<lparr>cw_store := [attempt_key demo_env ''dev'' demo_state \<mapsto> ''raw'']\<rparr>, demo_limiter)"

definition demo_vi :: verified_identity where
  "demo_vi = \<lparr>vi_provider = Yahoo, vi_subject = ''u7'', vi_email = Some ''a@b.c'', vi_email_verified = True, vi_auth_time = None\<rparr>"

definition demo_stored :: attempt where
  "demo_stored = demo_attempt_y\<lparr>at_browser_hash := demo_browser\<rparr>"

lemma demo_exchanged: "pp_exchange (adapter_port demo_network (site_oidc demo_oidc_site) (\<lambda>a. []) demo_load) Yahoo ''c'' demo_stored = Inr demo_vi"
  by code_simp

lemma demo_consumed:
  "fst (consume_attempt (site_env demo_oidc_site) (site_ns demo_oidc_site) (pp_load (adapter_port demo_network (site_oidc demo_oidc_site) (\<lambda>a. []) demo_load))
     demo_state demo_browser Yahoo (demo_cache\<lparr>cw_store := [attempt_key demo_env ''dev'' demo_state \<mapsto> ''raw'']\<rparr>)) = Inr demo_stored"
  by code_simp

lemma demo_finished:
  "\<not> isl (fst (finish_oidc (site_env demo_oidc_site) (site_auth demo_oidc_site) (\<lambda>n. 50) demo_ids ''sec'' 16 demo_vi demo_stored None ''r''
      ((started empty_db w)\<lparr>external := w2\<rparr>)))"
  by code_simp

lemma demo_limited:
  "fst (identify_rate_limit (site_env demo_oidc_site) (site_limits demo_oidc_site) (ld_now demo_limit_draws) (ld_member1 demo_limit_draws)
     (ld_member2 demo_limit_draws) (ld_parse demo_limit_draws)
     (http_request.truncate ((demo_web ''GET'' ''/api/v1/auth/oidc/yahoo/callback'')\<lparr>wr_browser := Some demo_browser\<rparr>)) demo_limiter) = Inr ()"
  by code_simp

lemma demo_callback_answers: "\<not> isl (fst demo_callback)"
  unfolding demo_callback_def
  by (rule callback_answers [OF demo_limited demo_consumed _ demo_exchanged])
    (simp_all add: demo_web_def demo_stored_def demo_attempt_y_def demo_oidc_site_def demo_site_def provider_config_of_def demo_yahoo_def
      demo_draws_def demo_finished [unfolded demo_stored_def demo_attempt_y_def demo_oidc_site_def demo_site_def, simplified])

theorem external_callback_end_to_end_witness:
  "case fst demo_callback of Inl e \<Rightarrow> False | Inr rp \<Rightarrow> rp_location rp = Some ''/''"
proof -
  obtain r db' w' l' where x: "demo_callback = (r, db', w', l')" by (metis prod_cases4)
  have "\<not> isl r" using demo_callback_answers unfolding x by simp
  then obtain rp where r: "r = Inr rp" by (cases r) simp_all
  from external_callback_end_to_end [OF demo_network_ok(2) x [unfolded r demo_callback_def]] have "rp_location rp = Some ''/''"
    by (auto simp: demo_load_def demo_attempt_y_def)
  then show ?thesis by (simp add: x r)
qed

end
